theory Spec2Isabelle
  imports Main
begin

section \<open>Time and calendar\<close>

text \<open>
  An instant is a JavaScript time value: milliseconds since 1970-01-01T00:00:00Z,
  as \<open>Date.prototype.getTime\<close> returns it. The time zone database behind
  \<open>Intl.DateTimeFormat\<close> and \<open>toLocaleString\<close> is a parameter \<open>tzdb\<close> of
  every function that formats in a zone: \<open>tzdb tz t\<close> is the offset from UTC, in
  seconds, that zone \<open>tz\<close> observes at instant \<open>t\<close>. The process itself runs in UTC,
  so \<open>new Date(y, m, d, h, mi)\<close>, \<open>getFullYear\<close>, \<open>getMonth\<close>, \<open>getDate\<close> and the
  parsing of a date-time string without offset all read UTC. Numbers are integers.
\<close>

type_synonym instant = int

type_synonym tzdb = "string \<Rightarrow> instant \<Rightarrow> int"

definition msPerDay :: int where
  "msPerDay = 24 * 60 * 60 * 1000"

text \<open>The offset, in seconds, that \<open>Intl\<close> applies for zone \<open>tz\<close> at an instant; UTC has
  none.\<close>

definition offsetAt :: "tzdb \<Rightarrow> string \<Rightarrow> instant \<Rightarrow> int" where
  "offsetAt db tz t = (if tz = ''UTC'' then 0 else db tz t)"

text \<open>Day number (days since 1970-01-01) of a proleptic Gregorian date, month 1..12;
  the day of the month may overflow, as in \<open>new Date(y, m, d + k)\<close>.\<close>

definition daysFromCivil :: "int \<Rightarrow> int \<Rightarrow> int \<Rightarrow> int" where
  "daysFromCivil y m d =
     (let y1 = (if m \<le> 2 then y - 1 else y);
          era = y1 div 400;
          yoe = y1 - era * 400;
          mp = (m + 9) mod 12;
          doy = (153 * mp + 2) div 5 + d - 1;
          doe = yoe * 365 + yoe div 4 - yoe div 100 + doy
      in era * 146097 + doe - 719468)"

text \<open>The Gregorian date (year, month 1..12, day) of a day number.\<close>

definition civilFromDays :: "int \<Rightarrow> int \<times> int \<times> int" where
  "civilFromDays n =
     (let z = n + 719468;
          era = z div 146097;
          doe = z - era * 146097;
          yoe = (doe - doe div 1460 + doe div 36524 - doe div 146096) div 365;
          doy = doe - (365 * yoe + yoe div 4 - yoe div 100);
          mp = (5 * doy + 2) div 153;
          d = doy - (153 * mp + 2) div 5 + 1;
          m = (if mp < 10 then mp + 3 else mp - 9);
          y = yoe + era * 400
      in (if m \<le> 2 then y + 1 else y, m, d))"

text \<open>\<open>new Date(year, month, date, hours, minutes, 0, 0)\<close> in a UTC process: month is
  0-indexed, every field may overflow, and a year 0..99 means 1900 + year.\<close>

definition makeDate :: "int \<Rightarrow> int \<Rightarrow> int \<Rightarrow> int \<Rightarrow> int \<Rightarrow> instant" where
  "makeDate y m d h mi =
     (let yr = (if 0 \<le> y \<and> y \<le> 99 then 1900 + y else y);
          ym = yr + m div 12;
          mn = m mod 12
      in (daysFromCivil ym (mn + 1) 1 + d - 1) * msPerDay + h * 3600000 + mi * 60000)"

definition getFullYear :: "instant \<Rightarrow> int" where
  "getFullYear t = fst (civilFromDays (t div msPerDay))"

definition getMonth :: "instant \<Rightarrow> int" where
  "getMonth t = fst (snd (civilFromDays (t div msPerDay))) - 1"

definition getDate :: "instant \<Rightarrow> int" where
  "getDate t = snd (snd (civilFromDays (t div msPerDay)))"

section \<open>Recurring weekly schedule (modules/scheduling/recurringSchedule)\<close>

record timeSlot =
  hour :: int
  minute :: int

text \<open>The AccountSchedule document (modules/scheduling/accountSchedule.model). A document
  read with \<open>lean()\<close> may carry further fields; they live in the record's extension.\<close>

record accountSchedule =
  organizationId :: nat
  socialAccountId :: nat
  name :: string
  enabled :: bool
  timeSlots :: "timeSlot list"
  daysOfWeek :: "int list"
  maxPostsPerDay :: "int option"
  timezone :: string

record localParts =
  lp_year :: int
  lp_month :: int
  lp_date :: int
  lp_dayOfWeek :: int
  lp_hour :: int
  lp_minute :: int

text \<open>\<open>getLocalParts\<close>: the wall clock of zone \<open>tz\<close> at a UTC instant. Day of week
  0 = Sunday; 1970-01-01 was a Thursday.\<close>

definition getLocalParts :: "tzdb \<Rightarrow> instant \<Rightarrow> string \<Rightarrow> localParts" where
  "getLocalParts db dateUtc tz =
     (let loc = dateUtc + 1000 * offsetAt db tz dateUtc;
          dn = loc div msPerDay;
          ymd = civilFromDays dn
      in \<lparr> lp_year = fst ymd,
           lp_month = fst (snd ymd) - 1,
           lp_date = snd (snd ymd),
           lp_dayOfWeek = (dn + 4) mod 7,
           lp_hour = (loc mod msPerDay) div 3600000,
           lp_minute = (loc mod 3600000) div 60000 \<rparr>)"

text \<open>The ISO text \<open>YYYY-MM-DDTHH:mm:00\<close> that \<open>localToUtc\<close> and \<open>getDayStartInUtc\<close>
  build parses to a date only when the year prints with four digits, the month (given
  0-indexed here, printed as \<open>month + 1\<close>) is 01..12, the day is 01..31 and the time of day
  is one ISO 8601 admits; otherwise \<open>new Date\<close> gives an Invalid Date, whose time value
  is NaN (\<open>None\<close>). A day past the end of its month carries into the next month.\<close>

definition parseIsoUtc :: "int \<Rightarrow> int \<Rightarrow> int \<Rightarrow> int \<Rightarrow> int \<Rightarrow> instant option" where
  "parseIsoUtc y m d h mi =
     (if 1000 \<le> y \<and> y \<le> 9999 \<and> 0 \<le> m \<and> m \<le> 11 \<and> 1 \<le> d \<and> d \<le> 31 \<and>
         ((0 \<le> h \<and> h \<le> 23 \<and> 0 \<le> mi \<and> mi \<le> 59) \<or> (h = 24 \<and> mi = 0))
      then Some (daysFromCivil y (m + 1) d * msPerDay + h * 3600000 + mi * 60000)
      else None)"

text \<open>\<open>localToUtc\<close>: for a zone other than UTC the ISO text is read as a UTC instant
  \<open>localDate\<close>; \<open>utcDate\<close> and \<open>tzDate\<close> are the wall clocks of UTC and of \<open>tz\<close> at
  \<open>localDate\<close>, each read back as UTC, so \<open>offset\<close> is minus the zone's offset at
  \<open>localDate\<close>.\<close>

definition localToUtc :: "tzdb \<Rightarrow> int \<Rightarrow> int \<Rightarrow> int \<Rightarrow> int \<Rightarrow> int \<Rightarrow> string \<Rightarrow> instant option" where
  "localToUtc db y m d h mi tz =
     (case parseIsoUtc y m d h mi of
        None \<Rightarrow> None
      | Some localDate \<Rightarrow>
          if tz = [] \<or> tz = ''UTC'' then Some localDate
          else
            let utcDate = localDate;
                tzDate = localDate + 1000 * offsetAt db tz localDate;
                offset = utcDate - tzDate
            in Some (localDate + offset))"

text \<open>\<open>[...new Set(xs)]\<close>: first occurrences, in order.\<close>

fun uniq :: "int list \<Rightarrow> int list \<Rightarrow> int list" where
  "uniq seen [] = []"
| "uniq seen (x # xs) = (if x \<in> set seen then uniq seen xs else x # uniq (x # seen) xs)"

text \<open>One pass of the innermost loop body of \<open>getNextSlotTimes\<close>: the candidate for a
  week, a day of the week and a slot, kept when it is a date not before \<open>fromUtc\<close>.\<close>

definition slotCandidate ::
  "tzdb \<Rightarrow> localParts \<Rightarrow> string \<Rightarrow> instant \<Rightarrow> int \<Rightarrow> int \<Rightarrow> timeSlot \<Rightarrow> instant list" where
  "slotCandidate db startParts tz fromUtc week dayOfWeek slot =
     (let localY = lp_year startParts;
          localM = lp_month startParts;
          localD = lp_date startParts;
          localDw = lp_dayOfWeek startParts;
          d0 = dayOfWeek - localDw;
          d1 = (if d0 < 0 then d0 + 7 else d0);
          daysOffset = (if week = 1 then d1 + 7 else d1);
          slotDate = makeDate localY localM (localD + daysOffset) (hour slot) (minute slot)
      in case localToUtc db (getFullYear slotDate) (getMonth slotDate) (getDate slotDate)
                (hour slot) (minute slot) tz of
           None \<Rightarrow> []
         | Some utc \<Rightarrow> if utc \<ge> fromUtc then [utc] else [])"

text \<open>The final loop of \<open>getNextSlotTimes\<close>: walk the sorted candidates, stop once
  \<open>count\<close> are out, skip an instant already seen.\<close>

fun collectOut :: "int \<Rightarrow> instant list \<Rightarrow> instant list \<Rightarrow> instant list" where
  "collectOut count out [] = out"
| "collectOut count out (c # cs) =
     (if int (length out) \<ge> count then out
      else if c \<in> set out then collectOut count out cs
      else collectOut count (out @ [c]) cs)"

text \<open>\<open>xs.slice(0, count)\<close>: a negative end counts from the end of the array.\<close>

definition slice0 :: "'a list \<Rightarrow> int \<Rightarrow> 'a list" where
  "slice0 xs count =
     (if count < 0 then take (nat (int (length xs) + count)) xs else take (nat count) xs)"

text \<open>\<open>schedule.timezone || 'UTC'\<close>.\<close>

definition zoneOf :: "'a accountSchedule_scheme \<Rightarrow> string" where
  "zoneOf schedule = (if timezone schedule = [] then ''UTC'' else timezone schedule)"

text \<open>The three nested loops of \<open>getNextSlotTimes\<close> that fill \<open>candidates\<close>: two weeks,
  the active days (all seven when none is configured), the time slots.\<close>

definition slotCandidates :: "tzdb \<Rightarrow> 'a accountSchedule_scheme \<Rightarrow> instant \<Rightarrow> instant list" where
  "slotCandidates db schedule fromUtc =
     (let days = (if daysOfWeek schedule \<noteq> [] then sort (uniq [] (daysOfWeek schedule))
                  else [0, 1, 2, 3, 4, 5, 6]);
          tz = zoneOf schedule;
          startParts = getLocalParts db fromUtc tz
      in concat (map (\<lambda>week.
           concat (map (\<lambda>dayOfWeek.
             concat (map (slotCandidate db startParts tz fromUtc week dayOfWeek)
               (timeSlots schedule)))
             days))
           [0, 1]))"

definition getNextSlotTimes ::
  "tzdb \<Rightarrow> 'a accountSchedule_scheme \<Rightarrow> instant \<Rightarrow> int \<Rightarrow> instant list" where
  "getNextSlotTimes db schedule fromUtc count =
     (if timeSlots schedule = [] then []
      else slice0 (collectOut count [] (sort (slotCandidates db schedule fromUtc))) count)"

definition getNextSlotTime :: "tzdb \<Rightarrow> 'a accountSchedule_scheme \<Rightarrow> instant \<Rightarrow> instant option" where
  "getNextSlotTime db schedule fromUtc =
     (case getNextSlotTimes db schedule fromUtc 1 of [] \<Rightarrow> None | s # _ \<Rightarrow> Some s)"

text \<open>A zone database for examples: New York in 2024 (UTC-5, and UTC-4 from
  2024-03-10T07:00Z until 2024-11-03T06:00Z); every other zone reads as UTC.\<close>

definition tzdb2024 :: tzdb where
  "tzdb2024 tz t =
     (if tz = ''America/New_York''
      then (if 1710054000000 \<le> t \<and> t < 1730613600000 then - 14400 else - 18000)
      else 0)"

section \<open>Queue slots and the slot allocator (modules/scheduling/slotAllocator.service)\<close>

datatype slotStatus =
  SlotAvailable | SlotScheduled | SlotPublishing | SlotPublished | SlotFailed | SlotCanceled

record queueSlot =
  qs_id :: nat
  qs_organizationId :: nat
  qs_socialAccountId :: nat
  qs_scheduledAt :: instant
  qs_postId :: "nat option"
  qs_status :: slotStatus

datatype postStatus =
  PostDraft | PostScheduled | PostQueued | PostPublishing | PostPublished | PostFailed

record variant =
  var_socialAccountId :: nat
  var_text :: "string option"
  var_linkUrl :: "string option"

record post =
  post_id :: nat
  post_organizationId :: nat
  post_status :: postStatus
  post_text :: "string option"
  post_linkUrl :: "string option"
  post_variants :: "variant list"
  post_socialAccountIds :: "nat list"
  post_scheduledAt :: "instant option"
  post_publishedAt :: "instant option"
  post_failureReason :: "string option"
  post_failureCode :: "string option"

text \<open>The collections the allocator reads and writes.\<close>

record 'a schedDb =
  schedules :: "'a accountSchedule_scheme list"
  queueSlots :: "queueSlot list"
  posts :: "post list"

datatype schedError =
  CastError
  | NoAccountIds
  | POST_NOT_FOUND
  | INVALID_POST_STATE postStatus
  | NO_SLOT_AVAILABLE nat

definition MINUTES_BUFFER :: int where
  "MINUTES_BUFFER = 2"

text \<open>The status filter \<open>{ $in: ['scheduled', 'publishing', 'published'] }\<close> of the
  QueueSlot queries, and \<open>{ $in: ['scheduled', 'queued', 'publishing'] }\<close> of the Post
  query.\<close>

definition slotCounts :: "slotStatus \<Rightarrow> bool" where
  "slotCounts s = (s = SlotScheduled \<or> s = SlotPublishing \<or> s = SlotPublished)"

definition postCounts :: "postStatus \<Rightarrow> bool" where
  "postCounts s = (s = PostScheduled \<or> s = PostQueued \<or> s = PostPublishing)"

definition slotCountInRange :: "'a schedDb \<Rightarrow> nat \<Rightarrow> instant \<Rightarrow> instant \<Rightarrow> nat" where
  "slotCountInRange st a dayStartUtc dayEndUtc =
     length (filter (\<lambda>q. qs_socialAccountId q = a \<and> dayStartUtc \<le> qs_scheduledAt q \<and>
                         qs_scheduledAt q < dayEndUtc \<and> slotCounts (qs_status q))
               (queueSlots st))"

definition postCountInRange :: "'a schedDb \<Rightarrow> nat \<Rightarrow> instant \<Rightarrow> instant \<Rightarrow> nat" where
  "postCountInRange st a dayStartUtc dayEndUtc =
     length (filter (\<lambda>p. a \<in> set (post_socialAccountIds p) \<and>
                         (case post_scheduledAt p of
                            None \<Rightarrow> False
                          | Some t \<Rightarrow> dayStartUtc \<le> t \<and> t < dayEndUtc) \<and>
                         postCounts (post_status p))
               (posts st))"

definition countScheduledSlotsInRange :: "'a schedDb \<Rightarrow> nat \<Rightarrow> instant \<Rightarrow> instant \<Rightarrow> nat" where
  "countScheduledSlotsInRange st a dayStartUtc dayEndUtc =
     max (slotCountInRange st a dayStartUtc dayEndUtc) (postCountInRange st a dayStartUtc dayEndUtc)"

text \<open>\<open>getDayStartInUtc\<close>: midnight of the day that holds \<open>dateUtc\<close> on the wall clock of
  \<open>tz\<close>, converted the way \<open>localToUtc\<close> converts. \<open>None\<close> is an Invalid Date.\<close>

definition getDayStartInUtc :: "tzdb \<Rightarrow> instant \<Rightarrow> string \<Rightarrow> instant option" where
  "getDayStartInUtc db dateUtc tz =
     (let loc = dateUtc + 1000 * offsetAt db tz dateUtc;
          ymd = civilFromDays (loc div msPerDay);
          year = fst ymd;
          month = fst (snd ymd) - 1;
          day = snd (snd ymd)
      in case parseIsoUtc year month day 0 0 of
           None \<Rightarrow> None
         | Some localDate \<Rightarrow>
             if tz = [] \<or> tz = ''UTC'' then Some localDate
             else
               let utcDate = localDate;
                   tzDate = localDate + 1000 * offsetAt db tz localDate;
                   offset = utcDate - tzDate
               in Some (localDate + offset))"

text \<open>\<open>schedule.maxPostsPerDay || 5\<close>.\<close>

definition dailyCap :: "'a accountSchedule_scheme \<Rightarrow> int" where
  "dailyCap schedule =
     (case maxPostsPerDay schedule of None \<Rightarrow> 5 | Some n \<Rightarrow> if n = 0 then 5 else n)"

text \<open>The \<open>QueueSlot.findOne\<close> of the double-booking check.\<close>

definition alreadyUsed :: "'a schedDb \<Rightarrow> nat \<Rightarrow> instant \<Rightarrow> queueSlot option" where
  "alreadyUsed st a candidate =
     find (\<lambda>q. qs_socialAccountId q = a \<and> qs_scheduledAt q = candidate \<and>
                slotCounts (qs_status q))
       (queueSlots st)"

definition maxAttempts :: nat where
  "maxAttempts = 14 * 24 * 2"

text \<open>The \<open>for\<close> loop of \<open>getNextAvailableSlot\<close>, entered with the loop variable
  \<open>attempts\<close> and the mutable date \<open>from\<close>. It returns what the function returns there
  (an Invalid Date handed to a query is a CastError of the store), and the value of
  \<open>attempts\<close> when it leaves the loop.\<close>

function slotLoop ::
  "tzdb \<Rightarrow> 'a schedDb \<Rightarrow> 'a accountSchedule_scheme \<Rightarrow> nat \<Rightarrow> string \<Rightarrow> instant \<Rightarrow> nat \<Rightarrow>
     (schedError + instant option) \<times> nat" where
  "slotLoop db st schedule a tz frm attempts =
     (if attempts < maxAttempts then
        (case getNextSlotTime db schedule frm of
           None \<Rightarrow> (Inr None, attempts)
         | Some candidate \<Rightarrow>
             (case getDayStartInUtc db candidate tz of
                None \<Rightarrow> (Inl CastError, attempts)
              | Some dayStart \<Rightarrow>
                  let dayEnd = dayStart + 24 * 60 * 60 * 1000;
                      existingCount = countScheduledSlotsInRange st a dayStart dayEnd
                  in if int existingCount \<ge> dailyCap schedule
                     then slotLoop db st schedule a tz (candidate + 60 * 1000) (Suc attempts)
                     else if alreadyUsed st a candidate \<noteq> None
                     then slotLoop db st schedule a tz (candidate + 60 * 1000) (Suc attempts)
                     else (Inr (Some candidate), attempts)))
      else (Inr None, attempts))"
  by pat_completeness auto
termination
  by (relation "measure (\<lambda>(db, st, schedule, a, tz, frm, attempts). maxAttempts - attempts)") auto

declare slotLoop.simps [simp del]

text \<open>\<open>AccountSchedule.findOne({ socialAccountId, enabled: true })\<close>.\<close>

definition findSchedule :: "'a schedDb \<Rightarrow> nat \<Rightarrow> 'a accountSchedule_scheme option" where
  "findSchedule st a = find (\<lambda>s. socialAccountId s = a \<and> enabled s) (schedules st)"

definition getNextAvailableSlot ::
  "tzdb \<Rightarrow> 'a schedDb \<Rightarrow> instant \<Rightarrow> nat \<Rightarrow> instant option \<Rightarrow> schedError + instant option" where
  "getNextAvailableSlot db st now a fromUtc =
     (case findSchedule st a of
        None \<Rightarrow> Inr None
      | Some schedule \<Rightarrow>
          if timeSlots schedule = [] then Inr None
          else
            let frm = (case fromUtc of Some f \<Rightarrow> f | None \<Rightarrow> now + MINUTES_BUFFER * 60 * 1000);
                tz = zoneOf schedule
            in fst (slotLoop db st schedule a tz frm 0))"

text \<open>\<open>QueueSlot.create\<close>: the store assigns an identifier no slot has yet.\<close>

definition freshSlotId :: "'a schedDb \<Rightarrow> nat" where
  "freshSlotId st = Suc (fold max (map qs_id (queueSlots st)) 0)"

text \<open>One pass of the loop over the accounts in \<open>allocateSlotForPost\<close>: the next
  available slot of the account, then the creation of its QueueSlot. This is the
  specification's \<open>reserveNext\<close>.\<close>

definition reserveNext ::
  "tzdb \<Rightarrow> 'a schedDb \<Rightarrow> instant \<Rightarrow> nat \<Rightarrow> nat \<Rightarrow> nat \<Rightarrow> instant \<Rightarrow>
     'a schedDb \<times> (schedError + queueSlot)" where
  "reserveNext db st now postId orgId accountId fromUtc =
     (case getNextAvailableSlot db st now accountId (Some fromUtc) of
        Inl e \<Rightarrow> (st, Inl e)
      | Inr None \<Rightarrow> (st, Inl (NO_SLOT_AVAILABLE accountId))
      | Inr (Some scheduledAt) \<Rightarrow>
          let queueSlot = \<lparr> qs_id = freshSlotId st,
                             qs_organizationId = orgId,
                             qs_socialAccountId = accountId,
                             qs_scheduledAt = scheduledAt,
                             qs_postId = Some postId,
                             qs_status = SlotScheduled \<rparr>
          in (st\<lparr>queueSlots := queueSlots st @ [queueSlot]\<rparr>, Inr queueSlot))"

fun allocLoop ::
  "tzdb \<Rightarrow> 'a schedDb \<Rightarrow> instant \<Rightarrow> nat \<Rightarrow> nat \<Rightarrow> instant \<Rightarrow> nat list \<Rightarrow> queueSlot list \<Rightarrow>
     'a schedDb \<times> (schedError + queueSlot list)" where
  "allocLoop db st now postId orgId fromUtc [] slots = (st, Inr slots)"
| "allocLoop db st now postId orgId fromUtc (accountId # rest) slots =
     (case reserveNext db st now postId orgId accountId fromUtc of
        (st1, Inl e) \<Rightarrow> (st1, Inl e)
      | (st1, Inr queueSlot) \<Rightarrow>
          allocLoop db st1 now postId orgId
            (if qs_scheduledAt queueSlot > fromUtc then qs_scheduledAt queueSlot else fromUtc)
            rest (slots @ [queueSlot]))"

text \<open>\<open>Math.min(...slots.map(...))\<close> over a non-empty array.\<close>

definition earliestOf :: "queueSlot list \<Rightarrow> instant" where
  "earliestOf slots = fold min (map qs_scheduledAt (tl slots)) (qs_scheduledAt (hd slots))"

definition allocateSlotForPost ::
  "tzdb \<Rightarrow> 'a schedDb \<Rightarrow> instant \<Rightarrow> nat \<Rightarrow> nat list \<Rightarrow> nat \<Rightarrow>
     'a schedDb \<times> (schedError + instant \<times> queueSlot list)" where
  "allocateSlotForPost db st now postId socialAccountIds orgId =
     (if socialAccountIds = [] then (st, Inl NoAccountIds)
      else
        case find (\<lambda>p. post_id p = postId) (posts st) of
          None \<Rightarrow> (st, Inl POST_NOT_FOUND)
        | Some p \<Rightarrow>
            if post_status p \<noteq> PostDraft \<and> post_status p \<noteq> PostQueued
            then (st, Inl (INVALID_POST_STATE (post_status p)))
            else
              (case allocLoop db st now postId orgId
                      (now + MINUTES_BUFFER * 60 * 1000) socialAccountIds [] of
                 (st1, Inl e) \<Rightarrow> (st1, Inl e)
               | (st1, Inr slots) \<Rightarrow>
                   let earliest = earliestOf slots
                   in (st1\<lparr>posts :=
                          map (\<lambda>q. if post_id q = postId
                                    then q\<lparr>post_socialAccountIds := socialAccountIds,
                                           post_scheduledAt := Some earliest,
                                           post_status := PostScheduled\<rparr>
                                    else q)
                            (posts st1)\<rparr>,
                       Inr (earliest, slots))))"

section \<open>Provider errors (lib/errors)\<close>

text \<open>A thrown value: its class, its message and the options its constructor was given
  (for a plain \<open>Error\<close>, the \<open>code\<close> assigned to it afterwards, if any). What the code
  reads from an error (\<open>name\<close>, \<open>code\<close>, \<open>retryable\<close>, \<open>retryAfterSeconds\<close>,
  \<open>instanceof ProviderRateLimitError\<close>) is computed from these as the constructors of
  lib/errors do.\<close>

datatype errorClass =
  PlainError | ProviderError | OAuthError | ProviderRateLimitError
  | ProviderClientError | ProviderServerError

record jsError =
  err_class :: errorClass
  err_message :: string
  err_optCode :: "string option"
  err_optRetryable :: "bool option"
  err_optRetryAfter :: "int option"

text \<open>A string that JavaScript takes for true: neither missing nor empty.\<close>

definition truthy :: "string option \<Rightarrow> bool" where
  "truthy s = (case s of None \<Rightarrow> False | Some x \<Rightarrow> x \<noteq> [])"

text \<open>\<open>s || d\<close> on strings.\<close>

definition orDefault :: "string option \<Rightarrow> string \<Rightarrow> string" where
  "orDefault s d = (case s of None \<Rightarrow> d | Some x \<Rightarrow> if x = [] then d else x)"

definition errName :: "jsError \<Rightarrow> string" where
  "errName e =
     (case err_class e of
        PlainError \<Rightarrow> ''Error''
      | ProviderError \<Rightarrow> ''ProviderError''
      | OAuthError \<Rightarrow> ''OAuthError''
      | ProviderRateLimitError \<Rightarrow> ''ProviderRateLimitError''
      | ProviderClientError \<Rightarrow> ''ProviderClientError''
      | ProviderServerError \<Rightarrow> ''ProviderServerError'')"

definition errCode :: "jsError \<Rightarrow> string option" where
  "errCode e =
     (case err_class e of
        PlainError \<Rightarrow> err_optCode e
      | ProviderError \<Rightarrow> Some (orDefault (err_optCode e) ''PROVIDER_ERROR'')
      | OAuthError \<Rightarrow> Some (orDefault (err_optCode e) ''OAUTH_ERROR'')
      | ProviderRateLimitError \<Rightarrow> Some ''RATE_LIMIT''
      | ProviderClientError \<Rightarrow> Some (orDefault (err_optCode e) ''PROVIDER_ERROR'')
      | ProviderServerError \<Rightarrow> Some (orDefault (err_optCode e) ''PROVIDER_ERROR''))"

definition errRetryable :: "jsError \<Rightarrow> bool" where
  "errRetryable e =
     (case err_class e of
        PlainError \<Rightarrow> False
      | ProviderError \<Rightarrow> (case err_optRetryable e of None \<Rightarrow> False | Some b \<Rightarrow> b)
      | OAuthError \<Rightarrow> (case err_optRetryable e of None \<Rightarrow> False | Some b \<Rightarrow> b)
      | ProviderRateLimitError \<Rightarrow> True
      | ProviderClientError \<Rightarrow> False
      | ProviderServerError \<Rightarrow> True)"

definition retryAfterSeconds :: "jsError \<Rightarrow> int option" where
  "retryAfterSeconds e = (case err_class e of PlainError \<Rightarrow> None | _ \<Rightarrow> err_optRetryAfter e)"

definition isRateLimit :: "jsError \<Rightarrow> bool" where
  "isRateLimit e = (err_class e = ProviderRateLimitError)"

text \<open>\<open>const e = new Error(message); e.code = code; throw e\<close>.\<close>

definition codedError :: "string \<Rightarrow> string \<Rightarrow> jsError" where
  "codedError code message =
     \<lparr> err_class = PlainError, err_message = message, err_optCode = Some code,
       err_optRetryable = None, err_optRetryAfter = None \<rparr>"

text \<open>\<open>throw new Error(message)\<close>.\<close>

definition plainError :: "string \<Rightarrow> jsError" where
  "plainError message =
     \<lparr> err_class = PlainError, err_message = message, err_optCode = None,
       err_optRetryable = None, err_optRetryAfter = None \<rparr>"

text \<open>\<open>haystack.includes(needle)\<close>.\<close>

fun startsWith :: "string \<Rightarrow> string \<Rightarrow> bool" where
  "startsWith s [] = True"
| "startsWith [] (n # ns) = False"
| "startsWith (c # cs) (n # ns) = (c = n \<and> startsWith cs ns)"

fun strIncludes :: "string \<Rightarrow> string \<Rightarrow> bool" where
  "strIncludes [] needle = (needle = [])"
| "strIncludes (c # cs) needle = (startsWith (c # cs) needle \<or> strIncludes cs needle)"

section \<open>Token encryption (modules/connections/token.service)\<close>

text \<open>A Buffer is a list of bytes (\<open>char\<close> is the 8-bit byte). AES-256-GCM and base64
  come from the platform's library, not from the repository: they are the fields of a
  parameter. \<open>gcmEncrypt key iv plaintext\<close> gives the ciphertext and the authentication
  tag; \<open>gcmDecrypt key iv authTag ciphertext\<close> gives the plaintext, or \<open>None\<close> when
  \<open>decipher.final\<close> throws because the tag does not authenticate.\<close>

type_synonym buffer = "char list"

record cryptoLib =
  gcmEncrypt :: "buffer \<Rightarrow> buffer \<Rightarrow> buffer \<Rightarrow> buffer \<times> buffer"
  gcmDecrypt :: "buffer \<Rightarrow> buffer \<Rightarrow> buffer \<Rightarrow> buffer \<Rightarrow> buffer option"
  base64Encode :: "buffer \<Rightarrow> string"
  base64Decode :: "string \<Rightarrow> buffer"

text \<open>The plaintext of the token service is a JavaScript string in full: the list of its
  UTF-16 code units, each below 65536. \<open>cipher.update(plaintext, 'utf8')\<close> writes it as
  UTF-8, and the concatenation of the Buffer that \<open>decipher.update\<close> returns with a string
  reads the bytes back as UTF-8. Both directions are the platform's and follow the
  Encoding Standard: a lead surrogate followed by a trail surrogate is one code point of four
  bytes; a surrogate that is not part of such a pair is written as U+FFFD (EF BF BD); bytes
  that are not UTF-8 are read as U+FFFD, one for each maximal ill-formed part.\<close>

type_synonym jsString = "nat list"

definition REPLACEMENT :: "nat list" where
  "REPLACEMENT = [0xEF, 0xBF, 0xBD]"

definition isLead :: "nat \<Rightarrow> bool" where
  "isLead u = (0xD800 \<le> u \<and> u < 0xDC00)"

definition isTrail :: "nat \<Rightarrow> bool" where
  "isTrail u = (0xDC00 \<le> u \<and> u < 0xE000)"

definition encodePoint :: "nat \<Rightarrow> nat list" where
  "encodePoint cp =
     (if cp < 0x80 then [cp]
      else if cp < 0x800 then [0xC0 + cp div 64, 0x80 + cp mod 64]
      else if cp < 0x10000 then [0xE0 + cp div 4096, 0x80 + cp div 64 mod 64, 0x80 + cp mod 64]
      else [0xF0 + cp div 262144, 0x80 + cp div 4096 mod 64, 0x80 + cp div 64 mod 64,
            0x80 + cp mod 64])"

fun encodeUnits :: "jsString \<Rightarrow> nat list" where
  "encodeUnits [] = []"
| "encodeUnits (u # us) =
     (if isLead u then
        (case us of
           [] \<Rightarrow> REPLACEMENT
         | l # rest \<Rightarrow>
             if isTrail l
             then encodePoint (0x10000 + (u - 0xD800) * 1024 + (l - 0xDC00)) @ encodeUnits rest
             else REPLACEMENT @ encodeUnits us)
      else if isTrail u then REPLACEMENT @ encodeUnits us
      else encodePoint u @ encodeUnits us)"

definition isCont :: "nat \<Rightarrow> bool" where
  "isCont b = (0x80 \<le> b \<and> b \<le> 0xBF)"

text \<open>The range of the second byte after a lead byte of a sequence of three or four
  bytes.\<close>

definition secondLow :: "nat \<Rightarrow> nat" where
  "secondLow b = (if b = 0xE0 then 0xA0 else if b = 0xF0 then 0x90 else 0x80)"

definition secondHigh :: "nat \<Rightarrow> nat" where
  "secondHigh b = (if b = 0xED then 0x9F else if b = 0xF4 then 0x8F else 0xBF)"

definition unitsOfPoint :: "nat \<Rightarrow> jsString" where
  "unitsOfPoint cp =
     (if cp < 0x10000 then [cp]
      else [0xD800 + (cp - 0x10000) div 1024, 0xDC00 + (cp - 0x10000) mod 1024])"

fun decodeBytes :: "nat list \<Rightarrow> jsString" where
  "decodeBytes [] = []"
| "decodeBytes (b # bs) =
     (if b < 0x80 then b # decodeBytes bs
      else if 0xC2 \<le> b \<and> b \<le> 0xDF then
        (case bs of
           [] \<Rightarrow> [0xFFFD]
         | b1 # r1 \<Rightarrow>
             if isCont b1 then ((b - 0xC0) * 64 + (b1 - 0x80)) # decodeBytes r1
             else 0xFFFD # decodeBytes bs)
      else if 0xE0 \<le> b \<and> b \<le> 0xEF then
        (case bs of
           [] \<Rightarrow> [0xFFFD]
         | b1 # r1 \<Rightarrow>
             if secondLow b \<le> b1 \<and> b1 \<le> secondHigh b then
               (case r1 of
                  [] \<Rightarrow> [0xFFFD]
                | b2 # r2 \<Rightarrow>
                    if isCont b2
                    then ((b - 0xE0) * 4096 + (b1 - 0x80) * 64 + (b2 - 0x80)) # decodeBytes r2
                    else 0xFFFD # decodeBytes r1)
             else 0xFFFD # decodeBytes bs)
      else if 0xF0 \<le> b \<and> b \<le> 0xF4 then
        (case bs of
           [] \<Rightarrow> [0xFFFD]
         | b1 # r1 \<Rightarrow>
             if secondLow b \<le> b1 \<and> b1 \<le> secondHigh b then
               (case r1 of
                  [] \<Rightarrow> [0xFFFD]
                | b2 # r2 \<Rightarrow>
                    if isCont b2 then
                      (case r2 of
                         [] \<Rightarrow> [0xFFFD]
                       | b3 # r3 \<Rightarrow>
                           if isCont b3
                           then unitsOfPoint ((b - 0xF0) * 262144 + (b1 - 0x80) * 4096 +
                                              (b2 - 0x80) * 64 + (b3 - 0x80)) @ decodeBytes r3
                           else 0xFFFD # decodeBytes r2)
                    else 0xFFFD # decodeBytes r1)
             else 0xFFFD # decodeBytes bs)
      else 0xFFFD # decodeBytes bs)"

definition utf8Encode :: "jsString \<Rightarrow> buffer" where
  "utf8Encode s = map char_of (encodeUnits s)"

definition utf8Decode :: "buffer \<Rightarrow> jsString" where
  "utf8Decode bs = decodeBytes (map of_char bs)"

definition IV_LENGTH :: nat where
  "IV_LENGTH = 12"

definition AUTH_TAG_LENGTH :: nat where
  "AUTH_TAG_LENGTH = 16"

definition VERSION_PREFIX :: string where
  "VERSION_PREFIX = ''v1''"

text \<open>\<open>s.split(sep)\<close> for a one-character separator.\<close>

fun splitOn :: "char \<Rightarrow> string \<Rightarrow> string list" where
  "splitOn sep [] = [[]]"
| "splitOn sep (c # cs) =
     (if c = sep then [] # splitOn sep cs
      else case splitOn sep cs of
             [] \<Rightarrow> [[c]]
           | p # ps \<Rightarrow> (c # p) # ps)"

text \<open>\<open>TokenService.encrypt\<close>, with the key buffer of the instance and the bytes that
  \<open>crypto.randomBytes(IV_LENGTH)\<close> returned; \<open>None\<close> is \<open>null\<close>.\<close>

definition encrypt :: "cryptoLib \<Rightarrow> buffer \<Rightarrow> buffer \<Rightarrow> jsString option \<Rightarrow> string" where
  "encrypt lib key iv plaintext =
     (case plaintext of
        None \<Rightarrow> []
      | Some p \<Rightarrow>
          if p = [] then []
          else
            (case gcmEncrypt lib key iv (utf8Encode p) of
               (encrypted, authTag) \<Rightarrow>
                 VERSION_PREFIX @ '':'' @ base64Encode lib (iv @ authTag @ encrypted)))"

text \<open>\<open>TokenService.decrypt\<close>; \<open>Inl\<close> is the error thrown.\<close>

definition decrypt :: "cryptoLib \<Rightarrow> buffer \<Rightarrow> string option \<Rightarrow> jsError + jsString" where
  "decrypt lib key ciphertext =
     (case ciphertext of
        None \<Rightarrow> Inr []
      | Some c \<Rightarrow>
          if c = [] then Inr []
          else
            (case splitOn CHR '':'' c of
               [] \<Rightarrow> Inl (plainError ''Invalid token ciphertext format'')
             | [p0] \<Rightarrow> Inl (plainError ''Invalid token ciphertext format'')
             | p0 # p1 # _ \<Rightarrow>
                 if p0 \<noteq> VERSION_PREFIX \<or> p1 = []
                 then Inl (plainError ''Invalid token ciphertext format'')
                 else
                   let combined = base64Decode lib p1
                   in if length combined < IV_LENGTH + AUTH_TAG_LENGTH
                      then Inl (plainError ''Token ciphertext too short'')
                      else
                        let iv = take IV_LENGTH combined;
                            authTag = take AUTH_TAG_LENGTH (drop IV_LENGTH combined);
                            encrypted = drop (IV_LENGTH + AUTH_TAG_LENGTH) combined
                        in case gcmDecrypt lib key iv authTag encrypted of
                             None \<Rightarrow>
                               Inl (plainError ''Unsupported state or unable to authenticate data'')
                           | Some p \<Rightarrow> Inr (utf8Decode p)))"

text \<open>The token service as the connection service receives it among its dependencies.
  The connection service and the publish service are modelled over strings of 8-bit
  characters; a token of theirs is handed to \<open>encrypt\<close> as its code units, and the code
  units that \<open>decrypt\<close> returns are read as such characters.\<close>

record tokenService =
  ts_encrypt :: "string \<Rightarrow> string"
  ts_decrypt :: "string \<Rightarrow> jsError + string"

definition tokenServiceOf :: "cryptoLib \<Rightarrow> buffer \<Rightarrow> buffer \<Rightarrow> tokenService" where
  "tokenServiceOf lib key iv =
     \<lparr> ts_encrypt = (\<lambda>p. encrypt lib key iv (Some (map of_char p))),
       ts_decrypt = (\<lambda>c. case decrypt lib key (Some c) of
                             Inl e \<Rightarrow> Inl e
                           | Inr p \<Rightarrow> Inr (map char_of p)) \<rparr>"

section \<open>Accounts, providers and the token broker (modules/connections/connection.service)\<close>

datatype accountStatus = AccActive | AccExpired | AccRevoked | AccError

record socialAccount =
  acc_id :: nat
  acc_platform :: string
  acc_accessToken :: string
  acc_refreshToken :: "string option"
  acc_tokenExpiresAt :: "instant option"
  acc_pageId :: "string option"
  acc_status :: accountStatus
  acc_lastErrorAt :: "instant option"
  acc_lastErrorCode :: "string option"
  acc_lastErrorMessage :: "string option"
  acc_lastRefreshedAt :: "instant option"

record newTokens =
  nt_accessToken :: string
  nt_refreshToken :: "string option"
  nt_expiresAt :: "instant option"

record publishPayload =
  pl_text :: string
  pl_linkUrl :: "string option"

record publishOk =
  ok_platformPostId :: string
  ok_platformPostUrl :: "string option"
  ok_publishedAt :: "instant option"

text \<open>A platform adapter: \<open>publishPost(accessToken, payload, { accountId })\<close>, and
  \<open>refreshToken(refreshToken)\<close> when the adapter has one. What the platform answers is
  the function's value, \<open>Inl\<close> for an error thrown. The registry maps a platform name to
  its adapter.\<close>

record provider =
  prov_publishPost :: "string \<Rightarrow> publishPayload \<Rightarrow> string option \<Rightarrow> jsError + publishOk"
  prov_refreshToken :: "(string \<Rightarrow> jsError + newTokens) option"

type_synonym registry = "string \<Rightarrow> provider option"

datatype resultStatus = ResultPublished | ResultFailed

record publishResult =
  pr_postId :: nat
  pr_socialAccountId :: nat
  pr_organizationId :: nat
  pr_status :: resultStatus
  pr_platformPostId :: "string option"
  pr_platformPostUrl :: "string option"
  pr_publishedAt :: "instant option"
  pr_errorCode :: "string option"
  pr_errorMessage :: "string option"

text \<open>The calls that reach a platform adapter, in order.\<close>

datatype adapterCall =
  RefreshCall nat string
  | PublishCall nat string publishPayload

text \<open>The collections the publish flow reads and writes, and the log of adapter calls.\<close>

record pubDb =
  db_posts :: "post list"
  db_accounts :: "socialAccount list"
  db_results :: "publishResult list"
  db_calls :: "adapterCall list"

text \<open>\<open>updateOne\<close>: the first document that matches is updated.\<close>

fun updateFirst :: "('a \<Rightarrow> bool) \<Rightarrow> ('a \<Rightarrow> 'a) \<Rightarrow> 'a list \<Rightarrow> 'a list" where
  "updateFirst P f [] = []"
| "updateFirst P f (x # xs) = (if P x then f x # xs else x # updateFirst P f xs)"

definition updateAccount :: "nat \<Rightarrow> (socialAccount \<Rightarrow> socialAccount) \<Rightarrow> pubDb \<Rightarrow> pubDb" where
  "updateAccount aid f db =
     db\<lparr>db_accounts := updateFirst (\<lambda>a. acc_id a = aid) f (db_accounts db)\<rparr>"

definition updatePost :: "nat \<Rightarrow> (post \<Rightarrow> post) \<Rightarrow> pubDb \<Rightarrow> pubDb" where
  "updatePost pid f db = db\<lparr>db_posts := updateFirst (\<lambda>p. post_id p = pid) f (db_posts db)\<rparr>"

definition accountStatusName :: "accountStatus \<Rightarrow> string" where
  "accountStatusName s =
     (case s of AccActive \<Rightarrow> ''active'' | AccExpired \<Rightarrow> ''expired''
      | AccRevoked \<Rightarrow> ''revoked'' | AccError \<Rightarrow> ''error'')"

definition postStatusName :: "postStatus \<Rightarrow> string" where
  "postStatusName s =
     (case s of PostDraft \<Rightarrow> ''draft'' | PostScheduled \<Rightarrow> ''scheduled''
      | PostQueued \<Rightarrow> ''queued'' | PostPublishing \<Rightarrow> ''publishing''
      | PostPublished \<Rightarrow> ''published'' | PostFailed \<Rightarrow> ''failed'')"

text \<open>The test \<open>isInvalidGrant\<close> of the refresh failure.\<close>

definition isInvalidGrant :: "jsError \<Rightarrow> bool" where
  "isInvalidGrant err =
     (errName err = ''OAuthError'' \<and>
      (strIncludes (err_message err) ''invalid_grant'' \<or> strIncludes (err_message err) ''expired'' \<or>
       errCode err = Some ''refresh_failed''))"

text \<open>The three writes of \<open>getValidAccessToken\<close> to the account: after a refresh, after
  a refresh refused as an invalid grant, and when there is nothing to refresh with.\<close>

definition storeRefreshed :: "tokenService \<Rightarrow> instant \<Rightarrow> socialAccount \<Rightarrow> newTokens \<Rightarrow> pubDb \<Rightarrow> pubDb" where
  "storeRefreshed ts now account newTokens db =
     (let encryptedAccess = ts_encrypt ts (nt_accessToken newTokens);
          encryptedRefresh =
            (if truthy (nt_refreshToken newTokens)
             then Some (ts_encrypt ts (orDefault (nt_refreshToken newTokens) []))
             else acc_refreshToken account)
      in updateAccount (acc_id account)
           (\<lambda>a. a\<lparr>acc_accessToken := encryptedAccess,
                   acc_refreshToken := encryptedRefresh,
                   acc_tokenExpiresAt := nt_expiresAt newTokens,
                   acc_lastRefreshedAt := Some now,
                   acc_status := AccActive,
                   acc_lastErrorAt := None,
                   acc_lastErrorCode := None,
                   acc_lastErrorMessage := None\<rparr>)
           db)"

definition markRefreshRefused :: "instant \<Rightarrow> socialAccount \<Rightarrow> jsError \<Rightarrow> pubDb \<Rightarrow> pubDb" where
  "markRefreshRefused now account err db =
     updateAccount (acc_id account)
       (\<lambda>a. a\<lparr>acc_status := AccExpired,
               acc_lastErrorAt := Some now,
               acc_lastErrorCode := Some (orDefault (errCode err) ''refresh_failed''),
               acc_lastErrorMessage := Some (take 500 (err_message err))\<rparr>)
       db"

definition markNoRefreshToken :: "instant \<Rightarrow> socialAccount \<Rightarrow> pubDb \<Rightarrow> pubDb" where
  "markNoRefreshToken now account db =
     updateAccount (acc_id account)
       (\<lambda>a. a\<lparr>acc_status := AccExpired,
               acc_lastErrorAt := Some now,
               acc_lastErrorCode := Some ''NO_REFRESH_TOKEN''\<rparr>)
       db"

text \<open>The block of \<open>getValidAccessToken\<close> under \<open>if (needsRefresh && account.refreshToken)\<close>:
  without an adapter that can refresh, the stored token is returned as it is; otherwise
  the refresh credential is decrypted and the adapter called, inside \<open>try\<close>.\<close>

definition refreshAccessToken ::
  "registry \<Rightarrow> tokenService \<Rightarrow> instant \<Rightarrow> pubDb \<Rightarrow> socialAccount \<Rightarrow> string \<Rightarrow>
     pubDb \<times> (jsError + string)" where
  "refreshAccessToken reg ts now db account accessToken =
     (case reg (acc_platform account) of
        None \<Rightarrow> (db, Inr accessToken)
      | Some prov \<Rightarrow>
          (case prov_refreshToken prov of
             None \<Rightarrow> (db, Inr accessToken)
           | Some refreshToken \<Rightarrow>
               (case ts_decrypt ts (orDefault (acc_refreshToken account) []) of
                  Inl e \<Rightarrow> (db, Inl e)
                | Inr refreshTokenPlain \<Rightarrow>
                    (case refreshToken refreshTokenPlain of
                       Inr newTokens \<Rightarrow>
                         (storeRefreshed ts now account newTokens
                            (db\<lparr>db_calls := db_calls db @ [RefreshCall (acc_id account) refreshTokenPlain]\<rparr>),
                          Inr (nt_accessToken newTokens))
                     | Inl err \<Rightarrow>
                         (if isInvalidGrant err
                          then markRefreshRefused now account err
                                 (db\<lparr>db_calls := db_calls db @ [RefreshCall (acc_id account) refreshTokenPlain]\<rparr>)
                          else db\<lparr>db_calls := db_calls db @ [RefreshCall (acc_id account) refreshTokenPlain]\<rparr>,
                          Inl err)))))"

text \<open>\<open>getValidAccessToken\<close>, at the instant \<open>now\<close>: the store afterwards, and the access
  token returned or the error thrown.\<close>

definition getValidAccessToken ::
  "registry \<Rightarrow> tokenService \<Rightarrow> instant \<Rightarrow> pubDb \<Rightarrow> nat \<Rightarrow> pubDb \<times> (jsError + string)" where
  "getValidAccessToken reg ts now db aid =
     (case find (\<lambda>a. acc_id a = aid) (db_accounts db) of
        None \<Rightarrow> (db, Inl (codedError ''ACCOUNT_NOT_FOUND'' ''Social account not found''))
      | Some account \<Rightarrow>
          if acc_status account \<noteq> AccActive \<and> acc_status account \<noteq> AccExpired
          then (db, Inl (codedError ''ACCOUNT_NOT_ACTIVE''
                       (''Account status: '' @ accountStatusName (acc_status account))))
          else
            let bufferMinutes = 5;
                needsRefresh =
                  (case acc_tokenExpiresAt account of
                     None \<Rightarrow> False
                   | Some expiresAt \<Rightarrow> expiresAt - bufferMinutes * 60 * 1000 \<le> now)
            in case ts_decrypt ts (acc_accessToken account) of
                 Inl e \<Rightarrow> (db, Inl e)
               | Inr accessToken \<Rightarrow>
                   if needsRefresh \<and> truthy (acc_refreshToken account)
                   then refreshAccessToken reg ts now db account accessToken
                   else if needsRefresh \<and> \<not> truthy (acc_refreshToken account)
                   then (markNoRefreshToken now account db,
                         Inl (codedError ''TOKEN_EXPIRED'' ''Token expired and no refresh token''))
                   else (db, Inr accessToken))"

section \<open>The publish service and the publish job (modules/publishing, jobs/publish.job)\<close>

text \<open>\<open>buildPayload\<close>: the post's text and link, overridden by the account's variant
  where the variant has them. (The link title, the media and the visibility, which no
  variant overrides, are left out of the payload's model.)\<close>

definition buildPayload :: "post \<Rightarrow> nat \<Rightarrow> publishPayload" where
  "buildPayload p accountId =
     (let text0 = orDefault (post_text p) [];
          linkUrl0 = post_linkUrl p;
          v = find (\<lambda>v. var_socialAccountId v = accountId) (post_variants p)
      in case v of
           None \<Rightarrow> \<lparr> pl_text = text0, pl_linkUrl = linkUrl0 \<rparr>
         | Some vr \<Rightarrow>
             \<lparr> pl_text = (if truthy (var_text vr) then orDefault (var_text vr) [] else text0),
               pl_linkUrl = (if truthy (var_linkUrl vr) then var_linkUrl vr else linkUrl0) \<rparr>)"

text \<open>\<open>PublishResult.findOneAndUpdate({ postId, socialAccountId }, { $set }, { upsert: true })\<close>:
  the fields of \<open>$set\<close> are written into the first matching document, or into a new
  one.\<close>

definition upsertResult ::
  "nat \<Rightarrow> nat \<Rightarrow> (publishResult \<Rightarrow> publishResult) \<Rightarrow> pubDb \<Rightarrow> pubDb" where
  "upsertResult pid aid setFields db =
     (let matches = (\<lambda>r. pr_postId r = pid \<and> pr_socialAccountId r = aid)
      in if list_ex matches (db_results db)
         then db\<lparr>db_results := updateFirst matches setFields (db_results db)\<rparr>
         else db\<lparr>db_results := db_results db @
                [setFields \<lparr> pr_postId = pid, pr_socialAccountId = aid, pr_organizationId = 0,
                             pr_status = ResultFailed, pr_platformPostId = None,
                             pr_platformPostUrl = None, pr_publishedAt = None,
                             pr_errorCode = None, pr_errorMessage = None \<rparr>]\<rparr>)"

definition setFailed :: "post \<Rightarrow> string \<Rightarrow> string \<Rightarrow> publishResult \<Rightarrow> publishResult" where
  "setFailed p code message r =
     r\<lparr>pr_organizationId := post_organizationId p, pr_status := ResultFailed,
       pr_errorCode := Some code, pr_errorMessage := Some (take 1000 message)\<rparr>"

definition setPublished :: "post \<Rightarrow> publishOk \<Rightarrow> publishResult \<Rightarrow> publishResult" where
  "setPublished p result r =
     r\<lparr>pr_organizationId := post_organizationId p, pr_status := ResultPublished,
       pr_platformPostId := Some (ok_platformPostId result),
       pr_platformPostUrl := ok_platformPostUrl result,
       pr_publishedAt := ok_publishedAt result\<rparr>"

definition publishable :: "postStatus \<Rightarrow> bool" where
  "publishable s = (s = PostScheduled \<or> s = PostQueued \<or> s = PostPublishing)"

text \<open>The \<open>catch\<close> of \<open>publishPostToAccount\<close> around the token broker: an OAuth error
  or an expired token is recorded as a failed outcome; every error is thrown on.\<close>

definition tokenFailure :: "post \<Rightarrow> nat \<Rightarrow> pubDb \<Rightarrow> jsError \<Rightarrow> pubDb \<times> (jsError + publishOk)" where
  "tokenFailure p accountId db err =
     (if errName err = ''OAuthError'' \<or> errCode err = Some ''TOKEN_EXPIRED''
      then (upsertResult (post_id p) accountId
              (setFailed p (orDefault (errCode err) ''TOKEN_EXPIRED'') (err_message err)) db,
            Inl err)
      else (db, Inl err))"

text \<open>The second \<open>try\<close> of \<open>publishPostToAccount\<close>: the call of the adapter with the token
  and the payload, the outcome recorded on success, and the \<open>catch\<close>, which throws a rate
  limit and an OAuth error on without recording and records every other error.\<close>

definition publishWithToken ::
  "provider \<Rightarrow> post \<Rightarrow> socialAccount \<Rightarrow> nat \<Rightarrow> pubDb \<Rightarrow> string \<Rightarrow> pubDb \<times> (jsError + publishOk)" where
  "publishWithToken prov p account accountId db accessToken =
     (case prov_publishPost prov accessToken (buildPayload p accountId) (acc_pageId account) of
        Inr result \<Rightarrow>
          (upsertResult (post_id p) accountId (setPublished p result)
             (db\<lparr>db_calls := db_calls db @ [PublishCall accountId accessToken (buildPayload p accountId)]\<rparr>),
           Inr result)
      | Inl err \<Rightarrow>
          if isRateLimit err
          then (db\<lparr>db_calls := db_calls db @ [PublishCall accountId accessToken (buildPayload p accountId)]\<rparr>,
                Inl err)
          else if errName err = ''OAuthError''
          then (db\<lparr>db_calls := db_calls db @ [PublishCall accountId accessToken (buildPayload p accountId)]\<rparr>,
                Inl err)
          else (upsertResult (post_id p) accountId
                  (setFailed p (orDefault (errCode err) (errName err)) (err_message err))
                  (db\<lparr>db_calls := db_calls db @ [PublishCall accountId accessToken (buildPayload p accountId)]\<rparr>),
                Inl err))"

text \<open>\<open>publishPostToAccount\<close>: the store afterwards, and what the adapter returned or
  the error thrown.\<close>

definition publishPostToAccount ::
  "registry \<Rightarrow> tokenService \<Rightarrow> instant \<Rightarrow> pubDb \<Rightarrow> nat \<Rightarrow> nat \<Rightarrow> pubDb \<times> (jsError + publishOk)" where
  "publishPostToAccount reg ts now db postId accountId =
     (case find (\<lambda>p. post_id p = postId) (db_posts db) of
        None \<Rightarrow> (db, Inl (codedError ''POST_NOT_FOUND'' ''Post not found''))
      | Some p \<Rightarrow>
          if \<not> publishable (post_status p)
          then (db, Inl (codedError ''INVALID_POST_STATE''
                       (''Post not in publishable status: '' @ postStatusName (post_status p))))
          else
            (case find (\<lambda>a. acc_id a = accountId) (db_accounts db) of
               None \<Rightarrow> (db, Inl (codedError ''ACCOUNT_NOT_FOUND'' ''Social account not found''))
             | Some account \<Rightarrow>
                 if acc_status account \<noteq> AccActive \<and> acc_status account \<noteq> AccExpired
                 then (db, Inl (codedError ''ACCOUNT_NOT_ACTIVE''
                              (''Account not publishable: '' @ accountStatusName (acc_status account))))
                 else
                   (case reg (acc_platform account) of
                      None \<Rightarrow> (db, Inl (codedError ''UNKNOWN_PROVIDER''
                                   (''No provider for platform: '' @ acc_platform account)))
                    | Some prov \<Rightarrow>
                        (case getValidAccessToken reg ts now db accountId of
                           (db1, Inl err) \<Rightarrow> tokenFailure p accountId db1 err
                         | (db1, Inr accessToken) \<Rightarrow>
                             publishWithToken prov p account accountId db1 accessToken))))"

text \<open>The loop of \<open>publishPost\<close> over the accounts, with its variables \<open>anySuccess\<close> and
  \<open>lastError\<close>; the fourth component is \<open>rateLimitError\<close>, set when the loop breaks.
  (The array \<open>results\<close> is written and never read.)\<close>

fun publishLoop ::
  "registry \<Rightarrow> tokenService \<Rightarrow> instant \<Rightarrow> pubDb \<Rightarrow> nat \<Rightarrow> nat list \<Rightarrow> bool \<Rightarrow> jsError option \<Rightarrow>
     pubDb \<times> bool \<times> jsError option \<times> jsError option" where
  "publishLoop reg ts now db postId [] anySuccess lastError = (db, anySuccess, lastError, None)"
| "publishLoop reg ts now db postId (accountId # rest) anySuccess lastError =
     (case publishPostToAccount reg ts now db postId accountId of
        (db1, Inr r) \<Rightarrow> publishLoop reg ts now db1 postId rest True lastError
      | (db1, Inl err) \<Rightarrow>
          if isRateLimit err then (db1, anySuccess, lastError, Some err)
          else publishLoop reg ts now db1 postId rest anySuccess (Some err))"

text \<open>\<open>publishPost\<close>: the store afterwards, and the error thrown, if any. A key of \<open>$set\<close>
  whose value is \<open>undefined\<close> is not written.\<close>

definition publishPost ::
  "registry \<Rightarrow> tokenService \<Rightarrow> instant \<Rightarrow> pubDb \<Rightarrow> nat \<Rightarrow> pubDb \<times> jsError option" where
  "publishPost reg ts now db postId =
     (case find (\<lambda>p. post_id p = postId) (db_posts db) of
        None \<Rightarrow> (db, Some (codedError ''POST_NOT_FOUND'' ''Post not found''))
      | Some p \<Rightarrow>
          let accountIds = post_socialAccountIds p
          in if accountIds = []
             then (updatePost postId
                     (\<lambda>q. q\<lparr>post_status := PostFailed, post_failureCode := Some ''NO_ACCOUNTS'',
                             post_failureReason := Some ''No social accounts''\<rparr>)
                     db,
                   None)
             else
               (case publishLoop reg ts now
                       (updatePost postId (\<lambda>q. q\<lparr>post_status := PostPublishing\<rparr>) db)
                       postId accountIds False None of
                  (db1, anySuccess, lastError, Some rateLimitError) \<Rightarrow>
                    (updatePost postId (\<lambda>q. q\<lparr>post_status := PostScheduled\<rparr>) db1,
                     Some rateLimitError)
                | (db1, anySuccess, lastError, None) \<Rightarrow>
                    (if anySuccess
                     then updatePost postId
                            (\<lambda>q. q\<lparr>post_status := PostPublished, post_publishedAt := Some now\<rparr>) db1
                     else updatePost postId
                            (\<lambda>q. q\<lparr>post_status := PostFailed,
                                    post_failureReason :=
                                      Some (case lastError of
                                              None \<Rightarrow> ''Publish failed''
                                            | Some e \<Rightarrow> orDefault (Some (err_message e)) ''Publish failed''),
                                    post_failureCode :=
                                      Some (case lastError of
                                              None \<Rightarrow> ''PUBLISH_FAILED''
                                            | Some e \<Rightarrow> orDefault (errCode e) ''PUBLISH_FAILED'')\<rparr>)
                            db1,
                     None)))"

text \<open>What becomes of a job: it completes, it is moved to the delayed set until a
  timestamp (the processor throws \<open>DelayedError\<close>, which the queue does not count as a
  failed attempt), or it fails with the error rethrown.\<close>

datatype jobOutcome = JobCompleted | JobDelayed instant | JobFailed jsError

text \<open>\<open>(err.retryAfterSeconds || 60) * 1000\<close>.\<close>

definition delayMs :: "jsError \<Rightarrow> int" where
  "delayMs err =
     (case retryAfterSeconds err of None \<Rightarrow> 60 | Some s \<Rightarrow> if s = 0 then 60 else s) * 1000"

text \<open>\<open>processPublishJob\<close>, with \<open>job.data.postId\<close> and the value of \<open>Date.now()\<close> read in
  its handler of the rate limit.\<close>

definition processPublishJob ::
  "registry \<Rightarrow> tokenService \<Rightarrow> instant \<Rightarrow> instant \<Rightarrow> pubDb \<Rightarrow> nat option \<Rightarrow> pubDb \<times> jobOutcome" where
  "processPublishJob reg ts now dateNow db postId =
     (case postId of
        None \<Rightarrow> (db, JobFailed (plainError ''Job data missing postId''))
      | Some pid \<Rightarrow>
          (case publishPost reg ts now db pid of
             (db1, None) \<Rightarrow> (db1, JobCompleted)
           | (db1, Some err) \<Rightarrow>
               if isRateLimit err then (db1, JobDelayed (dateNow + delayMs err))
               else if errName err = ''OAuthError'' \<or> errCode err = Some ''TOKEN_EXPIRED''
               then (db1, JobCompleted)
               else (db1, JobFailed err)))"

section \<open>Predicates and data for the statements about the allocator\<close>

text \<open>A rule document that carries a \<open>skipNext\<close> flag. The AccountSchedule schema declares
  no such field; the flag lives in the record's extension, where the allocator's functions
  (defined over every extension of the schema) cannot see it.\<close>

record skipSchedule = accountSchedule +
  skipNext :: bool

text \<open>The two rejections inside the allocator's loop, for a candidate and the start of
  its day: the daily cap is reached, or the instant is taken.\<close>

definition slotRejected ::
  "'a schedDb \<Rightarrow> 'a accountSchedule_scheme \<Rightarrow> nat \<Rightarrow> instant \<Rightarrow> instant \<Rightarrow> bool" where
  "slotRejected st schedule a candidate dayStart =
     (int (countScheduledSlotsInRange st a dayStart (dayStart + 24 * 60 * 60 * 1000))
        \<ge> dailyCap schedule \<or> alreadyUsed st a candidate \<noteq> None)"

text \<open>A Queue Slot of the account at the instant whose status the allocator's queries
  count (scheduled, publishing, published).\<close>

definition activeSlotAt :: "'a schedDb \<Rightarrow> nat \<Rightarrow> instant \<Rightarrow> bool" where
  "activeSlotAt st a t =
     list_ex (\<lambda>q. qs_socialAccountId q = a \<and> qs_scheduledAt q = t \<and> slotCounts (qs_status q))
       (queueSlots st)"

text \<open>The specification's reading: a Queue Slot of the account at the instant in any
  status other than canceled.\<close>

definition nonCanceledSlotAt :: "'a schedDb \<Rightarrow> nat \<Rightarrow> instant \<Rightarrow> bool" where
  "nonCanceledSlotAt st a t =
     list_ex (\<lambda>q. qs_socialAccountId q = a \<and> qs_scheduledAt q = t \<and> qs_status q \<noteq> SlotCanceled)
       (queueSlots st)"

text \<open>The specification's reading of the bookings of a day: the Queue Slots of the
  account in a range of instants in any status other than canceled.\<close>

definition nonCanceledInRange :: "'a schedDb \<Rightarrow> nat \<Rightarrow> instant \<Rightarrow> instant \<Rightarrow> nat" where
  "nonCanceledInRange st a lo hi =
     length (filter (\<lambda>q. qs_socialAccountId q = a \<and> lo \<le> qs_scheduledAt q \<and>
                         qs_scheduledAt q < hi \<and> qs_status q \<noteq> SlotCanceled)
               (queueSlots st))"

text \<open>The local calendar day of an instant in a zone: the Gregorian date (year, month
  1..12 and day of the month) of the wall clock of the zone at that instant.\<close>

definition localDate :: "tzdb \<Rightarrow> string \<Rightarrow> instant \<Rightarrow> int \<times> int \<times> int" where
  "localDate db tz t = civilFromDays ((t + 1000 * offsetAt db tz t) div msPerDay)"

text \<open>The Queue Slots of the account on the local calendar day of an instant \<open>c\<close>: those
  in a status the allocator counts, and those in any status other than canceled.\<close>

definition countedOnLocalDay :: "tzdb \<Rightarrow> 'a schedDb \<Rightarrow> nat \<Rightarrow> string \<Rightarrow> instant \<Rightarrow> nat" where
  "countedOnLocalDay db st a tz c =
     length (filter (\<lambda>q. qs_socialAccountId q = a \<and> slotCounts (qs_status q) \<and>
                         localDate db tz (qs_scheduledAt q) = localDate db tz c)
               (queueSlots st))"

definition nonCanceledOnLocalDay :: "tzdb \<Rightarrow> 'a schedDb \<Rightarrow> nat \<Rightarrow> string \<Rightarrow> instant \<Rightarrow> nat" where
  "nonCanceledOnLocalDay db st a tz c =
     length (filter (\<lambda>q. qs_socialAccountId q = a \<and> qs_status q \<noteq> SlotCanceled \<and>
                         localDate db tz (qs_scheduledAt q) = localDate db tz c)
               (queueSlots st))"

text \<open>The local calendar day of \<open>c\<close> is the 24 hours from \<open>dayStart\<close>, as far as the Queue
  Slots of the account go: each of them is on that day exactly when it is in that window.
  So it is on a day on which the offset of the zone does not change; on a day of 23 or 25
  hours the window and the day differ.\<close>

definition dayIsWindow ::
  "tzdb \<Rightarrow> 'a schedDb \<Rightarrow> nat \<Rightarrow> string \<Rightarrow> instant \<Rightarrow> instant \<Rightarrow> bool" where
  "dayIsWindow db st a tz c dayStart =
     list_all (\<lambda>q. qs_socialAccountId q = a \<longrightarrow>
                 (localDate db tz (qs_scheduledAt q) = localDate db tz c)
                   = (dayStart \<le> qs_scheduledAt q \<and> qs_scheduledAt q < dayStart + msPerDay))
       (queueSlots st)"

text \<open>Example data. Account 7 posts at 09:00 UTC on Mondays, Wednesdays and Fridays.
  2024-03-04 was a Monday: 1709510400000 is its midnight, 1709539200000 is 08:00,
  1709542800000 is 09:00 and 1709564400000 is 15:00; 1709715600000 is Wednesday
  2024-03-06 09:00.\<close>

definition mwf9 :: "int option \<Rightarrow> accountSchedule" where
  "mwf9 cap = \<lparr> organizationId = 1, socialAccountId = 7, name = ''Default Queue'', enabled = True,
     timeSlots = [\<lparr> hour = 9, minute = 0 \<rparr>], daysOfWeek = [1, 3, 5],
     maxPostsPerDay = cap, timezone = ''UTC'' \<rparr>"

definition slotAt :: "nat \<Rightarrow> instant \<Rightarrow> slotStatus \<Rightarrow> queueSlot" where
  "slotAt i t s = \<lparr> qs_id = i, qs_organizationId = 1, qs_socialAccountId = 7,
     qs_scheduledAt = t, qs_postId = Some 3, qs_status = s \<rparr>"

definition storeWith :: "int option \<Rightarrow> queueSlot list \<Rightarrow> unit schedDb" where
  "storeWith cap qs = \<lparr> schedules = [mwf9 cap], queueSlots = qs, posts = [] \<rparr>"

definition skipStore :: "\<lparr>skipNext :: bool\<rparr> schedDb" where
  "skipStore = \<lparr> schedules = [accountSchedule.extend (mwf9 (Some 1)) \<lparr> skipNext = True \<rparr>],
     queueSlots = [], posts = [] \<rparr>"

text \<open>A rule in New York: 03:30 on Sundays. 1709985600000 is Saturday 2024-03-09
  12:00Z; daylight saving time began on Sunday 2024-03-10 at 07:00Z, so 03:30 New York
  time on that Sunday is 07:30Z, 1710055800000.\<close>

definition sunday0330 :: accountSchedule where
  "sunday0330 = \<lparr> organizationId = 1, socialAccountId = 8, name = ''Default Queue'',
     enabled = True, timeSlots = [\<lparr> hour = 3, minute = 30 \<rparr>], daysOfWeek = [0],
     maxPostsPerDay = Some 5, timezone = ''America/New_York'' \<rparr>"

text \<open>Account 9 posts at 23:15 and 23:30 New York time on Sundays. On Sunday 2024-10-27
  New York is at UTC-4: the day runs from 1730001600000 (04:00Z), 1730030400000 is 12:00Z,
  and 23:15 and 23:30 are 1730085300000 and 1730086200000. Sunday 2024-11-03 has 25 hours
  in New York (UTC-4 until 06:00Z, then UTC-5): it starts at 1730606400000 (04:00Z),
  1730635200000 is 12:00Z, and 23:15 and 23:30 are 1730693700000 and 1730694600000
  (04:15Z and 04:30Z on Monday).\<close>

definition sundayNight :: "int option \<Rightarrow> accountSchedule" where
  "sundayNight cap = \<lparr> organizationId = 1, socialAccountId = 9, name = ''Default Queue'',
     enabled = True, timeSlots = [\<lparr> hour = 23, minute = 15 \<rparr>, \<lparr> hour = 23, minute = 30 \<rparr>],
     daysOfWeek = [0], maxPostsPerDay = cap, timezone = ''America/New_York'' \<rparr>"

definition nightSlot :: "nat \<Rightarrow> instant \<Rightarrow> queueSlot" where
  "nightSlot i t = \<lparr> qs_id = i, qs_organizationId = 1, qs_socialAccountId = 9,
     qs_scheduledAt = t, qs_postId = Some 3, qs_status = SlotScheduled \<rparr>"

definition nightStore :: "int option \<Rightarrow> queueSlot list \<Rightarrow> unit schedDb" where
  "nightStore cap qs = \<lparr> schedules = [sundayNight cap], queueSlots = qs, posts = [] \<rparr>"


section \<open>Predicates and data for the statements about publishing\<close>

text \<open>What the attempts of one pass over the accounts return, in account order: each attempt
  is made in the store that the attempt before it left, as in \<open>publishLoop\<close>.\<close>

fun passOutcomes ::
  "registry \<Rightarrow> tokenService \<Rightarrow> instant \<Rightarrow> pubDb \<Rightarrow> nat \<Rightarrow> nat list \<Rightarrow> (jsError + publishOk) list" where
  "passOutcomes reg ts now db postId [] = []"
| "passOutcomes reg ts now db postId (accountId # rest) =
     (case publishPostToAccount reg ts now db postId accountId of
        (db1, r) \<Rightarrow> r # passOutcomes reg ts now db1 postId rest)"

text \<open>The errors among these outcomes, in account order, and whether an attempt succeeded.\<close>

fun failuresOf :: "(jsError + publishOk) list \<Rightarrow> jsError list" where
  "failuresOf [] = []"
| "failuresOf (Inl e # rs) = e # failuresOf rs"
| "failuresOf (Inr ok # rs) = failuresOf rs"

definition anySucceeded :: "(jsError + publishOk) list \<Rightarrow> bool" where
  "anySucceeded outs = list_ex (\<lambda>r. \<not> isl r) outs"

text \<open>The store once \<open>publishPost\<close> has written the status \<open>publishing\<close>, before its loop.\<close>

definition inProgress :: "nat \<Rightarrow> pubDb \<Rightarrow> pubDb" where
  "inProgress postId db = updatePost postId (\<lambda>q. q\<lparr>post_status := PostPublishing\<rparr>) db"

text \<open>Two stores that differ at most in the recorded publish results.\<close>

definition sameApartFromResults :: "pubDb \<Rightarrow> pubDb \<Rightarrow> bool" where
  "sameApartFromResults x y =
     (db_posts x = db_posts y \<and> db_accounts x = db_accounts y \<and> db_calls x = db_calls y)"

text \<open>Strings without an unpaired surrogate: every lead surrogate is followed by a trail
  surrogate, and no trail surrogate stands elsewhere.\<close>

fun wellFormed :: "jsString \<Rightarrow> bool" where
  "wellFormed [] = True"
| "wellFormed (u # us) =
     (if isLead u then (case us of [] \<Rightarrow> False | l # rest \<Rightarrow> isTrail l \<and> wellFormed rest)
      else \<not> isTrail u \<and> u < 0x10000 \<and> wellFormed us)"

text \<open>A stand-in for the cryptographic library, to run the token service on concrete
  inputs: the cipher reverses the bytes and attaches a constant tag of sixteen bytes, which
  decryption checks; the text encoding of the combined buffer writes two hexadecimal digits
  per byte (an alphabet without the colon, as that of Base64).\<close>

definition hexDigits :: string where
  "hexDigits = ''0123456789abcdef''"

definition hexEncode :: "buffer \<Rightarrow> string" where
  "hexEncode bs =
     concat (map (\<lambda>c. [hexDigits ! ((of_char c :: nat) div 16), hexDigits ! ((of_char c :: nat) mod 16)]) bs)"

definition hexValue :: "char \<Rightarrow> nat" where
  "hexValue c = length (takeWhile (\<lambda>d. d \<noteq> c) hexDigits)"

fun hexDecode :: "string \<Rightarrow> buffer" where
  "hexDecode (a # b # rest) = char_of (16 * hexValue a + hexValue b) # hexDecode rest"
| "hexDecode [a] = []"
| "hexDecode [] = []"

definition toyLib :: cryptoLib where
  "toyLib =
     \<lparr> gcmEncrypt = (\<lambda>key iv p. (rev p, ''################'')),
       gcmDecrypt = (\<lambda>key iv authTag c. if authTag = ''################'' then Some (rev c) else None),
       base64Encode = hexEncode,
       base64Decode = hexDecode \<rparr>"

definition exampleKey :: buffer where
  "exampleKey = ''kkkkkkkkkkkkkkkkkkkkkkkkkkkkkkkk''"

definition exampleIv :: buffer where
  "exampleIv = ''iiiiiiiiiiii''"

text \<open>A token service over this library, with a key of 32 bytes and a fixed value for the
  random bytes.\<close>

definition vault :: tokenService where
  "vault = tokenServiceOf toyLib exampleKey exampleIv"

text \<open>A provider that publishes, except with the access token \<open>tokB\<close>, for which it answers
  with a rate limit of 30 seconds; it has no \<open>refreshToken\<close> operation.\<close>

definition rateLimited30 :: jsError where
  "rateLimited30 =
     \<lparr> err_class = ProviderRateLimitError, err_message = ''Rate limited'', err_optCode = None,
       err_optRetryable = None, err_optRetryAfter = Some 30 \<rparr>"

definition posted :: publishOk where
  "posted = \<lparr> ok_platformPostId = ''urn:li:share:1'', ok_platformPostUrl = None,
              ok_publishedAt = None \<rparr>"

definition linkedinStub :: provider where
  "linkedinStub =
     \<lparr> prov_publishPost = (\<lambda>accessToken payload page.
          if accessToken = ''tokB'' then Inl rateLimited30 else Inr posted),
       prov_refreshToken = None \<rparr>"

definition exampleRegistry :: registry where
  "exampleRegistry platform = (if platform = ''linkedin'' then Some linkedinStub else None)"

text \<open>The strings \<open>tokA\<close> and \<open>tokB\<close> as code units, and the string of one code unit that
  is an unpaired lead surrogate.\<close>

definition tokA :: jsString where
  "tokA = [0x74, 0x6F, 0x6B, 0x41]"

definition tokB :: jsString where
  "tokB = [0x74, 0x6F, 0x6B, 0x42]"

definition loneSurrogate :: jsString where
  "loneSurrogate = [0xD800]"

text \<open>Accounts and posts of the examples. \<open>sealedA\<close> and \<open>sealedB\<close> are what the token service
  above returns for the access tokens \<open>tokA\<close> and \<open>tokB\<close>.\<close>

definition accountWith :: "nat \<Rightarrow> string \<Rightarrow> instant option \<Rightarrow> accountStatus \<Rightarrow> socialAccount" where
  "accountWith i token expiry status =
     \<lparr> acc_id = i, acc_platform = ''linkedin'', acc_accessToken = token,
       acc_refreshToken = None, acc_tokenExpiresAt = expiry, acc_pageId = None,
       acc_status = status, acc_lastErrorAt = None, acc_lastErrorCode = None,
       acc_lastErrorMessage = None, acc_lastRefreshedAt = None \<rparr>"

definition postTo :: "nat list \<Rightarrow> post" where
  "postTo accountIds =
     \<lparr> post_id = 1, post_organizationId = 1, post_status = PostScheduled,
       post_text = Some ''hello'', post_linkUrl = None, post_variants = [],
       post_socialAccountIds = accountIds, post_scheduledAt = Some 1709542800000,
       post_publishedAt = None, post_failureReason = None, post_failureCode = None \<rparr>"

definition sealedA :: string where
  "sealedA = ''v1:69696969696969696969696923232323232323232323232323232323416b6f74''"

definition sealedB :: string where
  "sealedB = ''v1:69696969696969696969696923232323232323232323232323232323426b6f74''"

text \<open>A post to the accounts 1 and 2, both active, the second one rate-limited by its
  platform.\<close>

definition twoAccountsDb :: pubDb where
  "twoAccountsDb =
     \<lparr> db_posts = [postTo [1, 2]],
       db_accounts = [accountWith 1 sealedA None AccActive, accountWith 2 sealedB None AccActive],
       db_results = [], db_calls = [] \<rparr>"

text \<open>A post to the accounts 3 and 4: the first one is revoked, the second one does not
  exist.\<close>

definition failingDb :: pubDb where
  "failingDb =
     \<lparr> db_posts = [postTo [3, 4]],
       db_accounts = [accountWith 3 sealedA None AccRevoked],
       db_results = [], db_calls = [] \<rparr>"

text \<open>An active account whose token expired at the epoch, with no refresh token and the
  given stored access token.\<close>

definition expiredDb :: "string \<Rightarrow> pubDb" where
  "expiredDb token =
     \<lparr> db_posts = [], db_accounts = [accountWith 5 token (Some 0) AccActive],
       db_results = [], db_calls = [] \<rparr>"

section \<open>Evaluation of the model on concrete inputs\<close>

text \<open>The simplifier evaluates a \<open>let\<close> by value: the bound term first, the body once
  the bound term is a constructor or a numeral.\<close>

lemma Let_Pair: "Let (a, b) f = f (a, b)" by simp
lemma Let_Nil: "Let [] f = f []" by simp
lemma Let_Cons: "Let (x # xs) f = f (x # xs)" by simp
lemma Let_None: "Let None f = f None" by simp
lemma Let_Some: "Let (Some x) f = f (Some x)" by simp
lemma Let_localParts: "Let \<lparr>lp_year = a, lp_month = b, lp_date = c, lp_dayOfWeek = d, lp_hour = e, lp_minute = g\<rparr> f
   = f \<lparr>lp_year = a, lp_month = b, lp_date = c, lp_dayOfWeek = d, lp_hour = e, lp_minute = g\<rparr>" by simp
lemma Let_queueSlot: "Let \<lparr>qs_id = a, qs_organizationId = b, qs_socialAccountId = c, qs_scheduledAt = d, qs_postId = e, qs_status = g\<rparr> f
   = f \<lparr>qs_id = a, qs_organizationId = b, qs_socialAccountId = c, qs_scheduledAt = d, qs_postId = e, qs_status = g\<rparr>" by simp
lemmas let_value = Let_Pair Let_Nil Let_Cons Let_None Let_Some Let_localParts Let_queueSlot
lemmas calendar_defs = makeDate_def getFullYear_def getMonth_def getDate_def daysFromCivil_def
  civilFromDays_def offsetAt_def msPerDay_def
lemmas recurrence_defs = slotCandidate_def localToUtc_def parseIsoUtc_def getLocalParts_def
  slotCandidates_def getNextSlotTimes_def getNextSlotTime_def zoneOf_def slice0_def
lemmas allocator_defs = slotCounts_def postCounts_def slotCountInRange_def postCountInRange_def
  countScheduledSlotsInRange_def getDayStartInUtc_def dailyCap_def alreadyUsed_def maxAttempts_def
  slotLoop.simps findSchedule_def getNextAvailableSlot_def freshSlotId_def reserveNext_def
  MINUTES_BUFFER_def
lemmas example_defs = mwf9_def slotAt_def storeWith_def skipStore_def sunday0330_def tzdb2024_def
  accountSchedule.extend_def nonCanceledInRange_def nonCanceledSlotAt_def activeSlotAt_def
  localDate_def countedOnLocalDay_def nonCanceledOnLocalDay_def dayIsWindow_def
  sundayNight_def nightSlot_def nightStore_def
lemmas ev = calendar_defs recurrence_defs allocator_defs example_defs let_value
lemma Let_True: "Let True f = f True" by simp
lemma Let_False: "Let False f = f False" by simp
lemma Let_fun: "Let (h :: 'a \<Rightarrow> 'b) f = f h" by simp
lemmas utf8_defs = REPLACEMENT_def isLead_def isTrail_def encodePoint_def isCont_def
  secondLow_def secondHigh_def unitsOfPoint_def utf8Encode_def utf8Decode_def
lemmas token_defs = encrypt_def decrypt_def tokenServiceOf_def IV_LENGTH_def AUTH_TAG_LENGTH_def
  VERSION_PREFIX_def plainError_def codedError_def hexDigits_def hexEncode_def hexValue_def
  toyLib_def exampleKey_def exampleIv_def vault_def char_of_def bit_Suc_0_iff utf8_defs
  tokA_def tokB_def loneSurrogate_def
lemmas error_defs = truthy_def orDefault_def errName_def errCode_def errRetryable_def
  retryAfterSeconds_def isRateLimit_def isInvalidGrant_def accountStatusName_def postStatusName_def
lemmas publish_defs = updateAccount_def updatePost_def storeRefreshed_def markRefreshRefused_def
  markNoRefreshToken_def refreshAccessToken_def getValidAccessToken_def buildPayload_def
  upsertResult_def setFailed_def setPublished_def publishable_def tokenFailure_def
  publishWithToken_def publishPostToAccount_def publishPost_def delayMs_def processPublishJob_def
  anySucceeded_def inProgress_def
lemmas publish_examples = rateLimited30_def posted_def linkedinStub_def exampleRegistry_def
  accountWith_def postTo_def sealedA_def sealedB_def twoAccountsDb_def failingDb_def expiredDb_def
lemmas pv = token_defs error_defs publish_defs publish_examples let_value Let_True Let_False Let_fun


section \<open>The recurrence rule evaluator\<close>

text \<open>What \<open>getNextSlotTimes\<close> returns is never before \<open>fromUtc\<close>, strictly increasing
  (so free of duplicates) and at most \<open>count\<close> long, whatever the zone database says.\<close>

lemma collectOut_set: "set (collectOut count out cs) \<subseteq> set out \<union> set cs"
  by (induction count out cs rule: collectOut.induct) auto

lemma collectOut_strict:
  "sorted_wrt (<) out \<Longrightarrow> sorted cs \<Longrightarrow> (\<forall>x\<in>set out. \<forall>y\<in>set cs. x \<le> y) \<Longrightarrow>
   sorted_wrt (<) (collectOut count out cs)"
proof (induction count out cs rule: collectOut.induct)
  case (1 count out)
  then show ?case by simp
next
  case (2 count out c cs)
  show ?case
  proof (cases "int (length out) \<ge> count")
    case True
    then show ?thesis using 2 by simp
  next
    case False
    show ?thesis
    proof (cases "c \<in> set out")
      case True
      then show ?thesis using "2.IH"(1) "2.prems" False by simp
    next
      case notin: False
      have lt: "\<forall>x\<in>set out. x < c"
        using "2.prems"(3) notin by (metis list.set_intros(1) order_le_less)
      have s1: "sorted_wrt (<) (out @ [c])"
        using "2.prems"(1) lt by (simp add: sorted_wrt_append)
      have s2: "\<forall>x\<in>set (out @ [c]). \<forall>y\<in>set cs. x \<le> y"
        using "2.prems"(2,3) by auto
      have s3: "sorted cs" using "2.prems"(2) by simp
      have "\<not> count \<le> int (length out)" using False by simp
      from "2.IH"(2)[OF this notin s1 s3 s2] show ?thesis using False notin by simp
    qed
  qed
qed

lemma collectOut_length:
  "int (length out) \<le> max count 0 \<Longrightarrow> int (length (collectOut count out cs)) \<le> max count 0"
  by (induction count out cs rule: collectOut.induct) auto

lemma slotCandidate_ge: "t \<in> set (slotCandidate db sp tz fromUtc week dow slot) \<Longrightarrow> fromUtc \<le> t"
  by (auto simp: slotCandidate_def Let_def split: option.splits if_splits)

lemma slice0_set: "set (slice0 xs c) \<subseteq> set xs"
  by (auto simp: slice0_def dest: in_set_takeD)

lemma slice0_sorted: "sorted_wrt P xs \<Longrightarrow> sorted_wrt P (slice0 xs c)"
  by (simp add: slice0_def sorted_wrt_take)

lemma slice0_length: "length (slice0 xs c) \<le> length xs"
  by (auto simp: slice0_def)

lemma slotCandidates_ge: "t \<in> set (slotCandidates db schedule fromUtc) \<Longrightarrow> fromUtc \<le> t"
  by (auto simp: slotCandidates_def Let_def dest: slotCandidate_ge)

lemma getNextSlotTimes_ge:
  "t \<in> set (getNextSlotTimes db schedule fromUtc count) \<Longrightarrow> fromUtc \<le> t"
proof -
  assume a: "t \<in> set (getNextSlotTimes db schedule fromUtc count)"
  then have "t \<in> set (slice0 (collectOut count [] (sort (slotCandidates db schedule fromUtc))) count)"
    by (simp add: getNextSlotTimes_def split: if_splits)
  then have "t \<in> set (collectOut count [] (sort (slotCandidates db schedule fromUtc)))"
    by (rule subsetD[OF slice0_set])
  then have "t \<in> set [] \<union> set (sort (slotCandidates db schedule fromUtc))"
    by (rule subsetD[OF collectOut_set])
  then have "t \<in> set (slotCandidates db schedule fromUtc)"
    by simp
  then show ?thesis by (rule slotCandidates_ge)
qed

lemma getNextSlotTimes_increasing:
  "sorted_wrt (<) (getNextSlotTimes db schedule fromUtc count)"
  by (simp add: getNextSlotTimes_def slice0_sorted collectOut_strict)

lemma getNextSlotTimes_length:
  "int (length (getNextSlotTimes db schedule fromUtc count)) \<le> max count 0"
proof -
  have "int (length (collectOut count [] cs)) \<le> max count 0" for cs
    by (rule collectOut_length) simp
  moreover have "length (slice0 (collectOut count [] cs) count)
      \<le> length (collectOut count [] cs)" for cs
    by (rule slice0_length)
  ultimately have "int (length (slice0 (collectOut count [] cs) count)) \<le> max count 0" for cs
    by (meson of_nat_le_iff order_trans)
  then show ?thesis by (simp add: getNextSlotTimes_def)
qed

lemma getNextSlotTime_ge: "getNextSlotTime db schedule fromUtc = Some c \<Longrightarrow> fromUtc \<le> c"
proof -
  assume a: "getNextSlotTime db schedule fromUtc = Some c"
  then obtain rest where "getNextSlotTimes db schedule fromUtc 1 = c # rest"
    unfolding getNextSlotTime_def by (cases "getNextSlotTimes db schedule fromUtc 1") simp_all
  then have "c \<in> set (getNextSlotTimes db schedule fromUtc 1)" by simp
  then show ?thesis by (rule getNextSlotTimes_ge)
qed

text \<open>
  Claim C5. The evaluator returns instants not before \<open>fromUtc\<close>, strictly increasing,
  at most \<open>count\<close> of them, and each one's wall-clock time in the rule's zone is a
  configured (hour, minute) on an active weekday. The order, the bound and the length
  hold (the three lemmas above). The wall-clock part fails next to a change of offset:
  for the rule "03:30 on Sundays, New York", asked on Saturday 2024-03-09 12:00Z,
  \<open>localToUtc\<close> applies the offset in force at 03:30Z (UTC-5) instead of the offset in
  force at 03:30 New York time (UTC-4, from 07:00Z that day). The instant returned is
  08:30Z, which is 04:30 in New York, although 07:30Z is not before \<open>fromUtc\<close> and is
  03:30 on that Sunday (day 0) in New York.
\<close>

theorem getNextSlotTimes_wrong_wall_clock_after_dst_change:
  "getNextSlotTimes tzdb2024 sunday0330 1709985600000 1 = [1710059400000] \<and>
   timeSlots sunday0330 = [\<lparr> hour = 3, minute = 30 \<rparr>] \<and>
   lp_hour (getLocalParts tzdb2024 1710059400000 ''America/New_York'') = 4 \<and>
   lp_minute (getLocalParts tzdb2024 1710059400000 ''America/New_York'') = 30 \<and>
   getLocalParts tzdb2024 1710055800000 ''America/New_York'' =
     \<lparr> lp_year = 2024, lp_month = 2, lp_date = 10, lp_dayOfWeek = 0,
       lp_hour = 3, lp_minute = 30 \<rparr>"
  supply TrueI [simproc del: let_simp]
  by (simp add: ev cong: let_weak_cong)

section \<open>The slot allocator\<close>

lemma slotLoop_exhausted:
  "\<not> attempts < maxAttempts \<Longrightarrow> slotLoop db st schedule a tz frm attempts = (Inr None, attempts)"
  by (subst slotLoop.simps) simp

lemma slotLoop_no_candidate:
  "attempts < maxAttempts \<Longrightarrow> getNextSlotTime db schedule frm = None \<Longrightarrow>
   slotLoop db st schedule a tz frm attempts = (Inr None, attempts)"
  by (subst slotLoop.simps) simp

lemma slotLoop_invalid_day:
  "attempts < maxAttempts \<Longrightarrow> getNextSlotTime db schedule frm = Some c \<Longrightarrow>
   getDayStartInUtc db c tz = None \<Longrightarrow>
   slotLoop db st schedule a tz frm attempts = (Inl CastError, attempts)"
  by (subst slotLoop.simps) simp

lemma slotLoop_skip:
  "attempts < maxAttempts \<Longrightarrow> getNextSlotTime db schedule frm = Some c \<Longrightarrow>
   getDayStartInUtc db c tz = Some dayStart \<Longrightarrow> slotRejected st schedule a c dayStart \<Longrightarrow>
   slotLoop db st schedule a tz frm attempts =
     slotLoop db st schedule a tz (c + 60 * 1000) (Suc attempts)"
  by (subst slotLoop.simps) (auto simp: slotRejected_def Let_def)

lemma slotLoop_accept:
  "attempts < maxAttempts \<Longrightarrow> getNextSlotTime db schedule frm = Some c \<Longrightarrow>
   getDayStartInUtc db c tz = Some dayStart \<Longrightarrow> \<not> slotRejected st schedule a c dayStart \<Longrightarrow>
   slotLoop db st schedule a tz frm attempts = (Inr (Some c), attempts)"
  by (subst slotLoop.simps) (auto simp: slotRejected_def Let_def)

lemma slotLoop_cases:
  assumes "\<not> attempts < maxAttempts \<Longrightarrow> R"
    and "attempts < maxAttempts \<Longrightarrow> getNextSlotTime db schedule frm = None \<Longrightarrow> R"
    and "\<And>c. attempts < maxAttempts \<Longrightarrow> getNextSlotTime db schedule frm = Some c \<Longrightarrow>
           getDayStartInUtc db c tz = None \<Longrightarrow> R"
    and "\<And>c dayStart. attempts < maxAttempts \<Longrightarrow> getNextSlotTime db schedule frm = Some c \<Longrightarrow>
           getDayStartInUtc db c tz = Some dayStart \<Longrightarrow> slotRejected st schedule a c dayStart \<Longrightarrow> R"
    and "\<And>c dayStart. attempts < maxAttempts \<Longrightarrow> getNextSlotTime db schedule frm = Some c \<Longrightarrow>
           getDayStartInUtc db c tz = Some dayStart \<Longrightarrow> \<not> slotRejected st schedule a c dayStart \<Longrightarrow> R"
  shows R
proof (cases "attempts < maxAttempts")
  case False
  then show ?thesis by (rule assms(1))
next
  case lt: True
  show ?thesis
  proof (cases "getNextSlotTime db schedule frm")
    case None
    with lt show ?thesis by (rule assms(2))
  next
    case (Some c)
    show ?thesis
    proof (cases "getDayStartInUtc db c tz")
      case None
      with lt Some show ?thesis by (rule assms(3))
    next
      case ds: (Some dayStart)
      show ?thesis
      proof (cases "slotRejected st schedule a c dayStart")
        case True
        with lt Some ds show ?thesis by (rule assms(4))
      next
        case False
        with lt Some ds show ?thesis by (rule assms(5))
      qed
    qed
  qed
qed

lemma slotLoop_Some:
  "slotLoop db st schedule a tz frm n = (Inr (Some c), k) \<Longrightarrow>
     \<exists>dayStart. getDayStartInUtc db c tz = Some dayStart \<and> \<not> slotRejected st schedule a c dayStart"
proof (induction "maxAttempts - n" arbitrary: frm n)
  case 0
  then have "\<not> n < maxAttempts" by simp
  from slotLoop_exhausted[OF this, of db st schedule a tz frm] "0.prems" show ?case by simp
next
  case (Suc m)
  show ?case
  proof (rule slotLoop_cases[where attempts=n and db=db and schedule=schedule and frm=frm and tz=tz and st=st and a=a])
    assume "\<not> n < maxAttempts"
    from slotLoop_exhausted[OF this, of db st schedule a tz frm] Suc.prems show ?thesis by simp
  next
    assume "n < maxAttempts" "getNextSlotTime db schedule frm = None"
    from slotLoop_no_candidate[OF this, of st a tz] Suc.prems show ?thesis by simp
  next
    fix c'
    assume "n < maxAttempts" "getNextSlotTime db schedule frm = Some c'"
      "getDayStartInUtc db c' tz = None"
    from slotLoop_invalid_day[OF this, of st a] Suc.prems show ?thesis by simp
  next
    fix c' dayStart
    assume h: "n < maxAttempts" "getNextSlotTime db schedule frm = Some c'"
      "getDayStartInUtc db c' tz = Some dayStart" "slotRejected st schedule a c' dayStart"
    have m: "m = maxAttempts - Suc n" using Suc.hyps(2) by simp
    from slotLoop_skip[OF h] Suc.prems
    have "slotLoop db st schedule a tz (c' + 60 * 1000) (Suc n) = (Inr (Some c), k)" by simp
    from Suc.hyps(1)[OF m this] show ?thesis .
  next
    fix c' dayStart
    assume h: "n < maxAttempts" "getNextSlotTime db schedule frm = Some c'"
      "getDayStartInUtc db c' tz = Some dayStart" "\<not> slotRejected st schedule a c' dayStart"
    from slotLoop_accept[OF h] Suc.prems have "c' = c" by simp
    with h show ?thesis by blast
  qed
qed

lemma slotLoop_attempts:
  "n \<le> maxAttempts \<Longrightarrow>
     n \<le> snd (slotLoop db st schedule a tz frm n) \<and>
     snd (slotLoop db st schedule a tz frm n) \<le> maxAttempts \<and>
     (snd (slotLoop db st schedule a tz frm n) = maxAttempts \<longrightarrow>
        fst (slotLoop db st schedule a tz frm n) = Inr None)"
proof (induction "maxAttempts - n" arbitrary: frm n)
  case 0
  then have ex: "\<not> n < maxAttempts" by simp
  show ?case unfolding slotLoop_exhausted[OF ex, of db st schedule a tz frm] using "0.prems" by simp
next
  case (Suc m)
  show ?case
  proof (rule slotLoop_cases[where attempts=n and db=db and schedule=schedule and frm=frm and tz=tz and st=st and a=a])
    assume ex: "\<not> n < maxAttempts"
    show ?thesis unfolding slotLoop_exhausted[OF ex, of db st schedule a tz frm] using Suc.prems by simp
  next
    assume h: "n < maxAttempts" "getNextSlotTime db schedule frm = None"
    show ?thesis unfolding slotLoop_no_candidate[OF h, of st a tz] using h(1) by simp
  next
    fix c'
    assume h: "n < maxAttempts" "getNextSlotTime db schedule frm = Some c'"
      "getDayStartInUtc db c' tz = None"
    show ?thesis unfolding slotLoop_invalid_day[OF h, of st a] using h(1) by simp
  next
    fix c' dayStart
    assume h: "n < maxAttempts" "getNextSlotTime db schedule frm = Some c'"
      "getDayStartInUtc db c' tz = Some dayStart" "slotRejected st schedule a c' dayStart"
    have m: "m = maxAttempts - Suc n" using Suc.hyps(2) by simp
    have le: "Suc n \<le> maxAttempts" using h(1) by simp
    show ?thesis unfolding slotLoop_skip[OF h]
      using Suc.hyps(1)[OF m le, of "c' + 60 * 1000"] by simp
  next
    fix c' dayStart
    assume h: "n < maxAttempts" "getNextSlotTime db schedule frm = Some c'"
      "getDayStartInUtc db c' tz = Some dayStart" "\<not> slotRejected st schedule a c' dayStart"
    show ?thesis unfolding slotLoop_accept[OF h] using h(1) by simp
  qed
qed

lemma getNextAvailableSlot_Some:
  assumes "getNextAvailableSlot db st now a fromUtc = Inr (Some c)"
  shows "\<exists>schedule dayStart. findSchedule st a = Some schedule \<and>
           getDayStartInUtc db c (zoneOf schedule) = Some dayStart \<and>
           \<not> slotRejected st schedule a c dayStart"
proof (cases "findSchedule st a")
  case None
  with assms show ?thesis by (simp add: getNextAvailableSlot_def)
next
  case (Some schedule)
  with assms obtain frm where
    "fst (slotLoop db st schedule a (zoneOf schedule) frm 0) = Inr (Some c)"
    by (auto simp: getNextAvailableSlot_def Let_def split: if_splits)
  then obtain k where "slotLoop db st schedule a (zoneOf schedule) frm 0 = (Inr (Some c), k)"
    by (cases "slotLoop db st schedule a (zoneOf schedule) frm 0") simp
  from slotLoop_Some[OF this] Some show ?thesis by blast
qed

lemma reserveNext_Inr:
  assumes "reserveNext db st now postId orgId a fromUtc = (st', Inr q)"
  shows "getNextAvailableSlot db st now a (Some fromUtc) = Inr (Some (qs_scheduledAt q)) \<and>
         queueSlots st' = queueSlots st @ [q] \<and> posts st' = posts st \<and>
         schedules st' = schedules st \<and>
         qs_socialAccountId q = a \<and> qs_status q = SlotScheduled \<and> qs_postId q = Some postId"
  using assms
  by (auto simp: reserveNext_def Let_def split: sum.splits option.splits)

lemma alreadyUsed_None: "alreadyUsed st a t = None \<longleftrightarrow> \<not> activeSlotAt st a t"
  by (auto simp: alreadyUsed_def activeSlotAt_def find_None_iff list_ex_iff)

text \<open>
  Claim C1, as amended. When \<open>reserveNext\<close> creates a Queue Slot, the store held no
  Queue Slot of that account at that instant in status scheduled, publishing or
  published; the new slot is the only change to the slots. (A slot that is available,
  failed or canceled does not block its instant: see the counterexample.)
\<close>

theorem reserveNext_no_active_double_booking:
  assumes "reserveNext db st now postId orgId a fromUtc = (st', Inr q)"
  shows "queueSlots st' = queueSlots st @ [q] \<and> qs_socialAccountId q = a \<and>
         \<not> activeSlotAt st a (qs_scheduledAt q)"
proof -
  from reserveNext_Inr[OF assms] have
    g: "getNextAvailableSlot db st now a (Some fromUtc) = Inr (Some (qs_scheduledAt q))"
    and r: "queueSlots st' = queueSlots st @ [q]" "qs_socialAccountId q = a"
    by simp_all
  from getNextAvailableSlot_Some[OF g] obtain schedule dayStart where
    "\<not> slotRejected st schedule a (qs_scheduledAt q) dayStart" by blast
  then have "alreadyUsed st a (qs_scheduledAt q) = None"
    by (simp add: slotRejected_def)
  with r show ?thesis by (simp add: alreadyUsed_None)
qed

theorem reserveNext_no_active_double_booking_witness:
  "reserveNext tzdb2024 (storeWith (Some 2) [slotAt 1 1709542800000 SlotScheduled]) 0 5 1 7
       1709539200000
     = (storeWith (Some 2) [slotAt 1 1709542800000 SlotScheduled, (slotAt 2 1709715600000 SlotScheduled)\<lparr>qs_postId := Some 5\<rparr>],
        Inr ((slotAt 2 1709715600000 SlotScheduled)\<lparr>qs_postId := Some 5\<rparr>)) \<and>
   queueSlots (storeWith (Some 2) [slotAt 1 1709542800000 SlotScheduled, (slotAt 2 1709715600000 SlotScheduled)\<lparr>qs_postId := Some 5\<rparr>])
     = queueSlots (storeWith (Some 2) [slotAt 1 1709542800000 SlotScheduled])
         @ [(slotAt 2 1709715600000 SlotScheduled)\<lparr>qs_postId := Some 5\<rparr>] \<and>
   qs_socialAccountId ((slotAt 2 1709715600000 SlotScheduled)\<lparr>qs_postId := Some 5\<rparr>) = 7 \<and>
   \<not> activeSlotAt (storeWith (Some 2) [slotAt 1 1709542800000 SlotScheduled]) 7
       (qs_scheduledAt ((slotAt 2 1709715600000 SlotScheduled)\<lparr>qs_postId := Some 5\<rparr>))"
proof -
  have e: "reserveNext tzdb2024 (storeWith (Some 2) [slotAt 1 1709542800000 SlotScheduled]) 0 5 1 7
       1709539200000
     = (storeWith (Some 2) [slotAt 1 1709542800000 SlotScheduled, (slotAt 2 1709715600000 SlotScheduled)\<lparr>qs_postId := Some 5\<rparr>],
        Inr ((slotAt 2 1709715600000 SlotScheduled)\<lparr>qs_postId := Some 5\<rparr>))"
    supply TrueI [simproc del: let_simp]
    by (simp add: ev cong: let_weak_cong)
  show ?thesis
    by (rule conjI[OF e reserveNext_no_active_double_booking[OF e]])
qed

text \<open>
  Claim C1 as stated fails: with a failed Queue Slot of account 7 at Monday 09:00,
  \<open>reserveNext\<close> creates a second Queue Slot of account 7 at Monday 09:00, although the
  existing one is not canceled.
\<close>

theorem reserveNext_books_instant_of_failed_slot:
  "nonCanceledSlotAt (storeWith (Some 1) [slotAt 1 1709542800000 SlotFailed]) 7 1709542800000 \<and>
   snd (reserveNext tzdb2024 (storeWith (Some 1) [slotAt 1 1709542800000 SlotFailed]) 0 5 1 7
          1709539200000)
     = Inr \<lparr> qs_id = 2, qs_organizationId = 1, qs_socialAccountId = 7,
            qs_scheduledAt = 1709542800000, qs_postId = Some 5, qs_status = SlotScheduled \<rparr>"
  supply TrueI [simproc del: let_simp]
  by (simp add: ev cong: let_weak_cong)


text \<open>The day number of the date of a day number is that day number: \<open>civilFromDays\<close>
  splits the 400-year cycle into centuries, 4-year cycles and years, and \<open>daysFromCivil\<close>
  puts them together again.\<close>

lemma quot_rem: 
  fixes a b :: int
  assumes "0 < b"
  obtains q r where "a = b * q + r" "0 \<le> r" "r < b" "a div b = q"
proof
  show "a = b * (a div b) + a mod b" by simp
  show "0 \<le> a mod b" using assms by simp
  show "a mod b < b" using assms by simp
  show "a div b = a div b" ..
qed

lemma yoe_of_doe:
  fixes doe :: int
  assumes lo: "0 \<le> doe" and hi: "doe \<le> 146096"
  shows "\<exists>yoe doy. (doe - doe div 1460 + doe div 36524 - doe div 146096) div 365 = yoe \<and>
           doe - (365 * yoe + yoe div 4 - yoe div 100) = doy \<and>
           0 \<le> yoe \<and> yoe \<le> 399 \<and> 0 \<le> doy \<and> doy \<le> 365"
proof (cases "doe = 146096")
  case True
  then show ?thesis by simp
next
  case False
  with hi have hi': "doe \<le> 146095" by simp
  obtain c r where c: "doe = 36524 * c + r" "0 \<le> r" "r < 36524" "doe div 36524 = c"
    by (rule quot_rem[of 36524 doe]) simp
  have cb: "0 \<le> c" "c \<le> 3" using c(1-3) lo hi' by linarith+
  obtain k s where k: "r = 1461 * k + s" "0 \<le> s" "s < 1461" by (rule quot_rem[of 1461 r]) simp
  have kb: "0 \<le> k" "k \<le> 24" using k c(2,3) by linarith+
  obtain j0 t where j0: "s = 365 * j0 + t" "0 \<le> t" "t < 365" by (rule quot_rem[of 365 s]) simp
  have j0b: "0 \<le> j0" "j0 \<le> 4" using j0 k by linarith+
  obtain j s' where js: "s = 365 * j + s'" "0 \<le> j" "j \<le> 3" "0 \<le> s'"
      "s' \<le> 364 \<or> (s' = 365 \<and> j = 3)"
  proof (cases "j0 = 4")
    case True
    with j0 k have "t = 0" by linarith
    with True j0 have "s = 365 * 3 + 365" by simp
    then show ?thesis by (rule that) simp_all
  next
    case False
    with j0b have "j0 \<le> 3" by simp
    with j0 j0b show ?thesis by (intro that[of j0 t]) simp_all
  qed
  have sb: "s' \<le> 365" using js(5) by auto
  define Y where "Y = 100 * c + 4 * k + j"
  have doe: "doe = 36524 * c + 1461 * k + 365 * j + s'" using c(1) k(1) js(1) by simp
  define w where "w = 24 * c + k + 365 * j + s'"
  have wb: "0 \<le> w" "w \<le> 1556" using cb kb js(2-4) sb by (simp_all add: w_def)
  obtain e r1 where e: "w = 1460 * e + r1" "0 \<le> r1" "r1 < 1460" by (rule quot_rem[of 1460 w]) simp
  have eb: "0 \<le> e" "e \<le> 1" using e wb by linarith+
  have es: "e \<le> s'"
  proof (cases "e = 0")
    case True
    then show ?thesis using js(4) by simp
  next
    case False
    with eb have "e = 1" by simp
    with e have "1460 \<le> w" by simp
    then have "269 \<le> s'" using cb kb js(3) by (simp add: w_def)
    with \<open>e = 1\<close> show ?thesis by simp
  qed
  have ee: "s' = 365 \<longrightarrow> e = 1"
  proof
    assume a: "s' = 365"
    with js(5) have "j = 3" by simp
    with a have "1460 \<le> w" using cb kb by (simp add: w_def)
    with e eb show "e = 1" by linarith
  qed
  have "doe = 1460 * (25 * c + k + e) + r1" using doe e(1) by (simp add: w_def)
  from int_div_pos_eq[OF this e(2,3)] have q1: "doe div 1460 = 25 * c + k + e" .
  have d3: "doe div 146096 = 0" using lo hi' by simp
  define N where "N = doe - (25 * c + k + e) + c"
  have ny: "N - 365 * Y = s' - e" using doe by (simp add: N_def Y_def)
  have nl: "365 * Y \<le> N" using ny es by linarith
  have "s' - e \<le> 364" using sb ee eb by (cases "s' = 365") auto
  then have nu: "N < 365 * Y + 365" using ny by linarith
  have "N = 365 * Y + (N - 365 * Y)" by simp
  from int_div_pos_eq[OF this] nl nu have y: "N div 365 = Y" by simp
  have yoe: "(doe - doe div 1460 + doe div 36524 - doe div 146096) div 365 = Y"
    using y c(4) q1 d3 by (simp add: N_def)
  have "Y = 4 * (25 * c + k) + j" by (simp add: Y_def)
  from int_div_pos_eq[OF this] js have y4: "Y div 4 = 25 * c + k" by simp
  have "Y = 100 * c + (4 * k + j)" by (simp add: Y_def)
  from int_div_pos_eq[OF this] js kb have y100: "Y div 100 = c" by simp
  have doy: "doe - (365 * Y + Y div 4 - Y div 100) = s'"
    unfolding y4 y100 using doe by (simp add: Y_def)
  have yb: "0 \<le> Y" "Y \<le> 399" using cb kb js by (simp_all add: Y_def)
  from yoe doy yb js(4) sb show ?thesis by blast
qed

lemma daysFromCivil_civilFromDays:
  assumes "civilFromDays n = (y, m, d)"
  shows "daysFromCivil y m d = n"
proof -
  define z where "z = n + 719468"
  obtain era doe where e: "z = 146097 * era + doe" "0 \<le> doe" "doe < 146097" "z div 146097 = era"
    by (rule quot_rem[of 146097 z]) simp
  have de: "z - era * 146097 = doe" using e by simp
  have hi: "doe \<le> 146096" using e(3) by simp
  from yoe_of_doe[OF e(2) hi] obtain yoe doy where
    yo: "(doe - doe div 1460 + doe div 36524 - doe div 146096) div 365 = yoe" and
    dy: "doe - (365 * yoe + yoe div 4 - yoe div 100) = doy" and
    b: "0 \<le> yoe" "yoe \<le> 399" "0 \<le> doy" "doy \<le> 365" by blast
  obtain mp t where mp: "5 * doy + 2 = 153 * mp + t" "0 \<le> t" "t < 153" "(5 * doy + 2) div 153 = mp"
    by (rule quot_rem[of 153 "5 * doy + 2"]) simp
  have mb: "0 \<le> mp" "mp \<le> 11" using mp(1-3) b by linarith+
  have c: "civilFromDays n =
      (if (if mp < 10 then mp + 3 else mp - 9) \<le> 2 then yoe + era * 400 + 1 else yoe + era * 400,
       if mp < 10 then mp + 3 else mp - 9,
       doy - (153 * mp + 2) div 5 + 1)"
    unfolding civilFromDays_def Let_def z_def[symmetric] e(4) de yo dy mp(4) ..
  have "(if (if mp < 10 then mp + 3 else mp - 9) \<le> 2 then yoe + era * 400 + 1 else yoe + era * 400,
       if mp < 10 then mp + 3 else mp - 9,
       doy - (153 * mp + 2) div 5 + 1) = (y, m, d)"
    using assms unfolding c .
  then have
    y: "y = (if (if mp < 10 then mp + 3 else mp - 9) \<le> 2 then yoe + era * 400 + 1 else yoe + era * 400)"
    and m: "m = (if mp < 10 then mp + 3 else mp - 9)"
    and d: "d = doy - (153 * mp + 2) div 5 + 1" by blast+
  have y1: "(if m \<le> 2 then y - 1 else y) = 400 * era + yoe" unfolding y m by simp
  from int_div_pos_eq[of "400 * era + yoe" 400 era yoe] b
  have er: "(400 * era + yoe) div 400 = era" by simp
  have m9: "(m + 9) mod 12 = mp"
  proof (cases "mp < 10")
    case True
    then have "m + 9 = 12 * 1 + mp" by (simp add: m)
    from int_mod_pos_eq[OF this] mb True show ?thesis by simp
  next
    case False
    then have "m + 9 = 12 * 0 + mp" by (simp add: m)
    from int_mod_pos_eq[OF this] mb show ?thesis by simp
  qed
  have dd: "(153 * mp + 2) div 5 + d - 1 = doy" unfolding d by simp
  have yy: "400 * era + yoe - era * 400 = yoe" by simp
  have "daysFromCivil y m d = era * 146097 + (yoe * 365 + yoe div 4 - yoe div 100 + doy) - 719468"
    unfolding daysFromCivil_def Let_def y1 er m9 yy dd ..
  also have "yoe * 365 + yoe div 4 - yoe div 100 + doy = doe" unfolding dy[symmetric] by simp
  finally show ?thesis using e(1) by (simp add: z_def)
qed

lemma div_eq_iff_between:
  fixes a b q :: int
  assumes "0 < b"
  shows "(a div b = q) = (b * q \<le> a \<and> a < b * q + b)"
proof
  assume "a div b = q"
  then have "a = b * q + a mod b" by auto
  moreover have "0 \<le> a mod b" "a mod b < b" using assms by simp_all
  ultimately show "b * q \<le> a \<and> a < b * q + b" by linarith
next
  assume h: "b * q \<le> a \<and> a < b * q + b"
  have "a = b * q + (a - b * q)" by simp
  from int_div_pos_eq[OF this] h show "a div b = q" by simp
qed

text \<open>Where the zone has one and the same offset \<open>off\<close> at an instant \<open>c\<close>, at the instant
  that \<open>getDayStartInUtc\<close> probes for it (the local midnight of \<open>c\<close> read as UTC) and at an
  instant \<open>t\<close>, the instant \<open>t\<close> is on the local calendar day of \<open>c\<close> exactly when it is in
  the 24 hours from \<open>getDayStartInUtc\<close> of \<open>c\<close>.\<close>

lemma localDate_window:
  assumes oc: "offsetAt db tz c = off"
    and op: "offsetAt db tz ((c + 1000 * off) div msPerDay * msPerDay) = off"
    and ot: "offsetAt db tz t = off"
    and tz: "tz \<noteq> []"
    and ds: "getDayStartInUtc db c tz = Some dayStart"
  shows "(localDate db tz t = localDate db tz c) = (dayStart \<le> t \<and> t < dayStart + msPerDay)"
proof -
  define dc where "dc = (c + 1000 * off) div msPerDay"
  define dt where "dt = (t + 1000 * off) div msPerDay"
  obtain y m d where cv: "civilFromDays dc = (y, m, d)" by (cases "civilFromDays dc") auto
  have inv: "daysFromCivil y m d = dc" by (rule daysFromCivil_civilFromDays[OF cv])
  have lc: "localDate db tz c = civilFromDays dc" by (simp add: localDate_def oc dc_def)
  have lt: "localDate db tz t = civilFromDays dt" by (simp add: localDate_def ot dt_def)
  have same: "(localDate db tz t = localDate db tz c) = (dt = dc)"
  proof
    assume "localDate db tz t = localDate db tz c"
    with lc lt cv have "civilFromDays dt = (y, m, d)" by simp
    from daysFromCivil_civilFromDays[OF this] inv show "dt = dc" by simp
  next
    assume "dt = dc"
    with lc lt show "localDate db tz t = localDate db tz c" by simp
  qed
  from ds have p: "parseIsoUtc y (m - 1) d 0 0 \<noteq> None"
    by (auto simp: getDayStartInUtc_def Let_def oc dc_def[symmetric] cv split: option.splits)
  then have pv: "parseIsoUtc y (m - 1) d 0 0 = Some (dc * msPerDay)"
    using inv by (simp add: parseIsoUtc_def split: if_splits)
  have op': "offsetAt db tz (dc * msPerDay) = off" using op by (simp add: dc_def)
  have z: "tz = ''UTC'' \<Longrightarrow> off = 0" using oc by (simp add: offsetAt_def)
  have g: "getDayStartInUtc db c tz =
      (if tz = [] \<or> tz = ''UTC'' then Some (dc * msPerDay) else Some (dc * msPerDay - 1000 * off))"
    by (simp add: getDayStartInUtc_def Let_def oc op' dc_def[symmetric] cv pv)
  have s: "dayStart = dc * msPerDay - 1000 * off"
  proof (cases "tz = ''UTC''")
    case True
    with g ds z show ?thesis by simp
  next
    case False
    with g ds tz show ?thesis by simp
  qed
  have pos: "0 < msPerDay" by (simp add: msPerDay_def)
  have "(dt = dc) = (msPerDay * dc \<le> t + 1000 * off \<and> t + 1000 * off < msPerDay * dc + msPerDay)"
    unfolding dt_def by (rule div_eq_iff_between[OF pos])
  also have "\<dots> = (dayStart \<le> t \<and> t < dayStart + msPerDay)"
    unfolding s by (auto simp: mult.commute)
  finally show ?thesis using same by simp
qed

text \<open>So the local day of a candidate is its window, as far as the Queue Slots of the
  account go, where the zone has the same offset at the candidate, at the instant probed
  and at each of these Queue Slots; and always in a zone whose offset never changes.\<close>

lemma dayIsWindow_same_offset:
  assumes oc: "offsetAt db tz c = off"
    and op: "offsetAt db tz ((c + 1000 * off) div msPerDay * msPerDay) = off"
    and os: "\<And>q. q \<in> set (queueSlots st) \<Longrightarrow> qs_socialAccountId q = a \<Longrightarrow>
                offsetAt db tz (qs_scheduledAt q) = off"
    and tz: "tz \<noteq> []"
    and ds: "getDayStartInUtc db c tz = Some dayStart"
  shows "dayIsWindow db st a tz c dayStart"
  unfolding dayIsWindow_def list_all_iff
proof (intro ballI impI)
  fix q
  assume q: "q \<in> set (queueSlots st)" and a: "qs_socialAccountId q = a"
  show "(localDate db tz (qs_scheduledAt q) = localDate db tz c)
        = (dayStart \<le> qs_scheduledAt q \<and> qs_scheduledAt q < dayStart + msPerDay)"
    by (rule localDate_window[OF oc op os[OF q a] tz ds])
qed

lemma dayIsWindow_fixed_offset:
  assumes off: "\<And>x. offsetAt db tz x = off"
    and tz: "tz \<noteq> []"
    and ds: "getDayStartInUtc db c tz = Some dayStart"
  shows "dayIsWindow db st a tz c dayStart"
  by (rule dayIsWindow_same_offset[OF off off off tz ds])

lemma zoneOf_nonempty: "zoneOf schedule \<noteq> []"
  by (simp add: zoneOf_def)





text \<open>On the Sunday of 25 hours the window ends an hour before the day does. With a cap
  of 1 and 23:15 booked, the count for the window of the candidate 23:30 is 0, and
  \<open>reserveNext\<close> books it: the local day and the window differ there.\<close>

lemma reserveNext_on_day_of_25_hours:
  "reserveNext tzdb2024 (nightStore (Some 1) [nightSlot 1 1730693700000]) 0 5 1 9 1730635200000
     = (nightStore (Some 1) [nightSlot 1 1730693700000, (nightSlot 2 1730694600000)\<lparr>qs_postId := Some 5\<rparr>],
        Inr ((nightSlot 2 1730694600000)\<lparr>qs_postId := Some 5\<rparr>)) \<and>
   getDayStartInUtc tzdb2024 1730694600000 ''America/New_York'' = Some 1730606400000 \<and>
   localDate tzdb2024 ''America/New_York'' 1730693700000 = (2024, 11, 3) \<and>
   localDate tzdb2024 ''America/New_York'' 1730694600000 = (2024, 11, 3) \<and>
   dailyCap (sundayNight (Some 1)) = 1 \<and>
   countedOnLocalDay tzdb2024
     (nightStore (Some 1) [nightSlot 1 1730693700000, (nightSlot 2 1730694600000)\<lparr>qs_postId := Some 5\<rparr>])
     9 ''America/New_York'' 1730694600000 = 2 \<and>
   \<not> dayIsWindow tzdb2024
       (nightStore (Some 1) [nightSlot 1 1730693700000, (nightSlot 2 1730694600000)\<lparr>qs_postId := Some 5\<rparr>])
       9 ''America/New_York'' 1730694600000 1730606400000"
  supply TrueI [simproc del: let_simp]
  by (simp add: ev cong: let_weak_cong)

lemma slotRejected_cong:
  "dailyCap s' = dailyCap s \<Longrightarrow> queueSlots st' = queueSlots st \<Longrightarrow> posts st' = posts st \<Longrightarrow>
   slotRejected st' s' a c d = slotRejected st s a c d"
  by (simp add: slotRejected_def countScheduledSlotsInRange_def slotCountInRange_def
      postCountInRange_def alreadyUsed_def)

lemma slotLoop_cong:
  assumes g: "\<And>f. getNextSlotTime db s' f = getNextSlotTime db s f"
    and c: "dailyCap s' = dailyCap s"
    and q: "queueSlots st' = queueSlots st"
    and p: "posts st' = posts st"
  shows "slotLoop db st' s' a tz frm n = slotLoop db st s a tz frm n"
proof (induction "maxAttempts - n" arbitrary: frm n)
  case 0
  then have ex: "\<not> n < maxAttempts" by simp
  show ?case
    unfolding slotLoop_exhausted[OF ex, of db st s a tz frm]
      slotLoop_exhausted[OF ex, of db st' s' a tz frm] ..
next
  case (Suc m)
  note r = slotRejected_cong[OF c q p]
  show ?case
  proof (rule slotLoop_cases[where attempts=n and db=db and schedule=s and frm=frm and tz=tz and st=st and a=a])
    assume ex: "\<not> n < maxAttempts"
    show ?thesis
      unfolding slotLoop_exhausted[OF ex, of db st s a tz frm]
        slotLoop_exhausted[OF ex, of db st' s' a tz frm] ..
  next
    assume h: "n < maxAttempts" "getNextSlotTime db s frm = None"
    from h(2) have h': "getNextSlotTime db s' frm = None" by (simp add: g)
    show ?thesis
      unfolding slotLoop_no_candidate[OF h, of st a tz]
        slotLoop_no_candidate[OF h(1) h', of st' a tz] ..
  next
    fix c'
    assume h: "n < maxAttempts" "getNextSlotTime db s frm = Some c'"
      "getDayStartInUtc db c' tz = None"
    from h(2) have h': "getNextSlotTime db s' frm = Some c'" by (simp add: g)
    show ?thesis
      unfolding slotLoop_invalid_day[OF h, of st a]
        slotLoop_invalid_day[OF h(1) h' h(3), of st' a] ..
  next
    fix c' dayStart
    assume h: "n < maxAttempts" "getNextSlotTime db s frm = Some c'"
      "getDayStartInUtc db c' tz = Some dayStart" "slotRejected st s a c' dayStart"
    from h(2) have h': "getNextSlotTime db s' frm = Some c'" by (simp add: g)
    from h(4) have r': "slotRejected st' s' a c' dayStart" by (simp add: r)
    have m: "m = maxAttempts - Suc n" using Suc.hyps(2) by simp
    show ?thesis
      unfolding slotLoop_skip[OF h] slotLoop_skip[OF h(1) h' h(3) r']
      by (rule Suc.hyps(1)[OF m])
  next
    fix c' dayStart
    assume h: "n < maxAttempts" "getNextSlotTime db s frm = Some c'"
      "getDayStartInUtc db c' tz = Some dayStart" "\<not> slotRejected st s a c' dayStart"
    from h(2) have h': "getNextSlotTime db s' frm = Some c'" by (simp add: g)
    from h(4) have r': "\<not> slotRejected st' s' a c' dayStart" by (simp add: r)
    show ?thesis
      unfolding slotLoop_accept[OF h] slotLoop_accept[OF h(1) h' h(3) r'] ..
  qed
qed

lemma getNextSlotTime_skipNext:
  "getNextSlotTime db (s\<lparr>skipNext := b\<rparr>) f = getNextSlotTime db s f"
  by (simp add: getNextSlotTime_def getNextSlotTimes_def slotCandidates_def zoneOf_def)

lemma find_skipNext:
  "find (\<lambda>s. socialAccountId s = a \<and> enabled s) (map (\<lambda>s. s\<lparr>skipNext := b\<rparr>) xs)
     = map_option (\<lambda>s. s\<lparr>skipNext := b\<rparr>) (find (\<lambda>s. socialAccountId s = a \<and> enabled s) xs)"
  by (induction xs) simp_all

lemma findSchedule_skipNext:
  "findSchedule (st\<lparr>schedules := map (\<lambda>s. s\<lparr>skipNext := b\<rparr>) (schedules st)\<rparr>) a
     = map_option (\<lambda>s. s\<lparr>skipNext := b\<rparr>) (findSchedule st a)"
  by (simp add: findSchedule_def find_skipNext)

lemma getNextAvailableSlot_skipNext:
  "getNextAvailableSlot db (st\<lparr>schedules := map (\<lambda>s. s\<lparr>skipNext := b\<rparr>) (schedules st)\<rparr>) now a f
     = getNextAvailableSlot db st now a f"
proof (cases "findSchedule st a")
  case None
  then show ?thesis by (simp add: getNextAvailableSlot_def findSchedule_skipNext)
next
  case (Some s)
  have "slotLoop db (st\<lparr>schedules := map (\<lambda>s. s\<lparr>skipNext := b\<rparr>) (schedules st)\<rparr>)
          (s\<lparr>skipNext := b\<rparr>) a tz frm 0 = slotLoop db st s a tz frm 0" for tz frm
    by (rule slotLoop_cong) (simp_all add: getNextSlotTime_skipNext dailyCap_def)
  with Some show ?thesis
    by (simp add: getNextAvailableSlot_def findSchedule_skipNext zoneOf_def)
qed

text \<open>
  Claim C8, as amended. The allocator neither reads nor writes \<open>skipNext\<close>:
  \<open>reserveNext\<close> leaves every rule as it was, and it returns the same Queue Slot (or the
  same failure) whatever the flag is set to.
\<close>

theorem reserveNext_ignores_skipNext:
  "schedules (fst (reserveNext db st now postId orgId a fromUtc)) = schedules st \<and>
   snd (reserveNext db (st\<lparr>schedules := map (\<lambda>s. s\<lparr>skipNext := b\<rparr>) (schedules st)\<rparr>)
          now postId orgId a fromUtc)
     = snd (reserveNext db st now postId orgId a fromUtc)"
  by (simp add: reserveNext_def getNextAvailableSlot_skipNext freshSlotId_def Let_def
      split: sum.splits option.splits)

theorem reserveNext_ignores_skipNext_witness:
  "schedules (fst (reserveNext tzdb2024 skipStore 0 5 1 7 1709539200000)) = schedules skipStore \<and>
   snd (reserveNext tzdb2024
          (skipStore\<lparr>schedules := map (\<lambda>s. s\<lparr>skipNext := False\<rparr>) (schedules skipStore)\<rparr>)
          0 5 1 7 1709539200000)
     = snd (reserveNext tzdb2024 skipStore 0 5 1 7 1709539200000)"
  by (rule reserveNext_ignores_skipNext)

text \<open>
  Claim C8 as stated fails: with \<open>skipNext\<close> set on the rule, whose next two candidates
  are Monday 09:00 and Wednesday 09:00, \<open>reserveNext\<close> books Monday 09:00, the first
  candidate, and the flag is still set afterwards.
\<close>

theorem reserveNext_books_first_candidate_despite_skipNext:
  "map skipNext (schedules skipStore) = [True] \<and>
   getNextSlotTimes tzdb2024 (hd (schedules skipStore)) 1709539200000 2
     = [1709542800000, 1709715600000] \<and>
   snd (reserveNext tzdb2024 skipStore 0 5 1 7 1709539200000)
     = Inr \<lparr> qs_id = 1, qs_organizationId = 1, qs_socialAccountId = 7,
            qs_scheduledAt = 1709542800000, qs_postId = Some 5, qs_status = SlotScheduled \<rparr> \<and>
   map skipNext (schedules (fst (reserveNext tzdb2024 skipStore 0 5 1 7 1709539200000))) = [True]"
  supply TrueI [simproc del: let_simp]
  by (simp add: ev cong: let_weak_cong)

text \<open>
  Claim C9. The search of \<open>getNextAvailableSlot\<close> is the loop \<open>slotLoop\<close> started with
  \<open>attempts = 0\<close>; being a total function, the loop returns on every input. From any
  value of \<open>attempts\<close> up to the bound, it leaves with \<open>attempts\<close> at most
  14 * 24 * 2 = 672, and when it leaves at 672, every candidate having been rejected,
  what it returns is "no slot" (\<open>null\<close>), which \<open>allocateSlotForPost\<close> turns into
  \<open>NO_SLOT_AVAILABLE\<close>.
\<close>

theorem getNextAvailableSlot_attempts_bounded:
  assumes "n \<le> maxAttempts"
  shows "maxAttempts = 672 \<and>
         snd (slotLoop db st schedule a tz frm n) \<le> maxAttempts \<and>
         (snd (slotLoop db st schedule a tz frm n) = maxAttempts \<longrightarrow>
            fst (slotLoop db st schedule a tz frm n) = Inr None)"
  using slotLoop_attempts[OF assms, of db st schedule a tz frm]
  by (simp add: maxAttempts_def)

theorem getNextAvailableSlot_attempts_bounded_witness:
  "(670::nat) \<le> maxAttempts \<and>
   snd (slotLoop tzdb2024
          (storeWith (Some 1) [slotAt 1 1709542800000 SlotScheduled, slotAt 2 1709715600000 SlotPublished])
          (mwf9 (Some 1)) 7 ''UTC'' 1709539200000 670) = maxAttempts \<and>
   fst (slotLoop tzdb2024
          (storeWith (Some 1) [slotAt 1 1709542800000 SlotScheduled, slotAt 2 1709715600000 SlotPublished])
          (mwf9 (Some 1)) 7 ''UTC'' 1709539200000 670) = Inr None"
proof -
  have le: "(670::nat) \<le> maxAttempts" by (simp add: maxAttempts_def)
  have e: "slotLoop tzdb2024
          (storeWith (Some 1) [slotAt 1 1709542800000 SlotScheduled, slotAt 2 1709715600000 SlotPublished])
          (mwf9 (Some 1)) 7 ''UTC'' 1709539200000 670 = (Inr None, 672)"
    supply TrueI [simproc del: let_simp]
    by (simp add: ev cong: let_weak_cong)
  have s: "snd (slotLoop tzdb2024
          (storeWith (Some 1) [slotAt 1 1709542800000 SlotScheduled, slotAt 2 1709715600000 SlotPublished])
          (mwf9 (Some 1)) 7 ''UTC'' 1709539200000 670) = maxAttempts"
    unfolding e by (simp add: maxAttempts_def)
  from getNextAvailableSlot_attempts_bounded[OF le, of tzdb2024
          "storeWith (Some 1) [slotAt 1 1709542800000 SlotScheduled, slotAt 2 1709715600000 SlotPublished]"
          "mwf9 (Some 1)" 7 "''UTC''" 1709539200000] s
  have "fst (slotLoop tzdb2024
          (storeWith (Some 1) [slotAt 1 1709542800000 SlotScheduled, slotAt 2 1709715600000 SlotPublished])
          (mwf9 (Some 1)) 7 ''UTC'' 1709539200000 670) = Inr None"
    by blast
  with le s show ?thesis by blast
qed

section \<open>The token service\<close>

lemma splitOn_none: "sep \<notin> set s \<Longrightarrow> splitOn sep s = [s]"
  by (induction s) auto

lemma splitOn_once:
  "sep \<notin> set a \<Longrightarrow> sep \<notin> set b \<Longrightarrow> splitOn sep (a @ sep # b) = [a, b]"
  by (induction a) (auto simp: splitOn_none)

lemma sealedA_eq: "encrypt toyLib exampleKey exampleIv (Some tokA) = sealedA"
  supply TrueI [simproc del: let_simp]
  by (simp add: pv cong: let_weak_cong)

lemma sealedB_eq: "encrypt toyLib exampleKey exampleIv (Some tokB) = sealedB"
  supply TrueI [simproc del: let_simp]
  by (simp add: pv cong: let_weak_cong)

text \<open>Decoding inverts encoding on the strings without an unpaired surrogate.\<close>

lemma recompose3: "(cp::nat) div 4096 * 4096 + cp div 64 mod 64 * 64 + cp mod 64 = cp"
proof -
  have "cp div 64 div 64 = cp div 4096" by (simp add: div_mult2_eq[symmetric])
  then have "cp div 4096 * 64 + cp div 64 mod 64 = cp div 64"
    by (metis div_mult_mod_eq)
  then have "cp div 64 * 64 = cp div 4096 * 4096 + cp div 64 mod 64 * 64" by simp
  moreover have "cp div 64 * 64 + cp mod 64 = cp" by simp
  ultimately show ?thesis by simp
qed

lemma recompose4:
  "(cp::nat) div 262144 * 262144 + cp div 4096 mod 64 * 4096 + cp div 64 mod 64 * 64 + cp mod 64 = cp"
proof -
  have "cp div 4096 div 64 = cp div 262144" by (simp add: div_mult2_eq[symmetric])
  then have "cp div 262144 * 64 + cp div 4096 mod 64 = cp div 4096"
    by (metis div_mult_mod_eq)
  then have "cp div 4096 * 4096 = cp div 262144 * 262144 + cp div 4096 mod 64 * 4096" by simp
  with recompose3[of cp] show ?thesis by simp
qed

lemma decode1: "a < 128 \<Longrightarrow> decodeBytes (a # bs) = a # decodeBytes bs"
  by simp

lemma decode2:
  "2 \<le> a \<Longrightarrow> a < 32 \<Longrightarrow> r < 64 \<Longrightarrow>
   decodeBytes ((0xC0 + a) # (0x80 + r) # bs) = (a * 64 + r) # decodeBytes bs"
  by (simp add: isCont_def)

lemma decode3:
  "a < 16 \<Longrightarrow> b < 64 \<Longrightarrow> c < 64 \<Longrightarrow> (a = 0 \<longrightarrow> 32 \<le> b) \<Longrightarrow> (a = 13 \<longrightarrow> b < 32) \<Longrightarrow>
   decodeBytes ((0xE0 + a) # (0x80 + b) # (0x80 + c) # bs) = (a * 4096 + b * 64 + c) # decodeBytes bs"
  by (auto simp: isCont_def secondLow_def secondHigh_def)

lemma decode4:
  "a < 5 \<Longrightarrow> b < 64 \<Longrightarrow> c < 64 \<Longrightarrow> d < 64 \<Longrightarrow> (a = 0 \<longrightarrow> 16 \<le> b) \<Longrightarrow> (a = 4 \<longrightarrow> b < 16) \<Longrightarrow>
   decodeBytes ((0xF0 + a) # (0x80 + b) # (0x80 + c) # (0x80 + d) # bs)
     = unitsOfPoint (a * 262144 + b * 4096 + c * 64 + d) @ decodeBytes bs"
  by (auto simp: isCont_def secondLow_def secondHigh_def)

lemma decode_point:
  assumes "cp < 0x110000" "\<not> (0xD800 \<le> cp \<and> cp < 0xE000)"
  shows "decodeBytes (encodePoint cp @ bs) = unitsOfPoint cp @ decodeBytes bs"
proof -
  consider "cp < 0x80" | "0x80 \<le> cp" "cp < 0x800" | "0x800 \<le> cp" "cp < 0x10000"
    | "0x10000 \<le> cp" by linarith
  then show ?thesis
  proof cases
    case 1
    then show ?thesis by (simp add: encodePoint_def unitsOfPoint_def)
  next
    case 2
    have a: "2 \<le> cp div 64" using div_le_mono[OF 2(1), of 64] by simp
    have b: "cp div 64 < 32" using 2(2) by (simp add: less_mult_imp_div_less)
    have c: "cp mod 64 < 64" by simp
    have e: "encodePoint cp = [0xC0 + cp div 64, 0x80 + cp mod 64]"
      using 2 by (simp add: encodePoint_def)
    have u: "unitsOfPoint cp = [cp]" using 2 by (simp add: unitsOfPoint_def)
    show ?thesis unfolding e u using decode2[OF a b c, of bs] by simp
  next
    case 3
    have a: "cp div 4096 < 16" using 3(2) by (simp add: less_mult_imp_div_less)
    have b: "cp div 64 mod 64 < 64" by simp
    have c: "cp mod 64 < 64" by simp
    have lo: "cp div 4096 = 0 \<longrightarrow> 32 \<le> cp div 64 mod 64"
    proof
      assume "cp div 4096 = 0"
      then have "cp < 4096" by (simp add: div_eq_0_iff)
      then have "cp div 64 < 64" by (simp add: less_mult_imp_div_less)
      moreover have "32 \<le> cp div 64" using div_le_mono[OF 3(1), of 64] by simp
      ultimately show "32 \<le> cp div 64 mod 64" by simp
    qed
    have hi: "cp div 4096 = 13 \<longrightarrow> cp div 64 mod 64 < 32"
    proof
      assume h: "cp div 4096 = 13"
      have "13 * 4096 \<le> cp" using h div_mult_mod_eq[of cp 4096] by simp
      moreover have "cp < 14 * 4096"
        using h div_mult_mod_eq[of cp 4096] mod_less_divisor[of 4096 cp] by simp
      ultimately have "cp < 0xD800" using assms(2) by auto
      then have l: "cp div 64 < 864" by (simp add: less_mult_imp_div_less)
      have "cp div 64 div 64 = 13" using h by (simp add: div_mult2_eq[symmetric])
      then have "cp div 64 = 13 * 64 + cp div 64 mod 64"
        using div_mult_mod_eq[of "cp div 64" 64] by simp
      with l show "cp div 64 mod 64 < 32" by simp
    qed
    have e: "encodePoint cp = [0xE0 + cp div 4096, 0x80 + cp div 64 mod 64, 0x80 + cp mod 64]"
      using 3 by (simp add: encodePoint_def)
    have u: "unitsOfPoint cp = [cp]" using 3 by (simp add: unitsOfPoint_def)
    show ?thesis unfolding e u using decode3[OF a b c lo hi, of bs] recompose3[of cp] by simp
  next
    case 4
    have a: "cp div 262144 < 5" using assms(1) by (simp add: less_mult_imp_div_less)
    have b: "cp div 4096 mod 64 < 64" by simp
    have c: "cp div 64 mod 64 < 64" by simp
    have d: "cp mod 64 < 64" by simp
    have lo: "cp div 262144 = 0 \<longrightarrow> 16 \<le> cp div 4096 mod 64"
    proof
      assume "cp div 262144 = 0"
      then have "cp < 262144" by (simp add: div_eq_0_iff)
      then have "cp div 4096 < 64" by (simp add: less_mult_imp_div_less)
      moreover have "16 \<le> cp div 4096" using div_le_mono[OF 4, of 4096] by simp
      ultimately show "16 \<le> cp div 4096 mod 64" by simp
    qed
    have hi: "cp div 262144 = 4 \<longrightarrow> cp div 4096 mod 64 < 16"
    proof
      assume h: "cp div 262144 = 4"
      have l: "cp div 4096 < 272" using assms(1) by (simp add: less_mult_imp_div_less)
      have "cp div 4096 div 64 = 4" using h by (simp add: div_mult2_eq[symmetric])
      then have "cp div 4096 = 4 * 64 + cp div 4096 mod 64"
        using div_mult_mod_eq[of "cp div 4096" 64] by simp
      with l show "cp div 4096 mod 64 < 16" by simp
    qed
    have e: "encodePoint cp = [0xF0 + cp div 262144, 0x80 + cp div 4096 mod 64,
                               0x80 + cp div 64 mod 64, 0x80 + cp mod 64]"
      using 4 by (simp add: encodePoint_def)
    show ?thesis unfolding e using decode4[OF a b c d lo hi, of bs] recompose4[of cp] by simp
  qed
qed

lemma pair_units:
  assumes "isLead u" "isTrail l"
  shows "unitsOfPoint (0x10000 + (u - 0xD800) * 1024 + (l - 0xDC00)) = [u, l]"
proof -
  obtain k where k: "u = 0xD800 + k" using assms(1) le_Suc_ex by (auto simp: isLead_def)
  obtain t where t: "l = 0xDC00 + t" using assms(2) le_Suc_ex by (auto simp: isTrail_def)
  have b: "t < 1024" using assms(2) t by (auto simp: isTrail_def)
  show ?thesis unfolding k t using b by (simp add: unitsOfPoint_def)
qed

lemma pair_point:
  assumes "isLead u" "isTrail l"
  shows "0x10000 + (u - 0xD800) * 1024 + (l - 0xDC00) < 0x110000"
    and "\<not> (0xD800 \<le> 0x10000 + (u - 0xD800) * 1024 + (l - 0xDC00) \<and>
            0x10000 + (u - 0xD800) * 1024 + (l - 0xDC00) < 0xE000)"
proof -
  have "u - 0xD800 \<le> 1023" using assms(1) by (auto simp: isLead_def)
  then have "(u - 0xD800) * 1024 \<le> 1023 * 1024" by (rule mult_le_mono1)
  moreover have "l - 0xDC00 < 1024" using assms(2) by (auto simp: isTrail_def)
  ultimately show "0x10000 + (u - 0xD800) * 1024 + (l - 0xDC00) < 0x110000" by simp
  show "\<not> (0xD800 \<le> 0x10000 + (u - 0xD800) * 1024 + (l - 0xDC00) \<and>
            0x10000 + (u - 0xD800) * 1024 + (l - 0xDC00) < 0xE000)" by simp
qed

lemma decode_replacement: "decodeBytes (REPLACEMENT @ bs) = 0xFFFD # decodeBytes bs"
  by (simp add: REPLACEMENT_def isCont_def secondLow_def secondHigh_def)

lemma decodeBytes_encodeUnits: "wellFormed s \<Longrightarrow> decodeBytes (encodeUnits s) = s"
proof (induction s rule: encodeUnits.induct)
  case 1
  then show ?case by simp
next
  case (2 u us)
  show ?case
  proof (cases "isLead u")
    case True
    with "2.prems" obtain l rest where us: "us = l # rest" and t: "isTrail l" and w: "wellFormed rest"
      by (cases us) auto
    from "2.IH"(1)[OF True us t w] have ih: "decodeBytes (encodeUnits rest) = rest" .
    have "decodeBytes (encodeUnits (u # us))
        = decodeBytes (encodePoint (0x10000 + (u - 0xD800) * 1024 + (l - 0xDC00)) @ encodeUnits rest)"
      using True us t by simp
    also have "\<dots> = unitsOfPoint (0x10000 + (u - 0xD800) * 1024 + (l - 0xDC00)) @ decodeBytes (encodeUnits rest)"
      by (rule decode_point[OF pair_point[OF True t]])
    also have "\<dots> = u # us" using pair_units[OF True t] ih us by simp
    finally show ?thesis .
  next
    case False
    with "2.prems" have n: "\<not> isTrail u" and b: "u < 0x10000" and w: "wellFormed us" by simp_all
    from "2.IH"(4)[OF False n w] have ih: "decodeBytes (encodeUnits us) = us" .
    have p: "u < 0x110000" using b by simp
    have q: "\<not> (0xD800 \<le> u \<and> u < 0xE000)" using False n by (auto simp: isLead_def isTrail_def)
    have "decodeBytes (encodeUnits (u # us)) = decodeBytes (encodePoint u @ encodeUnits us)"
      using False n by simp
    also have "\<dots> = unitsOfPoint u @ decodeBytes (encodeUnits us)"
      by (rule decode_point[OF p q])
    also have "\<dots> = u # us" using b ih by (simp add: unitsOfPoint_def)
    finally show ?thesis .
  qed
qed

lemma encodePoint_bytes: "cp < 0x110000 \<Longrightarrow> \<forall>b\<in>set (encodePoint cp). b < 256"
proof -
  assume a: "cp < 0x110000"
  have "cp div 262144 < 5" using a by (simp add: less_mult_imp_div_less)
  moreover have "cp < 0x10000 \<Longrightarrow> cp div 4096 < 16" by (simp add: less_mult_imp_div_less)
  moreover have "cp < 0x800 \<Longrightarrow> cp div 64 < 32" by (simp add: less_mult_imp_div_less)
  moreover have "cp div 4096 mod 64 < 64" "cp div 64 mod 64 < 64" "cp mod 64 < 64" by simp_all
  ultimately show ?thesis by (auto simp: encodePoint_def)
qed

lemma encodeUnits_bytes: "wellFormed s \<Longrightarrow> \<forall>b\<in>set (encodeUnits s). b < 256"
proof (induction s rule: encodeUnits.induct)
  case 1
  then show ?case by simp
next
  case (2 u us)
  show ?case
  proof (cases "isLead u")
    case True
    with "2.prems" obtain l rest where us: "us = l # rest" and t: "isTrail l" and w: "wellFormed rest"
      by (cases us) auto
    from "2.IH"(1)[OF True us t w] encodePoint_bytes[OF pair_point(1)[OF True t]]
    show ?thesis using True us t by auto
  next
    case False
    with "2.prems" have n: "\<not> isTrail u" and b: "u < 0x10000" and w: "wellFormed us" by simp_all
    have p: "u < 0x110000" using b by simp
    from "2.IH"(4)[OF False n w] encodePoint_bytes[OF p]
    show ?thesis using False n by auto
  qed
qed

lemma utf8_roundtrip: "wellFormed s \<Longrightarrow> utf8Decode (utf8Encode s) = s"
proof -
  assume w: "wellFormed s"
  have "map of_char (map char_of (encodeUnits s)) = (encodeUnits s :: nat list)"
    using encodeUnits_bytes[OF w] by (simp add: map_idI)
  then show ?thesis using decodeBytes_encodeUnits[OF w] by (simp add: utf8Decode_def utf8Encode_def)
qed

text \<open>What \<open>decrypt\<close> returns for a ciphertext of \<open>encrypt\<close>, where the calls of the cipher
  and of Base64 keep their contracts: the plaintext as UTF-8 writes and reads it.\<close>

lemma decrypt_encrypt_decodes:
  assumes g: "gcmEncrypt lib key iv (utf8Encode x) = (encrypted, authTag)"
    and li: "length iv = IV_LENGTH"
    and lt: "length authTag = AUTH_TAG_LENGTH"
    and d: "gcmDecrypt lib key iv authTag encrypted = Some (utf8Encode x)"
    and b: "base64Decode lib (base64Encode lib (iv @ authTag @ encrypted)) = iv @ authTag @ encrypted"
    and c: "CHR '':'' \<notin> set (base64Encode lib (iv @ authTag @ encrypted))"
    and n: "base64Encode lib (iv @ authTag @ encrypted) \<noteq> []"
    and x: "x \<noteq> []"
  shows "decrypt lib key (Some (encrypt lib key iv (Some x))) = Inr (utf8Decode (utf8Encode x))"
proof -
  define body where "body = base64Encode lib (iv @ authTag @ encrypted)"
  have e: "encrypt lib key iv (Some x) = VERSION_PREFIX @ CHR '':'' # body"
    using x g by (simp add: encrypt_def body_def)
  have v: "CHR '':'' \<notin> set VERSION_PREFIX" by (simp add: VERSION_PREFIX_def)
  have sp: "splitOn CHR '':'' (VERSION_PREFIX @ CHR '':'' # body) = [VERSION_PREFIX, body]"
    using splitOn_once[OF v] c by (simp add: body_def)
  have ne: "VERSION_PREFIX @ CHR '':'' # body \<noteq> []" by simp
  have dec: "base64Decode lib body = iv @ authTag @ encrypted" using b by (simp add: body_def)
  have len: "\<not> length (iv @ authTag @ encrypted) < IV_LENGTH + AUTH_TAG_LENGTH"
    using li lt by simp
  have parts: "take IV_LENGTH (iv @ authTag @ encrypted) = iv"
    "take AUTH_TAG_LENGTH (drop IV_LENGTH (iv @ authTag @ encrypted)) = authTag"
    "drop (IV_LENGTH + AUTH_TAG_LENGTH) (iv @ authTag @ encrypted) = encrypted"
    using li lt by simp_all
  have bn: "body \<noteq> []" using n by (simp add: body_def)
  show ?thesis
    unfolding e decrypt_def
    using ne sp bn dec len parts d by (simp add: Let_def)
qed

text \<open>
  Claim C10, amended. \<open>decrypt\<close> returns what \<open>encrypt\<close> was given, for every key, every
  initialization vector \<open>iv\<close> and every string \<open>x\<close> without an unpaired surrogate, where the
  calls of the cipher and of Base64 made on the way keep their contracts: the cipher returns
  a tag of \<open>AUTH_TAG_LENGTH\<close> bytes and decrypts, under the same key, initialization vector and
  tag, what it encrypted; \<open>iv\<close> has \<open>IV_LENGTH\<close> bytes; Base64 decoding inverts the encoding of
  the combined buffer, whose text is not empty and has no colon in it. At the boundary,
  \<open>encrypt\<close> maps \<open>null\<close> and the empty string to the empty string, and \<open>decrypt\<close> maps the
  empty string (and \<open>null\<close>) to the empty string without an error.
\<close>

theorem decrypt_encrypt_roundtrip:
  assumes w: "wellFormed x"
    and g: "gcmEncrypt lib key iv (utf8Encode x) = (encrypted, authTag)"
    and li: "length iv = IV_LENGTH"
    and lt: "length authTag = AUTH_TAG_LENGTH"
    and d: "gcmDecrypt lib key iv authTag encrypted = Some (utf8Encode x)"
    and b: "base64Decode lib (base64Encode lib (iv @ authTag @ encrypted)) = iv @ authTag @ encrypted"
    and c: "CHR '':'' \<notin> set (base64Encode lib (iv @ authTag @ encrypted))"
    and n: "base64Encode lib (iv @ authTag @ encrypted) \<noteq> []"
  shows "decrypt lib key (Some (encrypt lib key iv (Some x))) = Inr x \<and>
         encrypt lib key iv None = [] \<and> encrypt lib key iv (Some []) = [] \<and>
         decrypt lib key (Some []) = Inr [] \<and> decrypt lib key None = Inr []"
proof -
  have bounds: "encrypt lib key iv None = [] \<and> encrypt lib key iv (Some []) = [] \<and>
         decrypt lib key (Some []) = Inr [] \<and> decrypt lib key None = Inr []"
    by (simp add: encrypt_def decrypt_def)
  have "decrypt lib key (Some (encrypt lib key iv (Some x))) = Inr x"
  proof (cases "x = []")
    case True
    then show ?thesis by (simp add: encrypt_def decrypt_def)
  next
    case False
    from decrypt_encrypt_decodes[OF g li lt d b c n False] utf8_roundtrip[OF w]
    show ?thesis by simp
  qed
  with bounds show ?thesis by blast
qed

theorem decrypt_encrypt_roundtrip_witness:
  "wellFormed tokA \<and>
   gcmEncrypt toyLib exampleKey exampleIv (utf8Encode tokA) = (''Akot'', ''################'') \<and>
   length exampleIv = IV_LENGTH \<and> length ''################'' = AUTH_TAG_LENGTH \<and>
   gcmDecrypt toyLib exampleKey exampleIv ''################'' ''Akot'' = Some (utf8Encode tokA) \<and>
   base64Decode toyLib (base64Encode toyLib (exampleIv @ ''################'' @ ''Akot''))
     = exampleIv @ ''################'' @ ''Akot'' \<and>
   CHR '':'' \<notin> set (base64Encode toyLib (exampleIv @ ''################'' @ ''Akot'')) \<and>
   base64Encode toyLib (exampleIv @ ''################'' @ ''Akot'') \<noteq> [] \<and>
   decrypt toyLib exampleKey (Some (encrypt toyLib exampleKey exampleIv (Some tokA))) = Inr tokA \<and>
   encrypt toyLib exampleKey exampleIv None = [] \<and> encrypt toyLib exampleKey exampleIv (Some []) = [] \<and>
   decrypt toyLib exampleKey (Some []) = Inr [] \<and> decrypt toyLib exampleKey None = Inr []"
proof -
  have w: "wellFormed tokA" by (simp add: tokA_def isLead_def isTrail_def)
  have g: "gcmEncrypt toyLib exampleKey exampleIv (utf8Encode tokA) = (''Akot'', ''################'')"
    by (simp add: token_defs)
  have li: "length exampleIv = IV_LENGTH" by (simp add: exampleIv_def IV_LENGTH_def)
  have lt: "length ''################'' = AUTH_TAG_LENGTH" by (simp add: AUTH_TAG_LENGTH_def)
  have d: "gcmDecrypt toyLib exampleKey exampleIv ''################'' ''Akot'' = Some (utf8Encode tokA)"
    by (simp add: token_defs)
  have b: "base64Decode toyLib (base64Encode toyLib (exampleIv @ ''################'' @ ''Akot''))
     = exampleIv @ ''################'' @ ''Akot''"
    by (simp add: token_defs)
  have c: "CHR '':'' \<notin> set (base64Encode toyLib (exampleIv @ ''################'' @ ''Akot''))"
    by (simp add: token_defs)
  have n: "base64Encode toyLib (exampleIv @ ''################'' @ ''Akot'') \<noteq> []"
    by (simp add: token_defs)
  from decrypt_encrypt_roundtrip[OF w g li lt d b c n] w g li lt d b c n show ?thesis by blast
qed

text \<open>An unpaired surrogate is written as the UTF-8 of U+FFFD, and read back as U+FFFD.\<close>

lemma utf8_unpaired_surrogate:
  "map of_char (utf8Encode [0xD800]) = [0xEF, 0xBF, 0xBD :: nat] \<and>
   utf8Decode (utf8Encode [0xD800]) = [0xFFFD]"
  by (simp add: utf8_defs char_of_def bit_Suc_0_iff)

text \<open>
  Claim C10 as stated fails for a string with an unpaired surrogate. The string of the one
  code unit D800 is written as the three bytes EF BF BD, the UTF-8 of U+FFFD, and these
  are what the cipher encrypts; \<open>decrypt\<close> returns the string of the one code unit FFFD.
  The cipher and Base64 keep their contracts on the way.
\<close>

theorem decrypt_encrypt_unpaired_surrogate:
  "loneSurrogate = [0xD800] \<and>
   map of_char (utf8Encode loneSurrogate) = [0xEF, 0xBF, 0xBD :: nat] \<and>
   gcmEncrypt toyLib exampleKey exampleIv (utf8Encode loneSurrogate)
     = (rev (utf8Encode loneSurrogate), ''################'') \<and>
   gcmDecrypt toyLib exampleKey exampleIv ''################'' (rev (utf8Encode loneSurrogate))
     = Some (utf8Encode loneSurrogate) \<and>
   encrypt toyLib exampleKey exampleIv (Some loneSurrogate)
     = ''v1:69696969696969696969696923232323232323232323232323232323bdbfef'' \<and>
   decrypt toyLib exampleKey (Some (encrypt toyLib exampleKey exampleIv (Some loneSurrogate)))
     = Inr [0xFFFD] \<and>
   loneSurrogate \<noteq> [0xFFFD]"
  supply TrueI [simproc del: let_simp]
  by (simp add: pv cong: let_weak_cong)

section \<open>The token broker\<close>

lemma updateAccount_fields [simp]:
  "db_results (updateAccount aid f db) = db_results db"
  "db_posts (updateAccount aid f db) = db_posts db"
  "db_calls (updateAccount aid f db) = db_calls db"
  by (simp_all add: updateAccount_def)

lemma updatePost_fields [simp]:
  "db_results (updatePost pid f db) = db_results db"
  "db_accounts (updatePost pid f db) = db_accounts db"
  "db_calls (updatePost pid f db) = db_calls db"
  by (simp_all add: updatePost_def)

lemma upsertResult_fields [simp]:
  "db_posts (upsertResult pid aid f db) = db_posts db"
  "db_accounts (upsertResult pid aid f db) = db_accounts db"
  "db_calls (upsertResult pid aid f db) = db_calls db"
  by (simp_all add: upsertResult_def Let_def)

lemma find_updateFirst:
  "find P xs = Some x \<Longrightarrow> P (f x) \<Longrightarrow> find P (updateFirst P f xs) = Some (f x)"
  by (induction xs) (auto split: if_splits)

lemma find_holds: "find P xs = Some x \<Longrightarrow> P x"
  by (induction xs) (auto split: if_splits)

text \<open>
  Claim C6, amended. For an account that is \<open>active\<close> or \<open>expired\<close>, whose token expiry lies
  within the five minutes before \<open>now\<close> or earlier, that has no stored refresh token, and
  whose stored access token decrypts, \<open>getValidAccessToken\<close> throws the error with code
  \<open>TOKEN_EXPIRED\<close>, which is not retryable, writes the status \<open>expired\<close> with the error code
  \<open>NO_REFRESH_TOKEN\<close> on the account, and calls no operation of the provider.
\<close>

theorem getValidAccessToken_expired_without_refresh_token:
  assumes f: "find (\<lambda>a. acc_id a = aid) (db_accounts db) = Some account"
    and s: "acc_status account = AccActive \<or> acc_status account = AccExpired"
    and x: "acc_tokenExpiresAt account = Some expiresAt"
    and b: "expiresAt - 5 * 60 * 1000 \<le> now"
    and r: "\<not> truthy (acc_refreshToken account)"
    and d: "ts_decrypt ts (acc_accessToken account) = Inr tok"
  shows "snd (getValidAccessToken reg ts now db aid)
           = Inl (codedError ''TOKEN_EXPIRED'' ''Token expired and no refresh token'') \<and>
         \<not> errRetryable (codedError ''TOKEN_EXPIRED'' ''Token expired and no refresh token'') \<and>
         find (\<lambda>a. acc_id a = aid) (db_accounts (fst (getValidAccessToken reg ts now db aid)))
           = Some (account\<lparr>acc_status := AccExpired, acc_lastErrorAt := Some now,
                           acc_lastErrorCode := Some ''NO_REFRESH_TOKEN''\<rparr>) \<and>
         db_calls (fst (getValidAccessToken reg ts now db aid)) = db_calls db"
proof -
  from s have s': "\<not> (acc_status account \<noteq> AccActive \<and> acc_status account \<noteq> AccExpired)"
    by blast
  have g: "getValidAccessToken reg ts now db aid
      = (markNoRefreshToken now account db,
         Inl (codedError ''TOKEN_EXPIRED'' ''Token expired and no refresh token''))"
    using f s x b r d by (auto simp: getValidAccessToken_def Let_def)
  have i: "acc_id account = aid" using find_holds[OF f] .
  have "find (\<lambda>a. acc_id a = aid) (db_accounts (markNoRefreshToken now account db))
      = Some (account\<lparr>acc_status := AccExpired, acc_lastErrorAt := Some now,
                      acc_lastErrorCode := Some ''NO_REFRESH_TOKEN''\<rparr>)"
    unfolding markNoRefreshToken_def updateAccount_def i
    using find_updateFirst[OF f, of "\<lambda>a. a\<lparr>acc_status := AccExpired, acc_lastErrorAt := Some now,
            acc_lastErrorCode := Some ''NO_REFRESH_TOKEN''\<rparr>"] i
    by simp
  then show ?thesis
    by (simp add: g markNoRefreshToken_def errRetryable_def codedError_def)
qed

theorem getValidAccessToken_expired_without_refresh_token_witness:
  "find (\<lambda>a. acc_id a = 5) (db_accounts (expiredDb sealedA))
     = Some (accountWith 5 sealedA (Some 0) AccActive) \<and>
   (acc_status (accountWith 5 sealedA (Some 0) AccActive) = AccActive \<or>
    acc_status (accountWith 5 sealedA (Some 0) AccActive) = AccExpired) \<and>
   acc_tokenExpiresAt (accountWith 5 sealedA (Some 0) AccActive) = Some 0 \<and>
   (0::int) - 5 * 60 * 1000 \<le> 1709539200000 \<and>
   \<not> truthy (acc_refreshToken (accountWith 5 sealedA (Some 0) AccActive)) \<and>
   ts_decrypt vault (acc_accessToken (accountWith 5 sealedA (Some 0) AccActive)) = Inr ''tokA'' \<and>
   snd (getValidAccessToken exampleRegistry vault 1709539200000 (expiredDb sealedA) 5)
     = Inl (codedError ''TOKEN_EXPIRED'' ''Token expired and no refresh token'') \<and>
   \<not> errRetryable (codedError ''TOKEN_EXPIRED'' ''Token expired and no refresh token'') \<and>
   find (\<lambda>a. acc_id a = 5)
     (db_accounts (fst (getValidAccessToken exampleRegistry vault 1709539200000 (expiredDb sealedA) 5)))
     = Some ((accountWith 5 sealedA (Some 0) AccActive)
               \<lparr>acc_status := AccExpired, acc_lastErrorAt := Some 1709539200000,
                 acc_lastErrorCode := Some ''NO_REFRESH_TOKEN''\<rparr>) \<and>
   db_calls (fst (getValidAccessToken exampleRegistry vault 1709539200000 (expiredDb sealedA) 5))
     = db_calls (expiredDb sealedA)"
proof -
  have f: "find (\<lambda>a. acc_id a = 5) (db_accounts (expiredDb sealedA))
     = Some (accountWith 5 sealedA (Some 0) AccActive)"
    by (simp add: expiredDb_def accountWith_def)
  have s: "acc_status (accountWith 5 sealedA (Some 0) AccActive) = AccActive \<or>
    acc_status (accountWith 5 sealedA (Some 0) AccActive) = AccExpired"
    by (simp add: accountWith_def)
  have x: "acc_tokenExpiresAt (accountWith 5 sealedA (Some 0) AccActive) = Some 0"
    by (simp add: accountWith_def)
  have b: "(0::int) - 5 * 60 * 1000 \<le> 1709539200000" by simp
  have r: "\<not> truthy (acc_refreshToken (accountWith 5 sealedA (Some 0) AccActive))"
    by (simp add: accountWith_def truthy_def)
  have d: "ts_decrypt vault (acc_accessToken (accountWith 5 sealedA (Some 0) AccActive)) = Inr ''tokA''"
    supply TrueI [simproc del: let_simp]
    by (simp add: pv cong: let_weak_cong)
  from getValidAccessToken_expired_without_refresh_token[OF f s x b r d, of exampleRegistry]
    f s x b r d
  show ?thesis by blast
qed

text \<open>
  The stored access token is decrypted before the refresh token is looked at. For an
  account as in the claim whose stored access token is not a ciphertext of the token
  service, the error of \<open>decrypt\<close> is thrown, which has no code, and the account stays
  \<open>active\<close>.
\<close>

theorem getValidAccessToken_undecryptable_token:
  "acc_status (accountWith 5 ''garbage'' (Some 0) AccActive) = AccActive \<and>
   acc_tokenExpiresAt (accountWith 5 ''garbage'' (Some 0) AccActive) = Some 0 \<and>
   acc_refreshToken (accountWith 5 ''garbage'' (Some 0) AccActive) = None \<and>
   getValidAccessToken exampleRegistry vault 1709539200000 (expiredDb ''garbage'') 5
     = (expiredDb ''garbage'', Inl (plainError ''Invalid token ciphertext format'')) \<and>
   map acc_status (db_accounts (expiredDb ''garbage'')) = [AccActive] \<and>
   errCode (plainError ''Invalid token ciphertext format'') = None"
  supply TrueI [simproc del: let_simp]
  by (simp add: pv cong: let_weak_cong)

section \<open>The publish service and the publish job\<close>

text \<open>A rate-limit error is neither an \<open>OAuthError\<close> nor an error with the code
  \<open>TOKEN_EXPIRED\<close>; the token broker and the attempts leave the posts as they are.\<close>

lemma rateLimit_name: "isRateLimit e \<Longrightarrow> errName e \<noteq> ''OAuthError''"
  by (simp add: isRateLimit_def errName_def)

lemma rateLimit_code: "isRateLimit e \<Longrightarrow> errCode e \<noteq> Some ''TOKEN_EXPIRED''"
  by (simp add: isRateLimit_def errCode_def)

lemma refreshAccessToken_keeps:
  "db_results (fst (refreshAccessToken reg ts now db account tok)) = db_results db \<and>
   db_posts (fst (refreshAccessToken reg ts now db account tok)) = db_posts db"
  by (simp add: refreshAccessToken_def storeRefreshed_def markRefreshRefused_def Let_def
      split: option.splits sum.splits)

lemma getValidAccessToken_keeps:
  "db_results (fst (getValidAccessToken reg ts now db aid)) = db_results db \<and>
   db_posts (fst (getValidAccessToken reg ts now db aid)) = db_posts db"
  by (simp add: getValidAccessToken_def refreshAccessToken_keeps markNoRefreshToken_def Let_def
      split: option.splits sum.splits)

lemma codedError_not_rateLimit [simp]: "\<not> isRateLimit (codedError c m)"
  by (simp add: isRateLimit_def codedError_def)

lemma tokenFailure_rate_limit: "isRateLimit err \<Longrightarrow> tokenFailure p a db err = (db, Inl err)"
  by (simp add: tokenFailure_def rateLimit_name rateLimit_code)

lemma tokenFailure_Inl: "snd (tokenFailure p a db err) = Inl err"
  by (simp add: tokenFailure_def)

lemma tokenFailure_keeps:
  "db_posts (fst (tokenFailure p a db err)) = db_posts db \<and>
   db_accounts (fst (tokenFailure p a db err)) = db_accounts db \<and>
   db_calls (fst (tokenFailure p a db err)) = db_calls db"
  by (simp add: tokenFailure_def)

lemma publishWithToken_rate_limit:
  assumes "publishWithToken prov p account a db tok = (db', Inl err)" and "isRateLimit err"
  shows "db_results db' = db_results db"
proof (cases "prov_publishPost prov tok (buildPayload p a) (acc_pageId account)")
  case (Inr r)
  with assms show ?thesis by (simp add: publishWithToken_def)
next
  case (Inl e)
  with assms show ?thesis by (auto simp: publishWithToken_def split: if_splits)
qed

lemma publishWithToken_keeps:
  "db_posts (fst (publishWithToken prov p account a db tok)) = db_posts db \<and>
   db_accounts (fst (publishWithToken prov p account a db tok)) = db_accounts db \<and>
   db_calls (fst (publishWithToken prov p account a db tok))
     = db_calls db @ [PublishCall a tok (buildPayload p a)]"
  by (simp add: publishWithToken_def split: sum.splits)

text \<open>The ways through \<open>publishPostToAccount\<close>: an early error, a failure of the token
  broker, or the call of the adapter.\<close>

lemma publishPostToAccount_cases:
  obtains (early) c m where "publishPostToAccount reg ts now db pid a = (db, Inl (codedError c m))"
  | (token) p account prov db1 err where
      "find (\<lambda>p. post_id p = pid) (db_posts db) = Some p"
      "find (\<lambda>x. acc_id x = a) (db_accounts db) = Some account"
      "reg (acc_platform account) = Some prov"
      "getValidAccessToken reg ts now db a = (db1, Inl err)"
      "publishPostToAccount reg ts now db pid a = tokenFailure p a db1 err"
  | (publish) p account prov db1 tok where
      "find (\<lambda>p. post_id p = pid) (db_posts db) = Some p"
      "find (\<lambda>x. acc_id x = a) (db_accounts db) = Some account"
      "reg (acc_platform account) = Some prov"
      "getValidAccessToken reg ts now db a = (db1, Inr tok)"
      "publishPostToAccount reg ts now db pid a = publishWithToken prov p account a db1 tok"
proof (cases "find (\<lambda>p. post_id p = pid) (db_posts db)")
  case None
  then have "publishPostToAccount reg ts now db pid a
      = (db, Inl (codedError ''POST_NOT_FOUND'' ''Post not found''))"
    by (auto simp: publishPostToAccount_def)
  then show ?thesis by (rule early)
next
  case p: (Some p)
  show ?thesis
  proof (cases "publishable (post_status p)")
    case False
    with p have "publishPostToAccount reg ts now db pid a
      = (db, Inl (codedError ''INVALID_POST_STATE''
               (''Post not in publishable status: '' @ postStatusName (post_status p))))"
      by (auto simp: publishPostToAccount_def)
    then show ?thesis by (rule early)
  next
    case pub: True
    show ?thesis
    proof (cases "find (\<lambda>x. acc_id x = a) (db_accounts db)")
      case None
      with p pub have "publishPostToAccount reg ts now db pid a
        = (db, Inl (codedError ''ACCOUNT_NOT_FOUND'' ''Social account not found''))"
        by (auto simp: publishPostToAccount_def)
      then show ?thesis by (rule early)
    next
      case acc: (Some account)
      show ?thesis
      proof (cases "acc_status account \<noteq> AccActive \<and> acc_status account \<noteq> AccExpired")
        case True
        with p pub acc have "publishPostToAccount reg ts now db pid a
          = (db, Inl (codedError ''ACCOUNT_NOT_ACTIVE''
                   (''Account not publishable: '' @ accountStatusName (acc_status account))))"
          by (auto simp: publishPostToAccount_def)
        then show ?thesis by (rule early)
      next
        case st: False
        show ?thesis
        proof (cases "reg (acc_platform account)")
          case None
          with p pub acc st have "publishPostToAccount reg ts now db pid a
            = (db, Inl (codedError ''UNKNOWN_PROVIDER''
                     (''No provider for platform: '' @ acc_platform account)))"
            by (auto simp: publishPostToAccount_def)
          then show ?thesis by (rule early)
        next
          case prov: (Some prov)
          obtain db1 r where g: "getValidAccessToken reg ts now db a = (db1, r)"
            by (cases "getValidAccessToken reg ts now db a")
          show ?thesis
          proof (cases r)
            case (Inl err)
            with p pub acc st prov g
            have "publishPostToAccount reg ts now db pid a = tokenFailure p a db1 err"
              by (auto simp: publishPostToAccount_def)
            with p acc prov g Inl show ?thesis using token by blast
          next
            case (Inr tok)
            with p pub acc st prov g
            have "publishPostToAccount reg ts now db pid a = publishWithToken prov p account a db1 tok"
              by (auto simp: publishPostToAccount_def)
            with p acc prov g Inr show ?thesis using publish by blast
          qed
        qed
      qed
    qed
  qed
qed

lemma publishPostToAccount_rate_limit:
  assumes r: "publishPostToAccount reg ts now db pid a = (db', Inl err)" and l: "isRateLimit err"
  shows "db_results db' = db_results db \<and> db_posts db' = db_posts db"
proof (cases rule: publishPostToAccount_cases[of reg ts now db pid a])
  case (early c m)
  with r l show ?thesis by simp
next
  case (token p account prov db1 e)
  from token(5) r have t: "tokenFailure p a db1 e = (db', Inl err)" by simp
  from t tokenFailure_Inl[of p a db1 e] have e: "e = err" by simp
  from t tokenFailure_rate_limit[OF l, of p a db1] e have "db' = db1" by simp
  with getValidAccessToken_keeps[of reg ts now db a] token(4) show ?thesis by simp
next
  case (publish p account prov db1 tok)
  from publish(5) r have w: "publishWithToken prov p account a db1 tok = (db', Inl err)" by simp
  from publishWithToken_rate_limit[OF w l] publishWithToken_keeps[of prov p account a db1 tok] w
    getValidAccessToken_keeps[of reg ts now db a] publish(4)
  show ?thesis by simp
qed

lemma publishPostToAccount_posts:
  "db_posts (fst (publishPostToAccount reg ts now db pid a)) = db_posts db"
proof (cases rule: publishPostToAccount_cases[of reg ts now db pid a])
  case (early c m)
  then show ?thesis by simp
next
  case (token p account prov db1 e)
  with tokenFailure_keeps[of p a db1 e] getValidAccessToken_keeps[of reg ts now db a]
  show ?thesis by simp
next
  case (publish p account prov db1 tok)
  with publishWithToken_keeps[of prov p account a db1 tok]
    getValidAccessToken_keeps[of reg ts now db a]
  show ?thesis by simp
qed

lemma publishLoop_deferred:
  "publishLoop reg ts now db pid accts s le = (db', s', le', Some err) \<Longrightarrow>
   \<exists>pre b rest db1.
     accts = pre @ b # rest \<and>
     publishLoop reg ts now db pid pre s le = (db1, s', le', None) \<and>
     publishPostToAccount reg ts now db1 pid b = (db', Inl err) \<and> isRateLimit err"
proof (induction accts arbitrary: db s le)
  case Nil
  then show ?case by simp
next
  case (Cons a accts)
  obtain d1 r where p: "publishPostToAccount reg ts now db pid a = (d1, r)"
    by (cases "publishPostToAccount reg ts now db pid a")
  show ?case
  proof (cases r)
    case (Inr ok)
    with p Cons.prems have "publishLoop reg ts now d1 pid accts True le = (db', s', le', Some err)"
      by simp
    from Cons.IH[OF this] obtain pre b rest db1 where
      h: "accts = pre @ b # rest" "publishLoop reg ts now d1 pid pre True le = (db1, s', le', None)"
        "publishPostToAccount reg ts now db1 pid b = (db', Inl err)" "isRateLimit err"
      by blast
    from h(2) p Inr have "publishLoop reg ts now db pid (a # pre) s le = (db1, s', le', None)"
      by simp
    with h(1,3,4) show ?thesis
      by (metis append_Cons)
  next
    case (Inl e)
    show ?thesis
    proof (cases "isRateLimit e")
      case True
      with p Inl Cons.prems have "d1 = db'" "s = s'" "le = le'" "e = err" by simp_all
      with p Inl True have
        "a # accts = [] @ a # accts \<and>
         publishLoop reg ts now db pid [] s le = (db, s', le', None) \<and>
         publishPostToAccount reg ts now db pid a = (db', Inl err) \<and> isRateLimit err"
        by simp
      then show ?thesis by blast
    next
      case False
      with p Inl Cons.prems
      have "publishLoop reg ts now d1 pid accts s (Some e) = (db', s', le', Some err)"
        by simp
      from Cons.IH[OF this] obtain pre b rest db1 where
        h: "accts = pre @ b # rest"
          "publishLoop reg ts now d1 pid pre s (Some e) = (db1, s', le', None)"
          "publishPostToAccount reg ts now db1 pid b = (db', Inl err)" "isRateLimit err"
        by blast
      from h(2) p Inl False
      have "publishLoop reg ts now db pid (a # pre) s le = (db1, s', le', None)"
        by simp
      with h(1,3,4) show ?thesis
        by (metis append_Cons)
    qed
  qed
qed

lemma publishLoop_posts:
  "publishLoop reg ts now db pid accts s le = (db', x) \<Longrightarrow> db_posts db' = db_posts db"
proof (induction accts arbitrary: db s le)
  case Nil
  then show ?case by simp
next
  case (Cons a accts)
  obtain d1 r where p: "publishPostToAccount reg ts now db pid a = (d1, r)"
    by (cases "publishPostToAccount reg ts now db pid a")
  from publishPostToAccount_posts[of reg ts now db pid a] p have d: "db_posts d1 = db_posts db"
    by simp
  show ?case
  proof (cases r)
    case (Inr ok)
    with p Cons.prems have "publishLoop reg ts now d1 pid accts True le = (db', x)" by simp
    from Cons.IH[OF this] d show ?thesis by simp
  next
    case (Inl e)
    show ?thesis
    proof (cases "isRateLimit e")
      case True
      with p Inl Cons.prems have "d1 = db'" by simp
      with d show ?thesis by simp
    next
      case False
      with p Inl Cons.prems have "publishLoop reg ts now d1 pid accts s (Some e) = (db', x)"
        by simp
      from Cons.IH[OF this] d show ?thesis by simp
    qed
  qed
qed

lemma publishLoop_completed:
  "publishLoop reg ts now db pid accts s le = (db', s', le', None) \<Longrightarrow>
   s' = (s \<or> anySucceeded (passOutcomes reg ts now db pid accts)) \<and>
   le' = (if failuresOf (passOutcomes reg ts now db pid accts) = [] then le
          else Some (last (failuresOf (passOutcomes reg ts now db pid accts)))) \<and>
   length (passOutcomes reg ts now db pid accts) = length accts"
proof (induction accts arbitrary: db s le)
  case Nil
  then show ?case by (simp add: anySucceeded_def)
next
  case (Cons a accts)
  obtain d1 r where p: "publishPostToAccount reg ts now db pid a = (d1, r)"
    by (cases "publishPostToAccount reg ts now db pid a")
  show ?case
  proof (cases r)
    case (Inr ok)
    with p Cons.prems have "publishLoop reg ts now d1 pid accts True le = (db', s', le', None)"
      by simp
    from Cons.IH[OF this] p Inr show ?thesis by (simp add: anySucceeded_def)
  next
    case (Inl e)
    show ?thesis
    proof (cases "isRateLimit e")
      case True
      with p Inl Cons.prems show ?thesis by simp
    next
      case False
      with p Inl Cons.prems
      have "publishLoop reg ts now d1 pid accts s (Some e) = (db', s', le', None)" by simp
      from Cons.IH[OF this] p Inl show ?thesis by (simp add: anySucceeded_def)
    qed
  qed
qed

lemma all_failed_nonempty:
  "\<not> anySucceeded outs \<Longrightarrow> outs \<noteq> [] \<Longrightarrow> failuresOf outs \<noteq> []"
  by (induction outs rule: failuresOf.induct) (simp_all add: anySucceeded_def)

lemma find_updatePost:
  "find (\<lambda>p. post_id p = pid) (db_posts db) = Some p \<Longrightarrow> post_id (f p) = pid \<Longrightarrow>
   find (\<lambda>p. post_id p = pid) (db_posts (updatePost pid f db)) = Some (f p)"
  by (simp add: updatePost_def find_updateFirst)

text \<open>
  Claim C4, amended. When \<open>publishPost\<close> returns without throwing, for a post with at
  least one target account, the status of the post is \<open>published\<close> if an attempt of the
  pass succeeded and \<open>failed\<close> otherwise; in the latter case at least one attempt failed,
  and the code and the message written on the post are those of the last failure in
  account order (\<open>lastError\<close> is overwritten by each failure), with \<open>PUBLISH_FAILED\<close> and
  \<open>Publish failed\<close> in place of a missing code and of an empty message.
\<close>

theorem publishPost_final_status:
  assumes r: "publishPost reg ts now db pid = (db', None)"
    and f: "find (\<lambda>p. post_id p = pid) (db_posts db) = Some p"
    and n: "post_socialAccountIds p \<noteq> []"
  shows "\<exists>p'. find (\<lambda>p. post_id p = pid) (db_posts db') = Some p' \<and>
           post_status p' =
             (if anySucceeded (passOutcomes reg ts now
                    (updatePost pid (\<lambda>q. q\<lparr>post_status := PostPublishing\<rparr>) db) pid
                    (post_socialAccountIds p))
              then PostPublished else PostFailed) \<and>
           (\<not> anySucceeded (passOutcomes reg ts now
                    (updatePost pid (\<lambda>q. q\<lparr>post_status := PostPublishing\<rparr>) db) pid
                    (post_socialAccountIds p)) \<longrightarrow>
              failuresOf (passOutcomes reg ts now
                    (updatePost pid (\<lambda>q. q\<lparr>post_status := PostPublishing\<rparr>) db) pid
                    (post_socialAccountIds p)) \<noteq> [] \<and>
              post_failureCode p' =
                Some (orDefault (errCode (last (failuresOf (passOutcomes reg ts now
                    (updatePost pid (\<lambda>q. q\<lparr>post_status := PostPublishing\<rparr>) db) pid
                    (post_socialAccountIds p))))) ''PUBLISH_FAILED'') \<and>
              post_failureReason p' =
                Some (orDefault (Some (err_message (last (failuresOf (passOutcomes reg ts now
                    (updatePost pid (\<lambda>q. q\<lparr>post_status := PostPublishing\<rparr>) db) pid
                    (post_socialAccountIds p)))))) ''Publish failed''))"
proof -
  define db0 where "db0 = updatePost pid (\<lambda>q. q\<lparr>post_status := PostPublishing\<rparr>) db"
  define outs where "outs = passOutcomes reg ts now db0 pid (post_socialAccountIds p)"
  obtain db1 s le rl where
    l: "publishLoop reg ts now db0 pid (post_socialAccountIds p) False None = (db1, s, le, rl)"
    by (cases "publishLoop reg ts now db0 pid (post_socialAccountIds p) False None") auto
  from r f n l have rl: "rl = None"
    by (cases rl) (simp_all add: publishPost_def db0_def Let_def)
  from publishLoop_completed[OF l[unfolded rl]] have
    s: "s = anySucceeded outs" and
    le: "le = (if failuresOf outs = [] then None else Some (last (failuresOf outs)))" and
    len: "length outs = length (post_socialAccountIds p)"
    by (simp_all add: outs_def)
  have i: "post_id p = pid" using find_holds[OF f] .
  have f0: "find (\<lambda>p. post_id p = pid) (db_posts db0) = Some (p\<lparr>post_status := PostPublishing\<rparr>)"
    unfolding db0_def using find_updatePost[OF f] i by simp
  have "db_posts db1 = db_posts db0" using publishLoop_posts[OF l] .
  with f0 have f1: "find (\<lambda>p. post_id p = pid) (db_posts db1) = Some (p\<lparr>post_status := PostPublishing\<rparr>)"
    by simp
  have ne: "outs \<noteq> []" using len n by auto
  show ?thesis
  proof (cases "anySucceeded outs")
    case True
    with r f n l rl s have
      "db' = updatePost pid (\<lambda>q. q\<lparr>post_status := PostPublished, post_publishedAt := Some now\<rparr>) db1"
      by (simp add: publishPost_def db0_def Let_def)
    with find_updatePost[OF f1, of "\<lambda>q. q\<lparr>post_status := PostPublished, post_publishedAt := Some now\<rparr>"] i True
    show ?thesis unfolding outs_def[symmetric] db0_def[symmetric] by simp
  next
    case False
    from all_failed_nonempty[OF False ne] have fne: "failuresOf outs \<noteq> []" .
    with le have le': "le = Some (last (failuresOf outs))" by simp
    define upd :: "post \<Rightarrow> post" where "upd = (\<lambda>q. q\<lparr>post_status := PostFailed,
                post_failureReason := Some (orDefault (Some (err_message (last (failuresOf outs)))) ''Publish failed''),
                post_failureCode := Some (orDefault (errCode (last (failuresOf outs))) ''PUBLISH_FAILED'')\<rparr>)"
    from r f n l rl s False le' have "db' = updatePost pid upd db1"
      by (simp add: publishPost_def db0_def Let_def upd_def)
    with find_updatePost[OF f1, of upd] i False fne
    show ?thesis unfolding outs_def[symmetric] db0_def[symmetric] by (simp add: upd_def)
  qed
qed

theorem publishPost_final_status_witness:
  "publishPost exampleRegistry vault 1709539200000 failingDb 1
     = (fst (publishPost exampleRegistry vault 1709539200000 failingDb 1), None) \<and>
   find (\<lambda>p. post_id p = 1) (db_posts failingDb) = Some (postTo [3, 4]) \<and>
   post_socialAccountIds (postTo [3, 4]) \<noteq> [] \<and>
   \<not> anySucceeded (passOutcomes exampleRegistry vault 1709539200000
               (updatePost 1 (\<lambda>q. q\<lparr>post_status := PostPublishing\<rparr>) failingDb) 1
               (post_socialAccountIds (postTo [3, 4]))) \<and>
   (\<exists>p'. find (\<lambda>p. post_id p = 1)
            (db_posts (fst (publishPost exampleRegistry vault 1709539200000 failingDb 1))) = Some p' \<and>
      post_status p' =
        (if anySucceeded (passOutcomes exampleRegistry vault 1709539200000
               (updatePost 1 (\<lambda>q. q\<lparr>post_status := PostPublishing\<rparr>) failingDb) 1
               (post_socialAccountIds (postTo [3, 4])))
         then PostPublished else PostFailed) \<and>
      (\<not> anySucceeded (passOutcomes exampleRegistry vault 1709539200000
               (updatePost 1 (\<lambda>q. q\<lparr>post_status := PostPublishing\<rparr>) failingDb) 1
               (post_socialAccountIds (postTo [3, 4]))) \<longrightarrow>
         failuresOf (passOutcomes exampleRegistry vault 1709539200000
               (updatePost 1 (\<lambda>q. q\<lparr>post_status := PostPublishing\<rparr>) failingDb) 1
               (post_socialAccountIds (postTo [3, 4]))) \<noteq> [] \<and>
         post_failureCode p' =
           Some (orDefault (errCode (last (failuresOf (passOutcomes exampleRegistry vault 1709539200000
               (updatePost 1 (\<lambda>q. q\<lparr>post_status := PostPublishing\<rparr>) failingDb) 1
               (post_socialAccountIds (postTo [3, 4])))))) ''PUBLISH_FAILED'') \<and>
         post_failureReason p' =
           Some (orDefault (Some (err_message (last (failuresOf (passOutcomes exampleRegistry vault 1709539200000
               (updatePost 1 (\<lambda>q. q\<lparr>post_status := PostPublishing\<rparr>) failingDb) 1
               (post_socialAccountIds (postTo [3, 4]))))))) ''Publish failed'')))"
proof -
  have e: "snd (publishPost exampleRegistry vault 1709539200000 failingDb 1) = None"
    supply TrueI [simproc del: let_simp]
    by (simp add: pv cong: let_weak_cong)
  then have r: "publishPost exampleRegistry vault 1709539200000 failingDb 1
     = (fst (publishPost exampleRegistry vault 1709539200000 failingDb 1), None)"
    by (metis prod.collapse)
  have f: "find (\<lambda>p. post_id p = 1) (db_posts failingDb) = Some (postTo [3, 4])"
    by (simp add: failingDb_def postTo_def)
  have n: "post_socialAccountIds (postTo [3, 4]) \<noteq> []" by (simp add: postTo_def)
  have a: "\<not> anySucceeded (passOutcomes exampleRegistry vault 1709539200000
               (updatePost 1 (\<lambda>q. q\<lparr>post_status := PostPublishing\<rparr>) failingDb) 1
               (post_socialAccountIds (postTo [3, 4])))"
    supply TrueI [simproc del: let_simp]
    by (simp add: pv cong: let_weak_cong)
  from publishPost_final_status[OF r f n] r f n a show ?thesis by blast
qed

text \<open>
  The first account of the post is revoked and the second one does not exist: the pass
  fails on the first one with \<open>ACCOUNT_NOT_ACTIVE\<close> and on the second one with
  \<open>ACCOUNT_NOT_FOUND\<close>, and it is the second error that is written on the post.
\<close>

theorem publishPost_records_last_failure:
  "map post_socialAccountIds (db_posts failingDb) = [[3, 4]] \<and>
   publishPostToAccount exampleRegistry vault 1709539200000 (inProgress 1 failingDb) 1 3
     = (inProgress 1 failingDb,
        Inl (codedError ''ACCOUNT_NOT_ACTIVE'' ''Account not publishable: revoked'')) \<and>
   publishPostToAccount exampleRegistry vault 1709539200000 (inProgress 1 failingDb) 1 4
     = (inProgress 1 failingDb,
        Inl (codedError ''ACCOUNT_NOT_FOUND'' ''Social account not found'')) \<and>
   snd (publishPost exampleRegistry vault 1709539200000 failingDb 1) = None \<and>
   map post_status (db_posts (fst (publishPost exampleRegistry vault 1709539200000 failingDb 1)))
     = [PostFailed] \<and>
   map post_failureCode (db_posts (fst (publishPost exampleRegistry vault 1709539200000 failingDb 1)))
     = [Some ''ACCOUNT_NOT_FOUND''] \<and>
   map post_failureReason (db_posts (fst (publishPost exampleRegistry vault 1709539200000 failingDb 1)))
     = [Some ''Social account not found'']"
  supply TrueI [simproc del: let_simp]
  by (simp add: pv cong: let_weak_cong)

text \<open>
  Claim C3. When \<open>publishPost\<close> throws a rate-limit error, the accounts of the post are
  \<open>pre @ b # rest\<close>, where the loop went through \<open>pre\<close> without a rate limit and the attempt
  for \<open>b\<close> threw the error. That attempt recorded no publish result; nothing was attempted
  for \<open>rest\<close>: the store that \<open>publishPost\<close> leaves is the one left by the attempt for \<open>b\<close>
  with the status of the post set back to \<open>scheduled\<close>, and the provider calls are those made
  up to that attempt. The job is then moved to the delayed set, with the timestamp
  \<open>Date.now()\<close> plus the delay of the error, 1000 ms for each second of its
  \<open>retryAfterSeconds\<close>, or 60 seconds when that is missing or 0; it neither completes nor
  fails.
\<close>

theorem publishPost_rate_limit_defers_item:
  assumes r: "publishPost reg ts now db pid = (db', Some err)" and l: "isRateLimit err"
  shows "\<exists>p pre b rest db1 s1 le1 db2.
           find (\<lambda>p. post_id p = pid) (db_posts db) = Some p \<and>
           post_socialAccountIds p = pre @ b # rest \<and>
           publishLoop reg ts now (updatePost pid (\<lambda>q. q\<lparr>post_status := PostPublishing\<rparr>) db)
             pid pre False None = (db1, s1, le1, None) \<and>
           publishPostToAccount reg ts now db1 pid b = (db2, Inl err) \<and>
           db_results db2 = db_results db1 \<and>
           db' = updatePost pid (\<lambda>q. q\<lparr>post_status := PostScheduled\<rparr>) db2 \<and>
           find (\<lambda>p. post_id p = pid) (db_posts db') = Some (p\<lparr>post_status := PostScheduled\<rparr>) \<and>
           db_calls db' = db_calls db2 \<and>
           processPublishJob reg ts now dateNow db (Some pid)
             = (db', JobDelayed (dateNow + delayMs err)) \<and>
           delayMs err =
             (case retryAfterSeconds err of
                None \<Rightarrow> 60 * 1000
              | Some s \<Rightarrow> if s = 0 then 60 * 1000 else s * 1000)"
proof (cases "find (\<lambda>p. post_id p = pid) (db_posts db)")
  case None
  with r l show ?thesis by (auto simp: publishPost_def)
next
  case (Some p)
  define db0 where "db0 = updatePost pid (\<lambda>q. q\<lparr>post_status := PostPublishing\<rparr>) db"
  have n: "post_socialAccountIds p \<noteq> []"
    using r Some by (auto simp: publishPost_def Let_def)
  obtain dbl s le rl where
    lp: "publishLoop reg ts now db0 pid (post_socialAccountIds p) False None = (dbl, s, le, rl)"
    by (cases "publishLoop reg ts now db0 pid (post_socialAccountIds p) False None") auto
  from r Some n lp have rl: "rl = Some err"
    by (cases rl) (simp_all add: publishPost_def db0_def Let_def split: if_splits)
  from r Some n lp rl have d: "db' = updatePost pid (\<lambda>q. q\<lparr>post_status := PostScheduled\<rparr>) dbl"
    by (simp add: publishPost_def db0_def Let_def)
  from publishLoop_deferred[OF lp[unfolded rl]] obtain pre b rest db1 where
    h: "post_socialAccountIds p = pre @ b # rest"
      "publishLoop reg ts now db0 pid pre False None = (db1, s, le, None)"
      "publishPostToAccount reg ts now db1 pid b = (dbl, Inl err)"
    by blast
  from publishPostToAccount_rate_limit[OF h(3) l] have k: "db_results dbl = db_results db1"
    by simp
  have i: "post_id p = pid" using find_holds[OF Some] .
  have f0: "find (\<lambda>p. post_id p = pid) (db_posts db0) = Some (p\<lparr>post_status := PostPublishing\<rparr>)"
    unfolding db0_def using find_updatePost[OF Some] i by simp
  have "db_posts dbl = db_posts db0" using publishLoop_posts[OF lp] .
  with f0 have "find (\<lambda>p. post_id p = pid) (db_posts dbl) = Some (p\<lparr>post_status := PostPublishing\<rparr>)"
    by simp
  from find_updatePost[OF this, of "\<lambda>q. q\<lparr>post_status := PostScheduled\<rparr>"] i d
  have fs: "find (\<lambda>p. post_id p = pid) (db_posts db') = Some (p\<lparr>post_status := PostScheduled\<rparr>)"
    by simp
  have j: "processPublishJob reg ts now dateNow db (Some pid) = (db', JobDelayed (dateNow + delayMs err))"
    using r l by (simp add: processPublishJob_def)
  have c: "db_calls db' = db_calls dbl" unfolding d by simp
  have m: "delayMs err =
             (case retryAfterSeconds err of
                None \<Rightarrow> 60 * 1000
              | Some s \<Rightarrow> if s = 0 then 60 * 1000 else s * 1000)"
    by (simp add: delayMs_def split: option.splits)
  from Some h k d fs c j m show ?thesis unfolding db0_def by blast
qed

theorem publishPost_rate_limit_defers_item_witness:
  "snd (publishPost exampleRegistry vault 1709539200000 twoAccountsDb 1) = Some rateLimited30 \<and>
   isRateLimit rateLimited30 \<and>
   delayMs rateLimited30 = 30000 \<and>
   (\<exists>p pre b rest db1 s1 le1 db2.
      find (\<lambda>p. post_id p = 1) (db_posts twoAccountsDb) = Some p \<and>
      post_socialAccountIds p = pre @ b # rest \<and>
      publishLoop exampleRegistry vault 1709539200000
        (updatePost 1 (\<lambda>q. q\<lparr>post_status := PostPublishing\<rparr>) twoAccountsDb) 1 pre False None
        = (db1, s1, le1, None) \<and>
      publishPostToAccount exampleRegistry vault 1709539200000 db1 1 b = (db2, Inl rateLimited30) \<and>
      db_results db2 = db_results db1 \<and>
      fst (publishPost exampleRegistry vault 1709539200000 twoAccountsDb 1)
        = updatePost 1 (\<lambda>q. q\<lparr>post_status := PostScheduled\<rparr>) db2 \<and>
      find (\<lambda>p. post_id p = 1)
        (db_posts (fst (publishPost exampleRegistry vault 1709539200000 twoAccountsDb 1)))
        = Some (p\<lparr>post_status := PostScheduled\<rparr>) \<and>
      db_calls (fst (publishPost exampleRegistry vault 1709539200000 twoAccountsDb 1)) = db_calls db2 \<and>
      processPublishJob exampleRegistry vault 1709539200000 1709539205000 twoAccountsDb (Some 1)
        = (fst (publishPost exampleRegistry vault 1709539200000 twoAccountsDb 1),
           JobDelayed (1709539205000 + delayMs rateLimited30)) \<and>
      delayMs rateLimited30 =
        (case retryAfterSeconds rateLimited30 of
           None \<Rightarrow> 60 * 1000
         | Some s \<Rightarrow> if s = 0 then 60 * 1000 else s * 1000))"
proof -
  have e: "snd (publishPost exampleRegistry vault 1709539200000 twoAccountsDb 1) = Some rateLimited30"
    supply TrueI [simproc del: let_simp]
    by (simp add: pv cong: let_weak_cong)
  then have r: "publishPost exampleRegistry vault 1709539200000 twoAccountsDb 1
      = (fst (publishPost exampleRegistry vault 1709539200000 twoAccountsDb 1), Some rateLimited30)"
    by (metis prod.collapse)
  have l: "isRateLimit rateLimited30" by (simp add: isRateLimit_def rateLimited30_def)
  have m: "delayMs rateLimited30 = 30000"
    by (simp add: delayMs_def retryAfterSeconds_def rateLimited30_def)
  from publishPost_rate_limit_defers_item[OF r l, of 1709539205000] e l m
  show ?thesis by blast
qed

text \<open>The recorded results are written and never read.\<close>

lemma updateAccount_accounts [simp]:
  "db_accounts (updateAccount aid f db) = updateFirst (\<lambda>a. acc_id a = aid) f (db_accounts db)"
  by (simp add: updateAccount_def)

lemma pubDb_eqI:
  fixes x y :: pubDb
  shows "db_posts x = db_posts y \<Longrightarrow> db_accounts x = db_accounts y \<Longrightarrow>
    db_calls x = db_calls y \<Longrightarrow> x = y\<lparr>db_results := db_results x\<rparr>"
  by (cases x, cases y) simp

lemma refreshAccessToken_results:
  "snd (refreshAccessToken reg ts now (db\<lparr>db_results := rs\<rparr>) account tok)
     = snd (refreshAccessToken reg ts now db account tok) \<and>
   db_posts (fst (refreshAccessToken reg ts now (db\<lparr>db_results := rs\<rparr>) account tok))
     = db_posts (fst (refreshAccessToken reg ts now db account tok)) \<and>
   db_accounts (fst (refreshAccessToken reg ts now (db\<lparr>db_results := rs\<rparr>) account tok))
     = db_accounts (fst (refreshAccessToken reg ts now db account tok)) \<and>
   db_calls (fst (refreshAccessToken reg ts now (db\<lparr>db_results := rs\<rparr>) account tok))
     = db_calls (fst (refreshAccessToken reg ts now db account tok)) \<and>
   db_results (fst (refreshAccessToken reg ts now (db\<lparr>db_results := rs\<rparr>) account tok)) = rs"
  by (simp add: refreshAccessToken_def storeRefreshed_def markRefreshRefused_def Let_def
      split: option.splits sum.splits)

lemma getValidAccessToken_results:
  "snd (getValidAccessToken reg ts now (db\<lparr>db_results := rs\<rparr>) aid)
     = snd (getValidAccessToken reg ts now db aid) \<and>
   db_posts (fst (getValidAccessToken reg ts now (db\<lparr>db_results := rs\<rparr>) aid))
     = db_posts (fst (getValidAccessToken reg ts now db aid)) \<and>
   db_accounts (fst (getValidAccessToken reg ts now (db\<lparr>db_results := rs\<rparr>) aid))
     = db_accounts (fst (getValidAccessToken reg ts now db aid)) \<and>
   db_calls (fst (getValidAccessToken reg ts now (db\<lparr>db_results := rs\<rparr>) aid))
     = db_calls (fst (getValidAccessToken reg ts now db aid)) \<and>
   db_results (fst (getValidAccessToken reg ts now (db\<lparr>db_results := rs\<rparr>) aid)) = rs"
  by (simp add: getValidAccessToken_def refreshAccessToken_results markNoRefreshToken_def Let_def
      split: option.splits sum.splits)

lemma tokenFailure_results:
  "\<exists>rs'. tokenFailure p a (db\<lparr>db_results := rs\<rparr>) err
      = ((fst (tokenFailure p a db err))\<lparr>db_results := rs'\<rparr>, snd (tokenFailure p a db err))"
proof -
  have "fst (tokenFailure p a (db\<lparr>db_results := rs\<rparr>) err)
      = (fst (tokenFailure p a db err))\<lparr>db_results := db_results (fst (tokenFailure p a (db\<lparr>db_results := rs\<rparr>) err))\<rparr>"
    by (rule pubDb_eqI) (simp_all add: tokenFailure_keeps)
  moreover have "snd (tokenFailure p a (db\<lparr>db_results := rs\<rparr>) err) = snd (tokenFailure p a db err)"
    by (simp add: tokenFailure_Inl)
  ultimately show ?thesis by (metis prod.collapse)
qed

lemma publishWithToken_snd:
  "snd (publishWithToken prov p account a (db\<lparr>db_results := rs\<rparr>) tok)
     = snd (publishWithToken prov p account a db tok)"
  by (simp add: publishWithToken_def split: sum.splits)

lemma publishWithToken_results:
  "\<exists>rs'. publishWithToken prov p account a (db\<lparr>db_results := rs\<rparr>) tok
      = ((fst (publishWithToken prov p account a db tok))\<lparr>db_results := rs'\<rparr>,
         snd (publishWithToken prov p account a db tok))"
proof -
  have "fst (publishWithToken prov p account a (db\<lparr>db_results := rs\<rparr>) tok)
      = (fst (publishWithToken prov p account a db tok))\<lparr>db_results :=
           db_results (fst (publishWithToken prov p account a (db\<lparr>db_results := rs\<rparr>) tok))\<rparr>"
    by (rule pubDb_eqI) (simp_all add: publishWithToken_keeps)
  with publishWithToken_snd[where prov=prov and p=p and account=account and a=a and db=db and rs=rs and tok=tok]
  show ?thesis by (metis prod.collapse)
qed

lemma sameApartFromResults_eq: "sameApartFromResults x y \<Longrightarrow> x = y\<lparr>db_results := db_results x\<rparr>"
  by (simp add: sameApartFromResults_def pubDb_eqI)

lemma getValidAccessToken_same:
  assumes "sameApartFromResults x y"
  shows "snd (getValidAccessToken reg ts now x a) = snd (getValidAccessToken reg ts now y a) \<and>
         sameApartFromResults (fst (getValidAccessToken reg ts now x a))
           (fst (getValidAccessToken reg ts now y a))"
proof -
  from sameApartFromResults_eq[OF assms] obtain rs where x: "x = y\<lparr>db_results := rs\<rparr>" by blast
  show ?thesis
    unfolding x sameApartFromResults_def using getValidAccessToken_results[where reg=reg and ts=ts and now=now and db=y and rs=rs and aid=a]
    by simp
qed

lemma tokenFailure_same:
  "sameApartFromResults x y \<Longrightarrow>
   snd (tokenFailure p a x err) = snd (tokenFailure p a y err) \<and>
   sameApartFromResults (fst (tokenFailure p a x err)) (fst (tokenFailure p a y err))"
  by (simp add: sameApartFromResults_def tokenFailure_keeps tokenFailure_Inl)

lemma publishWithToken_same:
  assumes "sameApartFromResults x y"
  shows "snd (publishWithToken prov p account a x tok) = snd (publishWithToken prov p account a y tok) \<and>
         sameApartFromResults (fst (publishWithToken prov p account a x tok))
           (fst (publishWithToken prov p account a y tok))"
proof -
  from sameApartFromResults_eq[OF assms] obtain rs where x: "x = y\<lparr>db_results := rs\<rparr>" by blast
  have "snd (publishWithToken prov p account a x tok) = snd (publishWithToken prov p account a y tok)"
    unfolding x by (rule publishWithToken_snd)
  with assms show ?thesis
    by (simp add: sameApartFromResults_def publishWithToken_keeps)
qed

lemma publishPostToAccount_same:
  assumes s: "sameApartFromResults x y"
  shows "snd (publishPostToAccount reg ts now x pid a) = snd (publishPostToAccount reg ts now y pid a) \<and>
         sameApartFromResults (fst (publishPostToAccount reg ts now x pid a))
           (fst (publishPostToAccount reg ts now y pid a))"
proof -
  obtain dx rx where gx: "getValidAccessToken reg ts now x a = (dx, rx)"
    by (cases "getValidAccessToken reg ts now x a")
  obtain dy ry where gy: "getValidAccessToken reg ts now y a = (dy, ry)"
    by (cases "getValidAccessToken reg ts now y a")
  from getValidAccessToken_same[OF s, of reg ts now a] gx gy
  have r: "rx = ry" and d: "sameApartFromResults dx dy" by simp_all
  from s have e: "db_posts x = db_posts y" "db_accounts x = db_accounts y"
    by (simp_all add: sameApartFromResults_def)
  show ?thesis
    unfolding publishPostToAccount_def e gx gy r
    using s tokenFailure_same[OF d] publishWithToken_same[OF d]
    by (simp split: option.splits sum.splits)
qed

lemma publishLoop_same:
  "sameApartFromResults x y \<Longrightarrow>
   snd (publishLoop reg ts now x pid accts s le) = snd (publishLoop reg ts now y pid accts s le) \<and>
   sameApartFromResults (fst (publishLoop reg ts now x pid accts s le))
     (fst (publishLoop reg ts now y pid accts s le))"
proof (induction accts arbitrary: x y s le)
  case Nil
  then show ?case by simp
next
  case (Cons a accts)
  obtain dx rx where px: "publishPostToAccount reg ts now x pid a = (dx, rx)"
    by (cases "publishPostToAccount reg ts now x pid a")
  obtain dy ry where py: "publishPostToAccount reg ts now y pid a = (dy, ry)"
    by (cases "publishPostToAccount reg ts now y pid a")
  from publishPostToAccount_same[OF Cons.prems, of reg ts now pid a] px py
  have r: "rx = ry" and d: "sameApartFromResults dx dy" by simp_all
  show ?case
  proof (cases ry)
    case (Inr ok)
    with px py r Cons.IH[OF d, of True le] show ?thesis by simp
  next
    case (Inl e)
    with px py r d Cons.IH[OF d, of s "Some e"] show ?thesis by simp
  qed
qed

lemma updatePost_same:
  "sameApartFromResults x y \<Longrightarrow> sameApartFromResults (updatePost pid f x) (updatePost pid f y)"
  by (simp add: sameApartFromResults_def updatePost_def)

text \<open>
  Claim C2, amended. Neither \<open>publishPost\<close> nor \<open>publishPostToAccount\<close> reads the recorded
  publish results: whatever results are recorded when a pass starts, the pass makes the
  same provider calls, leaves the same posts and accounts and throws the same error. (The
  results are only written, by an upsert for the pair of post and account.)
\<close>

theorem publishPost_ignores_recorded_outcomes:
  "snd (publishPost reg ts now (db\<lparr>db_results := rs\<rparr>) pid) = snd (publishPost reg ts now db pid) \<and>
   db_calls (fst (publishPost reg ts now (db\<lparr>db_results := rs\<rparr>) pid))
     = db_calls (fst (publishPost reg ts now db pid)) \<and>
   db_posts (fst (publishPost reg ts now (db\<lparr>db_results := rs\<rparr>) pid))
     = db_posts (fst (publishPost reg ts now db pid)) \<and>
   db_accounts (fst (publishPost reg ts now (db\<lparr>db_results := rs\<rparr>) pid))
     = db_accounts (fst (publishPost reg ts now db pid))"
proof -
  have s: "sameApartFromResults (db\<lparr>db_results := rs\<rparr>) db"
    by (simp add: sameApartFromResults_def)
  have g: "snd (publishPost reg ts now x pid) = snd (publishPost reg ts now y pid) \<and>
           sameApartFromResults (fst (publishPost reg ts now x pid)) (fst (publishPost reg ts now y pid))"
    if xy: "sameApartFromResults x y" for x y
  proof (cases "find (\<lambda>p. post_id p = pid) (db_posts y)")
    case None
    with xy show ?thesis by (simp add: publishPost_def sameApartFromResults_def)
  next
    case (Some p)
    from xy have e: "db_posts x = db_posts y" by (simp add: sameApartFromResults_def)
    define x0 where "x0 = updatePost pid (\<lambda>q. q\<lparr>post_status := PostPublishing\<rparr>) x"
    define y0 where "y0 = updatePost pid (\<lambda>q. q\<lparr>post_status := PostPublishing\<rparr>) y"
    have s0: "sameApartFromResults x0 y0" unfolding x0_def y0_def by (rule updatePost_same[OF xy])
    obtain dx sx lx rx where
      lx: "publishLoop reg ts now x0 pid (post_socialAccountIds p) False None = (dx, sx, lx, rx)"
      by (cases "publishLoop reg ts now x0 pid (post_socialAccountIds p) False None") auto
    obtain dy sy ly ry where
      ly: "publishLoop reg ts now y0 pid (post_socialAccountIds p) False None = (dy, sy, ly, ry)"
      by (cases "publishLoop reg ts now y0 pid (post_socialAccountIds p) False None") auto
    from publishLoop_same[OF s0, of reg ts now pid "post_socialAccountIds p" False None] lx ly
    have q: "sx = sy" "lx = ly" "rx = ry" and d: "sameApartFromResults dx dy" by simp_all
    show ?thesis
    proof (cases "post_socialAccountIds p = []")
      case True
      with Some e xy show ?thesis by (simp add: publishPost_def updatePost_same)
    next
      case False
      with Some e lx ly q d show ?thesis
        unfolding publishPost_def x0_def[symmetric] y0_def[symmetric]
        by (cases ry) (simp_all add: Let_def x0_def[symmetric] y0_def[symmetric] updatePost_same)
    qed
  qed
  from g[OF s] show ?thesis by (simp add: sameApartFromResults_def)
qed

theorem publishPost_ignores_recorded_outcomes_witness:
  "snd (publishPost exampleRegistry vault 1709539200000
          (twoAccountsDb\<lparr>db_results := db_results (fst (publishPost exampleRegistry vault 1709539200000 twoAccountsDb 1))\<rparr>) 1)
     = snd (publishPost exampleRegistry vault 1709539200000 twoAccountsDb 1) \<and>
   db_calls (fst (publishPost exampleRegistry vault 1709539200000
          (twoAccountsDb\<lparr>db_results := db_results (fst (publishPost exampleRegistry vault 1709539200000 twoAccountsDb 1))\<rparr>) 1))
     = db_calls (fst (publishPost exampleRegistry vault 1709539200000 twoAccountsDb 1)) \<and>
   db_posts (fst (publishPost exampleRegistry vault 1709539200000
          (twoAccountsDb\<lparr>db_results := db_results (fst (publishPost exampleRegistry vault 1709539200000 twoAccountsDb 1))\<rparr>) 1))
     = db_posts (fst (publishPost exampleRegistry vault 1709539200000 twoAccountsDb 1)) \<and>
   db_accounts (fst (publishPost exampleRegistry vault 1709539200000
          (twoAccountsDb\<lparr>db_results := db_results (fst (publishPost exampleRegistry vault 1709539200000 twoAccountsDb 1))\<rparr>) 1))
     = db_accounts (fst (publishPost exampleRegistry vault 1709539200000 twoAccountsDb 1))"
  by (rule publishPost_ignores_recorded_outcomes)

text \<open>
  A first pass publishes to account 1 and is deferred by the rate limit of account 2; the
  result \<open>published\<close> is recorded for account 1. A second pass over the store that the first
  one left calls the provider again for account 1.
\<close>

theorem publishPost_second_pass_calls_adapter_again:
  "map pr_postId (db_results (fst (publishPost exampleRegistry vault 1709539200000 twoAccountsDb 1))) = [1] \<and>
   map pr_socialAccountId
     (db_results (fst (publishPost exampleRegistry vault 1709539200000 twoAccountsDb 1))) = [1] \<and>
   map pr_status
     (db_results (fst (publishPost exampleRegistry vault 1709539200000 twoAccountsDb 1)))
     = [ResultPublished] \<and>
   map post_socialAccountIds (db_posts twoAccountsDb) = [[1, 2]] \<and>
   db_calls (fst (publishPost exampleRegistry vault 1709539200000 twoAccountsDb 1))
     = [PublishCall 1 ''tokA'' \<lparr>pl_text = ''hello'', pl_linkUrl = None\<rparr>,
        PublishCall 2 ''tokB'' \<lparr>pl_text = ''hello'', pl_linkUrl = None\<rparr>] \<and>
   db_calls (fst (publishPost exampleRegistry vault 1709539200000
                    (fst (publishPost exampleRegistry vault 1709539200000 twoAccountsDb 1)) 1))
     = [PublishCall 1 ''tokA'' \<lparr>pl_text = ''hello'', pl_linkUrl = None\<rparr>,
        PublishCall 2 ''tokB'' \<lparr>pl_text = ''hello'', pl_linkUrl = None\<rparr>,
        PublishCall 1 ''tokA'' \<lparr>pl_text = ''hello'', pl_linkUrl = None\<rparr>,
        PublishCall 2 ''tokB'' \<lparr>pl_text = ''hello'', pl_linkUrl = None\<rparr>]"
  supply TrueI [simproc del: let_simp]
  by (simp add: pv cong: let_weak_cong)

end
